theory Spec2Isabelle
  imports Complex_Main "HOL-Library.Word"
begin

section \<open>Errors\<close>

text \<open>
  The error classes of \<^verbatim>\<open>templimiter/error/*.h\<close>, told apart in the source by
  \<^verbatim>\<open>e.name()\<close>.  \<open>OutOfRange\<close> is not one of them: it marks an access
  \<^verbatim>\<open>v[i]\<close> beyond the end of a \<^verbatim>\<open>std::vector\<close>, which the source does not
  check.  It is no \<^verbatim>\<open>error::Error\<close>, so no handler of the source catches it.
\<close>

datatype error =
  ArgumentError | ConfigError | InternalError | IOError | TypeError | OutOfRange

definition ebind :: "error + 'a \<Rightarrow> ('a \<Rightarrow> error + 'b) \<Rightarrow> error + 'b" where
  "ebind m f = (case m of Inl e \<Rightarrow> Inl e | Inr x \<Rightarrow> f x)"

definition vec_at :: "'a list \<Rightarrow> nat \<Rightarrow> error + 'a" where
  "vec_at xs i = (if i < length xs then Inr (xs ! i) else Inl OutOfRange)"

section \<open>tools/vector.h, tools/string.cc\<close>

text \<open>\<^verbatim>\<open>tools::subvect(vect, start_index, n_elements)\<close>, both indices of type
  \<^verbatim>\<open>ptrdiff_t\<close>.\<close>

definition subvect :: "'a list \<Rightarrow> int \<Rightarrow> int \<Rightarrow> error + 'a list" where
  "subvect vect start_index n_elements =
     (if start_index < 0 then Inl ArgumentError
      else if n_elements < 0 then Inl ArgumentError
      else if n_elements = 0 then Inr []
      else if int (length vect) \<le> start_index then Inl ArgumentError
      else if int (length vect) < start_index + n_elements then Inl ArgumentError
      else Inr (take (nat n_elements) (drop (nat start_index) vect)))"

definition backslash :: char where
  "backslash = CHR 0x5C"

definition star :: char where
  "star = CHR ''*''"

text \<open>
  The loop of \<^verbatim>\<open>tools::split\<close>: the rest of \<open>str\<close> from index \<open>i\<close> on, and the
  variables \<open>chunks\<close>, \<open>cur\<close>, \<open>waiting_next\<close>.  A backslash that is not the last
  character copies the next character and skips it, without touching \<open>waiting_next\<close>.
\<close>

fun split_loop :: "char \<Rightarrow> string \<Rightarrow> string list \<Rightarrow> string \<Rightarrow> bool \<Rightarrow> string list" where
  "split_loop ch [] chunks cur waiting_next =
     (if length cur > 0 then chunks @ [cur] else chunks)"
| "split_loop ch [c] chunks cur waiting_next =
     (if c = ch then
        (if \<not> waiting_next \<and> length cur > 0
         then split_loop ch [] (chunks @ [cur]) [] True
         else split_loop ch [] chunks cur waiting_next)
      else split_loop ch [] chunks (cur @ [c]) False)"
| "split_loop ch (c # d # rest) chunks cur waiting_next =
     (if c = backslash then split_loop ch rest chunks (cur @ [d]) waiting_next
      else if c = ch then
        (if \<not> waiting_next \<and> length cur > 0
         then split_loop ch (d # rest) (chunks @ [cur]) [] True
         else split_loop ch (d # rest) chunks cur waiting_next)
      else split_loop ch (d # rest) chunks (cur @ [c]) False)"

definition split :: "string \<Rightarrow> char \<Rightarrow> string list" where
  "split str ch = split_loop ch str [] [] False"

text \<open>
  \<^verbatim>\<open>std::string::find(s, pos)\<close>: the first index \<open>i \<ge> pos\<close> at which \<open>s\<close> occurs
  in \<open>test\<close>, \<open>None\<close> for \<^verbatim>\<open>npos\<close>.  \<^verbatim>\<open>size_t\<close> has 64 bits and
  \<^verbatim>\<open>npos\<close> is its largest value.
\<close>

definition str_find :: "string \<Rightarrow> string \<Rightarrow> nat \<Rightarrow> nat option" where
  "str_find test s pos =
     List.find (\<lambda>i. take (length s) (drop i test) = s)
       [pos ..< Suc (length test) - length s]"

definition npos :: int where
  "npos = 2 ^ 64 - 1"

definition size_t_of_find :: "nat option \<Rightarrow> int" where
  "size_t_of_find r = (case r of None \<Rightarrow> npos | Some i \<Rightarrow> int i)"

text \<open>Subtraction of two lengths in \<^verbatim>\<open>size_t\<close>: it wraps around below zero.\<close>

definition size_t_minus :: "nat \<Rightarrow> nat \<Rightarrow> int" where
  "size_t_minus a b = (int a - int b) mod 2 ^ 64"

text \<open>\<^verbatim>\<open>test.compare(0, s.size(), s) != 0\<close>: the prefix of \<open>test\<close> of the length
  of \<open>s\<close> (or all of \<open>test\<close>, when it is shorter) differs from \<open>s\<close>.\<close>

definition compare_prefix_ne :: "string \<Rightarrow> string \<Rightarrow> bool" where
  "compare_prefix_ne test s = (take (length s) test \<noteq> s)"

text \<open>
  The \<^verbatim>\<open>for\<close> loop of \<^verbatim>\<open>matches_pattern\<close> from index \<open>i\<close> on (\<open>n\<close> iterations
  left): \<open>Inr False\<close> is its \<^verbatim>\<open>return false\<close>, \<open>Inr True\<close> its normal end.
\<close>

fun found_loop :: "string list \<Rightarrow> string \<Rightarrow> nat \<Rightarrow> nat \<Rightarrow> error + bool" where
  "found_loop patt_spl test i 0 = Inr True"
| "found_loop patt_spl test i (Suc n) =
     ebind (subvect patt_spl 0 (int i)) (\<lambda>slice.
       let next_idx_after_last = fold (\<lambda>v sum. sum + length v) slice 0 in
       ebind (vec_at patt_spl i) (\<lambda>frag.
         if str_find test frag next_idx_after_last = None then Inr False
         else found_loop patt_spl test (Suc i) n))"

definition matches_pattern :: "string \<Rightarrow> string \<Rightarrow> error + bool" where
  "matches_pattern pattern test =
     (if star \<notin> set pattern then Inr (pattern = test)
      else
        let patt_spl = split pattern star in
        ebind (if hd pattern \<noteq> star
               then ebind (vec_at patt_spl 0) (\<lambda>first. Inr (compare_prefix_ne test first))
               else Inr False) (\<lambda>fail_first.
          if fail_first then Inr False
          else ebind (found_loop patt_spl test 0 (length patt_spl)) (\<lambda>all_found.
            if \<not> all_found then Inr False
            else ebind (if last pattern \<noteq> star
                        then ebind (vec_at patt_spl (length patt_spl - 1)) (\<lambda>lst.
                               Inr (size_t_of_find (str_find test lst 0)
                                      \<noteq> size_t_minus (length test) (length lst)))
                        else Inr False) (\<lambda>fail_last.
              if fail_last then Inr False else Inr True))))"

text \<open>\<^verbatim>\<open>tools::pattern_vect_contains\<close>.\<close>

fun pattern_vect_contains :: "string list \<Rightarrow> string \<Rightarrow> error + bool" where
  "pattern_vect_contains [] v = Inr False"
| "pattern_vect_contains (p # ps) v =
     ebind (matches_pattern p v) (\<lambda>m. if m then Inr True else pattern_vect_contains ps v)"


text \<open>\<^verbatim>\<open>tools::join\<close>.  On an empty vector the source computes \<^verbatim>\<open>vect.size() - 1\<close>
  in \<^verbatim>\<open>size_t\<close> and reads \<^verbatim>\<open>vect[0]\<close>.\<close>

fun join_loop :: "string list \<Rightarrow> string \<Rightarrow> string" where
  "join_loop [] str = []"
| "join_loop [v] str = v"
| "join_loop (v # w # vs) str = v @ str @ join_loop (w # vs) str"

definition join :: "string list \<Rightarrow> string \<Rightarrow> error + string" where
  "join vect str = (if vect = [] then Inl OutOfRange else Inr (join_loop vect str))"

fun emap :: "('a \<Rightarrow> error + 'b) \<Rightarrow> 'a list \<Rightarrow> error + 'b list" where
  "emap f [] = Inr []"
| "emap f (x # xs) = ebind (f x) (\<lambda>y. ebind (emap f xs) (\<lambda>ys. Inr (y # ys)))"

section \<open>tools/type-convert.h\<close>

text \<open>
  \<^verbatim>\<open>tools::to_string\<close> of an integer: its decimal numeral.
\<close>

definition digit_char :: "int \<Rightarrow> char" where
  "digit_char d = char_of (48 + d)"

function dec_digits :: "int \<Rightarrow> string" where
  "dec_digits n = (if n < 10 then [digit_char n] else dec_digits (n div 10) @ [digit_char (n mod 10)])"
  by pat_completeness auto
termination
  by (relation "measure nat") auto

declare dec_digits.simps [simp del]

definition to_string :: "int \<Rightarrow> string" where
  "to_string n = (if n < 0 then CHR ''-'' # dec_digits (- n) else dec_digits n)"

text \<open>
  \<^verbatim>\<open>tools::convert<T>(std::string)\<close> for an integral \<open>T\<close> reads the string with
  \<^verbatim>\<open>operator>>\<close> and throws \<^verbatim>\<open>TypeError\<close> unless
  \<^verbatim>\<open>to_string(output)\<close> gives the input back.  Only the decimal numeral of a
  value of \<open>T\<close>, as \<^verbatim>\<open>to_string\<close> prints it (no sign but \<open>-\<close>, no leading zero,
  nothing before or after), passes that check.
\<close>

definition digit_of :: "char \<Rightarrow> int option" where
  "digit_of c = (let n = (of_char c :: int) in if 48 \<le> n \<and> n \<le> 57 then Some (n - 48) else None)"

fun digits_value :: "string \<Rightarrow> int \<Rightarrow> int option" where
  "digits_value [] acc = Some acc"
| "digits_value (c # cs) acc =
     (case digit_of c of None \<Rightarrow> None | Some d \<Rightarrow> digits_value cs (10 * acc + d))"

definition canonical_dec :: "string \<Rightarrow> int option" where
  "canonical_dec s =
     (case s of
        [] \<Rightarrow> None
      | c # cs \<Rightarrow>
          if c = CHR ''-'' then
            (case cs of
               [] \<Rightarrow> None
             | d # ds \<Rightarrow> if d = CHR ''0'' then None else map_option uminus (digits_value cs 0))
          else if c = CHR ''0'' then (if cs = [] then Some 0 else None)
          else digits_value s 0)"

definition convert_integral :: "int \<Rightarrow> int \<Rightarrow> string \<Rightarrow> error + int" where
  "convert_integral lo hi s =
     (case canonical_dec s of
        None \<Rightarrow> Inl TypeError
      | Some v \<Rightarrow> if lo \<le> v \<and> v \<le> hi then Inr v else Inl TypeError)"

type_synonym u_long = "64 word"

definition convert_u_long :: "string \<Rightarrow> error + u_long" where
  "convert_u_long s = ebind (convert_integral 0 (2 ^ 64 - 1) s) (\<lambda>v. Inr (word_of_int v))"

definition convert_uint :: "string \<Rightarrow> error + int" where
  "convert_uint = convert_integral 0 (2 ^ 32 - 1)"

text \<open>\<^verbatim>\<open>int\<close> and \<^verbatim>\<open>pid_t\<close> have 32 bits, \<^verbatim>\<open>long\<close> has 64.\<close>

definition convert_int :: "string \<Rightarrow> error + int" where
  "convert_int = convert_integral (- (2 ^ 31)) (2 ^ 31 - 1)"

definition convert_long :: "string \<Rightarrow> error + int" where
  "convert_long = convert_integral (- (2 ^ 63)) (2 ^ 63 - 1)"

text \<open>\<^verbatim>\<open>convert<char>\<close>: \<^verbatim>\<open>operator>>\<close> skips white space and reads one
  character, so only a string of one character that is not white space is given back by
  \<^verbatim>\<open>to_string\<close>.\<close>

definition is_space :: "char \<Rightarrow> bool" where
  "is_space c = (c \<in> set [CHR '' '', CHR 0x09, CHR 0x0A, CHR 0x0B, CHR 0x0C, CHR 0x0D])"

definition convert_char :: "string \<Rightarrow> error + char" where
  "convert_char s =
     (case s of [c] \<Rightarrow> if is_space c then Inl TypeError else Inr c | _ \<Rightarrow> Inl TypeError)"

text \<open>\<^verbatim>\<open>convert<bool>\<close> reads with \<^verbatim>\<open>std::boolalpha\<close>.\<close>

definition convert_bool :: "string \<Rightarrow> error + bool" where
  "convert_bool s =
     (if s = ''true'' then Inr True else if s = ''false'' then Inr False else Inl TypeError)"

definition convert_string :: "string \<Rightarrow> error + string" where
  "convert_string s = Inr s"

section \<open>Single-precision floating point\<close>

text \<open>
  A \<^verbatim>\<open>float\<close> (IEEE 754 binary32): a finite value, an infinity or a NaN.  The
  sign of zero is not kept; no operation of the source tells the two zeros apart.
\<close>

datatype cfloat = Fin rat | PInf | NInf | NaN

function bitlen :: "int \<Rightarrow> nat" where
  "bitlen n = (if n \<le> 0 then 0 else Suc (bitlen (n div 2)))"
  by pat_completeness auto
termination
  by (relation "measure nat") auto

declare bitlen.simps [simp del]

definition round_ties_even :: "int \<Rightarrow> int \<Rightarrow> int" where
  "round_ties_even num den =
     (let k = num div den; r = num mod den
      in if 2 * r > den \<or> (2 * r = den \<and> odd k) then k + 1 else k)"

text \<open>
  The binary32 value nearest to \<open>a / b\<close> for integers \<open>a, b > 0\<close>, ties to even: with
  \<open>2 ^ fl \<le> a / b < 2 ^ (fl + 1)\<close> the quotient is rounded to a multiple of
  \<open>2 ^ (fl - 23)\<close>.  The operands of the source are 64-bit integers, so \<open>fl\<close> stays between
  \<open>-64\<close> and \<open>64\<close>, inside the exponent range of binary32.
\<close>

definition f32_round_pos :: "int \<Rightarrow> int \<Rightarrow> rat" where
  "f32_round_pos a b =
     (let e = int (bitlen a) - int (bitlen b);
          fl = (if e \<ge> 0 then (if b * 2 ^ nat e \<le> a then e else e - 1)
                else (if b \<le> a * 2 ^ nat (- e) then e else e - 1));
          s = 23 - fl;
          k = (if s \<ge> 0 then round_ties_even (a * 2 ^ nat s) b
               else round_ties_even a (b * 2 ^ nat (- s)))
      in if s \<ge> 0 then Fract k (2 ^ nat s) else of_int (k * 2 ^ nat (- s)))"

text \<open>The conversion of a \<^verbatim>\<open>u_long\<close> to \<^verbatim>\<open>float\<close>; the result is an integer.\<close>

definition f32_of_u_long :: "u_long \<Rightarrow> rat" where
  "f32_of_u_long n = (if n = 0 then 0 else f32_round_pos (uint n) 1)"

text \<open>
  Division of two finite floats.  Division by zero raises no exception: the quotient is
  an infinity, or NaN for \<open>0 / 0\<close>.
\<close>

definition f32_div :: "rat \<Rightarrow> rat \<Rightarrow> cfloat" where
  "f32_div x y =
     (if y = 0 then (if x = 0 then NaN else if x > 0 then PInf else NInf)
      else if x = 0 then Fin 0
      else let (a, b) = quotient_of (x / y)
           in if a > 0 then Fin (f32_round_pos a b) else Fin (- f32_round_pos (- a) b))"

text \<open>\<^verbatim>\<open>a < b\<close> on floats: false as soon as one of them is a NaN.\<close>

fun f32_less :: "cfloat \<Rightarrow> cfloat \<Rightarrow> bool" where
  "f32_less NaN _ = False"
| "f32_less _ NaN = False"
| "f32_less (Fin a) (Fin b) = (a < b)"
| "f32_less _ NInf = False"
| "f32_less NInf _ = True"
| "f32_less PInf _ = False"
| "f32_less _ PInf = True"


section \<open>The system the daemon runs on\<close>

text \<open>
  What one call into the operating system sees: the paths \<^verbatim>\<open>glob\<close> returns for a
  pattern, whether a path exists, the lines of a file that can be opened for reading
  (\<open>None\<close> when opening fails), and whether a file can be opened for writing.
\<close>

record sys =
  glob_paths :: "string \<Rightarrow> string list"
  file_exists :: "string \<Rightarrow> bool"
  file_lines :: "string \<Rightarrow> string list option"
  writable :: "string \<Rightarrow> bool"

text \<open>\<^verbatim>\<open>io::ls(pattern, include_paths)\<close>.\<close>

definition ls :: "sys \<Rightarrow> string \<Rightarrow> bool \<Rightarrow> error + string list" where
  "ls sy pattern include_paths =
     emap (\<lambda>path.
        if include_paths then Inr path
        else let spl = split path CHR ''/'' in
             ebind (subvect spl (int (length spl) - 1) 1) (\<lambda>sub. join sub ''/''))
       (glob_paths sy pattern)"

text \<open>\<^verbatim>\<open>io::File<T>\<close>: the check of the constructor and \<^verbatim>\<open>read()\<close>, whose lines
  are converted to \<open>T\<close> by \<open>conv\<close>.\<close>

definition validate :: "string \<Rightarrow> error + unit" where
  "validate path =
     (if length path = 0 then Inl ArgumentError
      else if hd path \<noteq> CHR ''/'' then Inl ArgumentError
      else if last path = CHR ''/'' then Inl ArgumentError
      else Inr ())"

definition file_read :: "(string \<Rightarrow> error + 'a) \<Rightarrow> sys \<Rightarrow> string \<Rightarrow> error + 'a list" where
  "file_read conv sy path =
     (if file_exists sy path then
        (case file_lines sy path of
           None \<Rightarrow> Inl IOError
         | Some lines \<Rightarrow> emap conv lines)
      else Inl IOError)"

text \<open>\<^verbatim>\<open>io::FileCollection<T>\<close>: the constructor from a pattern gives the paths of
  its files; \<^verbatim>\<open>read()\<close> chains the lines of all of them.\<close>

definition file_collection :: "sys \<Rightarrow> string \<Rightarrow> error + string list" where
  "file_collection sy pattern =
     ebind (ls sy pattern True) (\<lambda>results.
       if length results > 0 then ebind (emap validate results) (\<lambda>_. Inr results)
       else Inl ArgumentError)"

definition collection_read ::
  "(string \<Rightarrow> error + 'a) \<Rightarrow> sys \<Rightarrow> string list \<Rightarrow> error + 'a list" where
  "collection_read conv sy files =
     ebind (emap (file_read conv sy) files) (\<lambda>contents. Inr (concat contents))"

section \<open>daemon/config.h, daemon/config.cc\<close>

record config =
  config_lines :: "string list"
  own_pid :: int
  matcher_thermal :: string
  matcher_scaling_max_freq :: string
  matcher_cpuinfo_max_freq :: string
  matcher_cpuinfo_min_freq :: string
  matcher_scaling_available_frequencies :: string
  log_file_path :: string
  whitelist_pid :: "int list"
  whitelist_comm :: "string list"
  whitelist_state :: "char list"
  whitelist_ppid :: "int list"
  whitelist_pgrp :: "int list"
  whitelist_session :: "int list"
  whitelist_tty_nr :: "int list"
  whitelist_tpgid :: "int list"
  whitelist_flags :: "int list"
  whitelist_max_nice :: int
  use_throttle :: bool
  use_SIGSTOP :: bool
  use_scaling_available :: bool
  use_stepwise_SIGSTOP :: bool
  use_stepwise_SIGCONT :: bool
  temp_SIGSTOP :: u_long
  temp_SIGCONT :: u_long
  temp_throttle :: u_long
  temp_dethrottle :: u_long
  min_sleep :: int
  thermal_files :: "string list"
  scaling_max_freq_files :: "string list"
  cpuinfo_max_freq_files :: "string list"
  cpuinfo_min_freq_files :: "string list"
  scaling_available_frequencies_files :: "string list"
  proc_stat_file :: string
  cpuinfo_max_freqs :: "u_long list"
  cpuinfo_min_freqs :: "u_long list"
  scaling_available_frequencies :: "u_long list list"

text \<open>The member initialisers of \<^verbatim>\<open>class Config\<close>.\<close>

definition default_config :: config where
  "default_config = \<lparr>
     config_lines = [],
     own_pid = 0,
     matcher_thermal = ''/sys/devices/virtual/thermal/thermal_zone*/temp'',
     matcher_scaling_max_freq = ''/sys/devices/system/cpu/cpu*/cpufreq/scaling_max_freq'',
     matcher_cpuinfo_max_freq = ''/sys/devices/system/cpu/cpu*/cpufreq/cpuinfo_max_freq'',
     matcher_cpuinfo_min_freq = ''/sys/devices/system/cpu/cpu*/cpufreq/cpuinfo_min_freq'',
     matcher_scaling_available_frequencies =
       ''/sys/devices/system/cpu/cpu*/cpufreq/scaling_available_frequencies'',
     log_file_path = ''/var/log/templimiter.log'',
     whitelist_pid = [],
     whitelist_comm =
       [''dnsmasq'', ''systemd'', ''(sd-pam)'', ''startx'', ''xinit'', ''Xorg'',
        ''dbus-daemon'', ''rtkit-daemon'', ''at-spi-bus-laun'', ''at-spi2-registr'',
        ''wpa_supplicant'', ''dhcpcd'', ''systemd-journal'', ''lvmetad'', ''systemd-udevd'',
        ''upowerd'', ''systemd-timesyn'', ''systemd-machine'', ''firewalld'',
        ''systemd-logind'', ''polkitd'', ''haveged'', ''systemd-resolve'', ''systemd-network''],
     whitelist_state = [],
     whitelist_ppid = [],
     whitelist_pgrp = [],
     whitelist_session = [],
     whitelist_tty_nr = [],
     whitelist_tpgid = [],
     whitelist_flags = [],
     whitelist_max_nice = - 21,
     use_throttle = True,
     use_SIGSTOP = False,
     use_scaling_available = False,
     use_stepwise_SIGSTOP = True,
     use_stepwise_SIGCONT = False,
     temp_SIGSTOP = 70000,
     temp_SIGCONT = 66000,
     temp_throttle = 66000,
     temp_dethrottle = 60000,
     min_sleep = 500,
     thermal_files = [],
     scaling_max_freq_files = [],
     cpuinfo_max_freq_files = [],
     cpuinfo_min_freq_files = [],
     scaling_available_frequencies_files = [],
     proc_stat_file = [],
     cpuinfo_max_freqs = [],
     cpuinfo_min_freqs = [],
     scaling_available_frequencies = [] \<rparr>"

definition PROC_SELF_STAT :: string where
  "PROC_SELF_STAT = ''/proc/self/stat''"

definition PROC_STAT :: string where
  "PROC_STAT = ''/proc/stat''"

definition assert_any_mode :: "config \<Rightarrow> error + unit" where
  "assert_any_mode c = (if \<not> use_throttle c \<and> \<not> use_SIGSTOP c then Inl ConfigError else Inr ())"

definition assert_throttle_gte_dethrottle :: "config \<Rightarrow> error + unit" where
  "assert_throttle_gte_dethrottle c =
     (if temp_throttle c < temp_dethrottle c then Inl ConfigError else Inr ())"

definition assert_scale_max_freq_files_sizey :: "nat \<Rightarrow> error + unit" where
  "assert_scale_max_freq_files_sizey scalemax_sz =
     (if scalemax_sz = 0 then Inl ConfigError else Inr ())"

definition assert_scaling_available_frequencies_sizey :: "config \<Rightarrow> error + unit" where
  "assert_scaling_available_frequencies_sizey c =
     (if length (scaling_available_frequencies c) = 0 then Inl ConfigError else Inr ())"

definition assert_scaling_max_size_eq_scaling_available :: "config \<Rightarrow> nat \<Rightarrow> error + unit" where
  "assert_scaling_max_size_eq_scaling_available c scalemax_sz =
     (if scalemax_sz \<noteq> length (scaling_available_frequencies c) then Inl ConfigError
      else Inr ())"

definition assert_scaling_max_size_eq_cpu_max_and_min :: "config \<Rightarrow> nat \<Rightarrow> error + unit" where
  "assert_scaling_max_size_eq_cpu_max_and_min c scalemax_sz =
     (let cpumax_sz = length (cpuinfo_max_freqs c); cpumin_sz = length (cpuinfo_min_freqs c)
      in if cpumax_sz = 0 then Inl ConfigError
         else if cpumin_sz = 0 then Inl ConfigError
         else if scalemax_sz \<noteq> cpumax_sz then Inl ConfigError
         else if scalemax_sz \<noteq> cpumin_sz then Inl ConfigError
         else Inr ())"

definition assert_SIGSTOP_gte_SIGCONT :: "config \<Rightarrow> error + unit" where
  "assert_SIGSTOP_gte_SIGCONT c =
     (if temp_SIGSTOP c < temp_SIGCONT c then Inl ConfigError else Inr ())"

definition assert_proc_stat_file_sizey :: "nat \<Rightarrow> error + unit" where
  "assert_proc_stat_file_sizey procstat_sz =
     (if procstat_sz = 0 then Inl InternalError else Inr ())"

definition load_config_lines :: "sys \<Rightarrow> string \<Rightarrow> config \<Rightarrow> error + config" where
  "load_config_lines sy config_path c =
     ebind (validate config_path) (\<lambda>_.
       if \<not> file_exists sy config_path then Inl InternalError
       else ebind (file_read convert_string sy config_path) (\<lambda>lines.
         Inr (c\<lparr>config_lines := lines\<rparr>)))"

definition get_own_pid :: "sys \<Rightarrow> config \<Rightarrow> error + config" where
  "get_own_pid sy c =
     ebind (file_read convert_string sy PROC_SELF_STAT) (\<lambda>lines.
       ebind (vec_at lines 0) (\<lambda>line.
         ebind (vec_at (split line CHR '' '') 0) (\<lambda>self_pid.
           ebind (convert_int self_pid) (\<lambda>p. Inr (c\<lparr>own_pid := p\<rparr>)))))"

text \<open>The loop of \<^verbatim>\<open>Config::indices_of_tag_\<close> from line \<open>i\<close> on.\<close>

fun indices_of_tag_loop :: "string list \<Rightarrow> string \<Rightarrow> nat \<Rightarrow> error + nat list" where
  "indices_of_tag_loop [] tag i = Inr []"
| "indices_of_tag_loop (line # rest) tag i =
     ebind (vec_at (split line CHR '' '') 0) (\<lambda>first.
       ebind (indices_of_tag_loop rest tag (Suc i)) (\<lambda>found.
         Inr (if first = tag then i # found else found)))"

definition indices_of_tag :: "config \<Rightarrow> string \<Rightarrow> error + nat list" where
  "indices_of_tag c tag = indices_of_tag_loop (config_lines c) tag 0"

text \<open>
  The part that the two overloads of \<^verbatim>\<open>Config::load_from_tag_\<close> share: the
  strings to the right of the tag, \<open>None\<close> where the default is to be used.  The messages
  that they write to \<^verbatim>\<open>std::clog\<close> are left out.
\<close>

definition tag_values :: "config \<Rightarrow> string \<Rightarrow> error + string list option" where
  "tag_values c tag =
     ebind (indices_of_tag c tag) (\<lambda>indices.
       if length indices = 0 then Inr None
       else if length indices > 1 then Inl ConfigError
       else ebind (vec_at indices 0) (\<lambda>index.
         ebind (vec_at (config_lines c) index) (\<lambda>line.
           let spl = split line CHR '' '' in
           ebind (subvect spl 1 (int (length spl) - 1)) (\<lambda>val_strs.
             if length val_strs < 1 then Inr None else Inr (Some val_strs)))))"

definition as_config_error :: "error + 'a \<Rightarrow> error + 'a" where
  "as_config_error r = (case r of Inl e \<Rightarrow> if e = TypeError then Inl ConfigError else Inl e
                                 | Inr v \<Rightarrow> Inr v)"

definition load_from_tag ::
  "(string \<Rightarrow> error + 'a) \<Rightarrow> config \<Rightarrow> string \<Rightarrow> 'a \<Rightarrow> error + 'a" where
  "load_from_tag conv c tag defval =
     ebind (tag_values c tag) (\<lambda>vs.
       case vs of
         None \<Rightarrow> Inr defval
       | Some val_strs \<Rightarrow>
           if length val_strs > 1 then Inl ConfigError
           else as_config_error (conv (hd val_strs)))"

definition load_from_tag_vector ::
  "(string \<Rightarrow> error + 'a) \<Rightarrow> config \<Rightarrow> string \<Rightarrow> 'a list \<Rightarrow> error + 'a list" where
  "load_from_tag_vector conv c tag defval =
     ebind (tag_values c tag) (\<lambda>vs.
       case vs of
         None \<Rightarrow> Inr defval
       | Some val_strs \<Rightarrow> as_config_error (emap conv val_strs))"


text \<open>
  \<^verbatim>\<open>Config::load_config_values_\<close>, one definition for each of its assignments, in
  the order of the source.  The assignment of \<^verbatim>\<open>whitelist_pid_\<close> is followed by
  \<^verbatim>\<open>whitelist_pid_.push_back(own_pid_)\<close>; the elements of
  \<^verbatim>\<open>whitelist_comm_\<close> are put in parentheses.
\<close>

definition load_log_file_path :: "config \<Rightarrow> error + config" where
  "load_log_file_path c =
     ebind (load_from_tag convert_string c ''log_file_path'' (log_file_path c)) (\<lambda>x. Inr (c\<lparr>log_file_path := x\<rparr>))"

definition load_whitelist_pid :: "config \<Rightarrow> error + config" where
  "load_whitelist_pid c =
     ebind (load_from_tag_vector convert_int c ''whitelist_pid'' (whitelist_pid c)) (\<lambda>x. Inr (c\<lparr>whitelist_pid := x @ [own_pid c]\<rparr>))"

definition load_whitelist_comm :: "config \<Rightarrow> error + config" where
  "load_whitelist_comm c =
     ebind (load_from_tag_vector convert_string c ''whitelist_comm'' (whitelist_comm c)) (\<lambda>x. Inr (c\<lparr>whitelist_comm := map (\<lambda>v. ''('' @ v @ '')'') x\<rparr>))"

definition load_whitelist_state :: "config \<Rightarrow> error + config" where
  "load_whitelist_state c =
     ebind (load_from_tag_vector convert_char c ''whitelist_state'' (whitelist_state c)) (\<lambda>x. Inr (c\<lparr>whitelist_state := x\<rparr>))"

definition load_whitelist_ppid :: "config \<Rightarrow> error + config" where
  "load_whitelist_ppid c =
     ebind (load_from_tag_vector convert_int c ''whitelist_ppid'' (whitelist_ppid c)) (\<lambda>x. Inr (c\<lparr>whitelist_ppid := x\<rparr>))"

definition load_whitelist_pgrp :: "config \<Rightarrow> error + config" where
  "load_whitelist_pgrp c =
     ebind (load_from_tag_vector convert_int c ''whitelist_pgrp'' (whitelist_pgrp c)) (\<lambda>x. Inr (c\<lparr>whitelist_pgrp := x\<rparr>))"

definition load_whitelist_session :: "config \<Rightarrow> error + config" where
  "load_whitelist_session c =
     ebind (load_from_tag_vector convert_int c ''whitelist_session'' (whitelist_session c)) (\<lambda>x. Inr (c\<lparr>whitelist_session := x\<rparr>))"

definition load_whitelist_tty_nr :: "config \<Rightarrow> error + config" where
  "load_whitelist_tty_nr c =
     ebind (load_from_tag_vector convert_int c ''whitelist_tty_nr'' (whitelist_tty_nr c)) (\<lambda>x. Inr (c\<lparr>whitelist_tty_nr := x\<rparr>))"

definition load_whitelist_tpgid :: "config \<Rightarrow> error + config" where
  "load_whitelist_tpgid c =
     ebind (load_from_tag_vector convert_int c ''whitelist_tpgid'' (whitelist_tpgid c)) (\<lambda>x. Inr (c\<lparr>whitelist_tpgid := x\<rparr>))"

definition load_whitelist_flags :: "config \<Rightarrow> error + config" where
  "load_whitelist_flags c =
     ebind (load_from_tag_vector convert_uint c ''whitelist_flags'' (whitelist_flags c)) (\<lambda>x. Inr (c\<lparr>whitelist_flags := x\<rparr>))"

definition load_whitelist_max_nice :: "config \<Rightarrow> error + config" where
  "load_whitelist_max_nice c =
     ebind (load_from_tag convert_long c ''whitelist_max_nice'' (whitelist_max_nice c)) (\<lambda>x. Inr (c\<lparr>whitelist_max_nice := x\<rparr>))"

definition load_matcher_thermal :: "config \<Rightarrow> error + config" where
  "load_matcher_thermal c =
     ebind (load_from_tag convert_string c ''matcher_thermal'' (matcher_thermal c)) (\<lambda>x. Inr (c\<lparr>matcher_thermal := x\<rparr>))"

definition load_matcher_scaling_max_freq :: "config \<Rightarrow> error + config" where
  "load_matcher_scaling_max_freq c =
     ebind (load_from_tag convert_string c ''matcher_scaling_max_freq'' (matcher_scaling_max_freq c)) (\<lambda>x. Inr (c\<lparr>matcher_scaling_max_freq := x\<rparr>))"

definition load_matcher_cpuinfo_max_freq :: "config \<Rightarrow> error + config" where
  "load_matcher_cpuinfo_max_freq c =
     ebind (load_from_tag convert_string c ''matcher_cpuinfo_max_freq'' (matcher_cpuinfo_max_freq c)) (\<lambda>x. Inr (c\<lparr>matcher_cpuinfo_max_freq := x\<rparr>))"

definition load_matcher_cpuinfo_min_freq :: "config \<Rightarrow> error + config" where
  "load_matcher_cpuinfo_min_freq c =
     ebind (load_from_tag convert_string c ''matcher_cpuinfo_min_freq'' (matcher_cpuinfo_min_freq c)) (\<lambda>x. Inr (c\<lparr>matcher_cpuinfo_min_freq := x\<rparr>))"

definition load_matcher_scaling_available_frequencies :: "config \<Rightarrow> error + config" where
  "load_matcher_scaling_available_frequencies c =
     ebind (load_from_tag convert_string c ''matcher_scaling_available_frequencies'' (matcher_scaling_available_frequencies c)) (\<lambda>x. Inr (c\<lparr>matcher_scaling_available_frequencies := x\<rparr>))"

definition load_use_throttle :: "config \<Rightarrow> error + config" where
  "load_use_throttle c =
     ebind (load_from_tag convert_bool c ''use_throttle'' (use_throttle c)) (\<lambda>x. Inr (c\<lparr>use_throttle := x\<rparr>))"

definition load_use_SIGSTOP :: "config \<Rightarrow> error + config" where
  "load_use_SIGSTOP c =
     ebind (load_from_tag convert_bool c ''use_SIGSTOP'' (use_SIGSTOP c)) (\<lambda>x. Inr (c\<lparr>use_SIGSTOP := x\<rparr>))"

definition load_use_scaling_available :: "config \<Rightarrow> error + config" where
  "load_use_scaling_available c =
     ebind (load_from_tag convert_bool c ''use_scaling_available'' (use_scaling_available c)) (\<lambda>x. Inr (c\<lparr>use_scaling_available := x\<rparr>))"

definition load_use_stepwise_SIGSTOP :: "config \<Rightarrow> error + config" where
  "load_use_stepwise_SIGSTOP c =
     ebind (load_from_tag convert_bool c ''use_stepwise_SIGSTOP'' (use_stepwise_SIGSTOP c)) (\<lambda>x. Inr (c\<lparr>use_stepwise_SIGSTOP := x\<rparr>))"

definition load_use_stepwise_SIGCONT :: "config \<Rightarrow> error + config" where
  "load_use_stepwise_SIGCONT c =
     ebind (load_from_tag convert_bool c ''use_stepwise_SIGCONT'' (use_stepwise_SIGCONT c)) (\<lambda>x. Inr (c\<lparr>use_stepwise_SIGCONT := x\<rparr>))"

definition load_temp_SIGSTOP :: "config \<Rightarrow> error + config" where
  "load_temp_SIGSTOP c =
     ebind (load_from_tag convert_u_long c ''temp_SIGSTOP'' (temp_SIGSTOP c)) (\<lambda>x. Inr (c\<lparr>temp_SIGSTOP := x\<rparr>))"

definition load_temp_SIGCONT :: "config \<Rightarrow> error + config" where
  "load_temp_SIGCONT c =
     ebind (load_from_tag convert_u_long c ''temp_SIGCONT'' (temp_SIGCONT c)) (\<lambda>x. Inr (c\<lparr>temp_SIGCONT := x\<rparr>))"

definition load_temp_throttle :: "config \<Rightarrow> error + config" where
  "load_temp_throttle c =
     ebind (load_from_tag convert_u_long c ''temp_throttle'' (temp_throttle c)) (\<lambda>x. Inr (c\<lparr>temp_throttle := x\<rparr>))"

definition load_temp_dethrottle :: "config \<Rightarrow> error + config" where
  "load_temp_dethrottle c =
     ebind (load_from_tag convert_u_long c ''temp_dethrottle'' (temp_dethrottle c)) (\<lambda>x. Inr (c\<lparr>temp_dethrottle := x\<rparr>))"

definition load_min_sleep :: "config \<Rightarrow> error + config" where
  "load_min_sleep c =
     ebind (load_from_tag convert_uint c ''min_sleep'' (min_sleep c)) (\<lambda>x. Inr (c\<lparr>min_sleep := x\<rparr>))"

fun run_steps :: "(config \<Rightarrow> error + config) list \<Rightarrow> config \<Rightarrow> error + config" where
  "run_steps [] c = Inr c"
| "run_steps (f # fs) c = ebind (f c) (run_steps fs)"

definition load_config_values :: "config \<Rightarrow> error + config" where
  "load_config_values =
     run_steps
       [load_log_file_path,
        load_whitelist_pid,
        load_whitelist_comm,
        load_whitelist_state,
        load_whitelist_ppid,
        load_whitelist_pgrp,
        load_whitelist_session,
        load_whitelist_tty_nr,
        load_whitelist_tpgid,
        load_whitelist_flags,
        load_whitelist_max_nice,
        load_matcher_thermal,
        load_matcher_scaling_max_freq,
        load_matcher_cpuinfo_max_freq,
        load_matcher_cpuinfo_min_freq,
        load_matcher_scaling_available_frequencies,
        load_use_throttle,
        load_use_SIGSTOP,
        load_use_scaling_available,
        load_use_stepwise_SIGSTOP,
        load_use_stepwise_SIGCONT,
        load_temp_SIGSTOP,
        load_temp_SIGCONT,
        load_temp_throttle,
        load_temp_dethrottle,
        load_min_sleep]"

text \<open>
  \<^verbatim>\<open>Config::set_and_assert_config_\<close>.  \<open>ULONG_MAX\<close> is
  \<^verbatim>\<open>std::numeric_limits<u_long>().max()\<close>.  The warning written to
  \<^verbatim>\<open>std::cerr\<close> when the ladder files are not found is left out.
\<close>

definition ULONG_MAX :: u_long where
  "ULONG_MAX = - 1"

definition try_scaling_files :: "sys \<Rightarrow> config \<Rightarrow> error + config \<times> string list" where
  "try_scaling_files sy c =
     (if use_scaling_available c then
        (case file_collection sy (matcher_scaling_available_frequencies c) of
           Inl e \<Rightarrow> if e = ArgumentError then Inr (c\<lparr>use_scaling_available := False\<rparr>, [])
                    else Inl e
         | Inr test_scaling_files \<Rightarrow> Inr (c, test_scaling_files))
      else Inr (c, []))"

definition load_scaling_available ::
  "sys \<Rightarrow> config \<Rightarrow> string list \<Rightarrow> nat \<Rightarrow> error + config" where
  "load_scaling_available sy c0 test_scaling_files scalemax_sz =
     (let c1 = c0\<lparr>scaling_available_frequencies_files := test_scaling_files\<rparr> in
      ebind (collection_read convert_string sy test_scaling_files) (\<lambda>scalemax_lines.
        ebind (emap (\<lambda>v. emap convert_u_long (split v CHR '' '')) scalemax_lines) (\<lambda>freq_vects.
          let c2 = c1\<lparr>scaling_available_frequencies :=
                         scaling_available_frequencies c1 @ freq_vects\<rparr> in
          ebind (assert_scaling_available_frequencies_sizey c2) (\<lambda>_.
            ebind (assert_scaling_max_size_eq_scaling_available c2 scalemax_sz) (\<lambda>_.
              Inr c2)))))"

definition load_cpuinfo_min_max :: "sys \<Rightarrow> config \<Rightarrow> nat \<Rightarrow> error + config" where
  "load_cpuinfo_min_max sy c0 scalemax_sz =
     ebind (file_collection sy (matcher_cpuinfo_max_freq c0)) (\<lambda>max_files.
       ebind (file_collection sy (matcher_cpuinfo_min_freq c0)) (\<lambda>min_files.
         ebind (collection_read convert_u_long sy max_files) (\<lambda>max_freqs.
           ebind (collection_read convert_u_long sy min_files) (\<lambda>min_freqs.
             let c1 = c0\<lparr>cpuinfo_max_freq_files := max_files,
                            cpuinfo_min_freq_files := min_files,
                            cpuinfo_max_freqs := max_freqs,
                            cpuinfo_min_freqs := min_freqs\<rparr> in
             ebind (assert_scaling_max_size_eq_cpu_max_and_min c1 scalemax_sz) (\<lambda>_.
               Inr c1)))))"

definition set_throttle :: "sys \<Rightarrow> config \<Rightarrow> error + config" where
  "set_throttle sy c0 =
     (if use_throttle c0 then
        ebind (assert_throttle_gte_dethrottle c0) (\<lambda>_.
          ebind (file_collection sy (matcher_scaling_max_freq c0)) (\<lambda>files.
            let c1 = c0\<lparr>scaling_max_freq_files := files\<rparr> in
            ebind (collection_read convert_u_long sy files) (\<lambda>cur.
              let scalemax_sz = length cur in
              ebind (assert_scale_max_freq_files_sizey scalemax_sz) (\<lambda>_.
                ebind (try_scaling_files sy c1) (\<lambda>(c2, test_scaling_files).
                  if use_scaling_available c2
                  then load_scaling_available sy c2 test_scaling_files scalemax_sz
                  else load_cpuinfo_min_max sy c2 scalemax_sz)))))
      else Inr (c0\<lparr>temp_throttle := ULONG_MAX, temp_dethrottle := 0\<rparr>))"

definition set_SIGSTOP :: "sys \<Rightarrow> config \<Rightarrow> error + config" where
  "set_SIGSTOP sy c0 =
     (if use_SIGSTOP c0 then
        ebind (assert_SIGSTOP_gte_SIGCONT c0) (\<lambda>_.
          ebind (validate PROC_STAT) (\<lambda>_.
            let c1 = c0\<lparr>proc_stat_file := PROC_STAT\<rparr> in
            ebind (file_read convert_string sy PROC_STAT) (\<lambda>lines.
              ebind (assert_proc_stat_file_sizey (length lines)) (\<lambda>_. Inr c1))))
      else Inr (c0\<lparr>temp_SIGSTOP := ULONG_MAX, temp_SIGCONT := 0\<rparr>))"

definition set_and_assert_config :: "sys \<Rightarrow> config \<Rightarrow> error + config" where
  "set_and_assert_config sy c0 =
     ebind (assert_any_mode c0) (\<lambda>_.
       ebind (file_collection sy (matcher_thermal c0)) (\<lambda>files.
         ebind (set_throttle sy (c0\<lparr>thermal_files := files\<rparr>)) (\<lambda>c1.
           set_SIGSTOP sy c1)))"

text \<open>
  The constructor \<^verbatim>\<open>Config::Config(config_path)\<close>.  It reads each file once, so
  one view \<open>sy\<close> of the system serves all its reads.
\<close>

definition Config :: "sys \<Rightarrow> string \<Rightarrow> error + config" where
  "Config sy config_path =
     ebind (load_config_lines sy config_path default_config) (\<lambda>c1.
       ebind (get_own_pid sy c1) (\<lambda>c2.
         ebind (load_config_values c2) (\<lambda>c3.
           set_and_assert_config sy c3)))"

text \<open>The accessors of \<^verbatim>\<open>Config\<close> that assert a mode.\<close>

definition assert_SIGSTOP_mode :: "config \<Rightarrow> error + unit" where
  "assert_SIGSTOP_mode c = (if \<not> use_SIGSTOP c then Inl InternalError else Inr ())"

definition assert_throttle_mode :: "config \<Rightarrow> error + unit" where
  "assert_throttle_mode c = (if \<not> use_throttle c then Inl InternalError else Inr ())"

definition in_SIGSTOP_mode :: "config \<Rightarrow> (config \<Rightarrow> 'a) \<Rightarrow> error + 'a" where
  "in_SIGSTOP_mode c field = ebind (assert_SIGSTOP_mode c) (\<lambda>_. Inr (field c))"

definition in_throttle_mode :: "config \<Rightarrow> (config \<Rightarrow> 'a) \<Rightarrow> error + 'a" where
  "in_throttle_mode c field = ebind (assert_throttle_mode c) (\<lambda>_. Inr (field c))"


section \<open>daemon/pid.h, daemon/pid.cc\<close>

record pid_rec =
  pid :: int
  pid_str :: string
  is_a_process :: bool
  is_whitelisted :: bool
  has_received_first_update :: bool
  is_ready :: bool
  is_self_stopped :: bool
  comm :: string
  state :: char
  ppid :: int
  pgrp :: int
  session :: int
  tty_nr :: int
  tpgid :: int
  flags :: int
  utime :: u_long
  stime :: u_long
  cutime :: u_long
  cstime :: u_long
  nice :: int
  pid_time_prev :: u_long
  cpu_time_prev :: u_long
  pid_cpu_pct :: cfloat

definition assert_is_ready :: "pid_rec \<Rightarrow> error + unit" where
  "assert_is_ready p = (if \<not> is_ready p then Inl InternalError else Inr ())"

definition stat_path :: "pid_rec \<Rightarrow> string" where
  "stat_path p = ''/proc/'' @ pid_str p @ ''/stat''"

text \<open>The \<^verbatim>\<open>try\<close> block of \<^verbatim>\<open>Pid::read_stat_\<close>.\<close>

definition read_stat_try :: "sys \<Rightarrow> pid_rec \<Rightarrow> error + pid_rec" where
  "read_stat_try sy p =
     ebind (file_read convert_string sy (stat_path p)) (\<lambda>stat_lines.
       if length stat_lines > 1 then Inl InternalError
       else ebind (vec_at stat_lines 0) (\<lambda>line.
         let stat_data = split line CHR '' '' in
         ebind (vec_at stat_data 1) (\<lambda>comm'.
         ebind (ebind (vec_at stat_data 2) convert_char) (\<lambda>state'.
         ebind (ebind (vec_at stat_data 3) convert_int) (\<lambda>ppid'.
         ebind (ebind (vec_at stat_data 4) convert_int) (\<lambda>pgrp'.
         ebind (ebind (vec_at stat_data 5) convert_int) (\<lambda>session'.
         ebind (ebind (vec_at stat_data 6) convert_int) (\<lambda>tty_nr'.
         ebind (ebind (vec_at stat_data 7) convert_int) (\<lambda>tpgid'.
         ebind (ebind (vec_at stat_data 8) convert_uint) (\<lambda>flags'.
         ebind (ebind (vec_at stat_data 13) convert_u_long) (\<lambda>utime'.
         ebind (ebind (vec_at stat_data 14) convert_u_long) (\<lambda>stime'.
         ebind (ebind (vec_at stat_data 15) convert_u_long) (\<lambda>cutime'.
         ebind (ebind (vec_at stat_data 16) convert_u_long) (\<lambda>cstime'.
         ebind (ebind (vec_at stat_data 18) convert_long) (\<lambda>nice'.
           Inr (p\<lparr>comm := comm', state := state', ppid := ppid', pgrp := pgrp',
                   session := session', tty_nr := tty_nr', tpgid := tpgid',
                   flags := flags', utime := utime', stime := stime',
                   cutime := cutime', cstime := cstime', nice := nice',
                   is_a_process := True\<rparr>))))))))))))))))"

text \<open>\<^verbatim>\<open>Pid::read_stat_\<close>: the handler catches the \<^verbatim>\<open>IOError\<close> and rethrows
  every other error.\<close>

definition read_stat :: "sys \<Rightarrow> pid_rec \<Rightarrow> error + pid_rec" where
  "read_stat sy p =
     (case read_stat_try sy p of
        Inl e \<Rightarrow> if e = IOError then Inr (p\<lparr>is_a_process := False\<rparr>) else Inl e
      | Inr p' \<Rightarrow> Inr p')"

definition contains :: "'a list \<Rightarrow> 'a \<Rightarrow> bool" where
  "contains target v = (v \<in> set target)"

text \<open>
  The disjunction of \<^verbatim>\<open>Pid::check_whitelist_\<close>, from left to right; every
  accessor of the configuration asserts the SIGSTOP mode first.
\<close>

definition whitelisted :: "config \<Rightarrow> pid_rec \<Rightarrow> error + bool" where
  "whitelisted cfg p =
     ebind (in_SIGSTOP_mode cfg whitelist_max_nice) (\<lambda>max_nice.
       if nice p < max_nice then Inr True else
     ebind (in_SIGSTOP_mode cfg whitelist_pid) (\<lambda>l.
       if contains l (pid p) then Inr True else
     ebind (in_SIGSTOP_mode cfg whitelist_state) (\<lambda>l.
       if contains l (state p) then Inr True else
     ebind (in_SIGSTOP_mode cfg whitelist_ppid) (\<lambda>l.
       if contains l (ppid p) then Inr True else
     ebind (in_SIGSTOP_mode cfg whitelist_pgrp) (\<lambda>l.
       if contains l (pgrp p) then Inr True else
     ebind (in_SIGSTOP_mode cfg whitelist_session) (\<lambda>l.
       if contains l (session p) then Inr True else
     ebind (in_SIGSTOP_mode cfg whitelist_tty_nr) (\<lambda>l.
       if contains l (tty_nr p) then Inr True else
     ebind (in_SIGSTOP_mode cfg whitelist_tpgid) (\<lambda>l.
       if contains l (tpgid p) then Inr True else
     ebind (in_SIGSTOP_mode cfg whitelist_flags) (\<lambda>l.
       if contains l (flags p) then Inr True else
     ebind (in_SIGSTOP_mode cfg whitelist_comm) (\<lambda>l.
       pattern_vect_contains l (comm p)))))))))))"

definition check_whitelist :: "config \<Rightarrow> pid_rec \<Rightarrow> error + pid_rec" where
  "check_whitelist cfg p = ebind (whitelisted cfg p) (\<lambda>b. Inr (p\<lparr>is_whitelisted := b\<rparr>))"

text \<open>
  The constructor \<^verbatim>\<open>Pid::Pid(cfg, pid)\<close>.  It initialises the five flags, the
  pid and its string; \<open>mem\<close> stands for what the other members hold before they are
  first assigned.
\<close>

definition Pid :: "config \<Rightarrow> sys \<Rightarrow> pid_rec \<Rightarrow> int \<Rightarrow> error + pid_rec" where
  "Pid cfg sy mem pid' =
     (let p = mem\<lparr>pid := pid', pid_str := to_string pid', is_a_process := False,
                  is_whitelisted := False, has_received_first_update := False,
                  is_ready := False, is_self_stopped := False\<rparr> in
      ebind (validate (stat_path p)) (\<lambda>_.
        ebind (read_stat sy p) (\<lambda>p1. check_whitelist cfg p1)))"

text \<open>\<^verbatim>\<open>Pid::update(cpu_time)\<close>.\<close>

definition update :: "config \<Rightarrow> sys \<Rightarrow> pid_rec \<Rightarrow> u_long \<Rightarrow> error + pid_rec" where
  "update cfg sy p cpu_time =
     ebind (read_stat sy p) (\<lambda>p1.
       ebind (check_whitelist cfg p1) (\<lambda>p2.
         if \<not> is_whitelisted p2 then
           (if \<not> has_received_first_update p2 then
              Inr (p2\<lparr>pid_time_prev := utime p2 + stime p2 + cutime p2 + cstime p2,
                      cpu_time_prev := cpu_time,
                      has_received_first_update := True\<rparr>)
            else
              let pid_time = utime p2 + stime p2 + cutime p2 + cstime p2;
                  pid_time_diff = f32_of_u_long (pid_time - pid_time_prev p2);
                  cpu_time_diff = f32_of_u_long (cpu_time - cpu_time_prev p2)
              in Inr (p2\<lparr>pid_cpu_pct := f32_div pid_time_diff cpu_time_diff,
                         pid_time_prev := pid_time,
                         cpu_time_prev := cpu_time,
                         is_ready := True\<rparr>))
         else
           Inr (p2\<lparr>pid_time_prev := 0, cpu_time_prev := 0, pid_cpu_pct := Fin 0,
                   has_received_first_update := False\<rparr>)))"

text \<open>The accessor \<^verbatim>\<open>Pid::pid_cpu_pct()\<close>.\<close>

definition get_pid_cpu_pct :: "pid_rec \<Rightarrow> error + cfloat" where
  "get_pid_cpu_pct p = ebind (assert_is_ready p) (\<lambda>_. Inr (pid_cpu_pct p))"

section \<open>daemon/monitor.h, daemon/monitor.cc\<close>

text \<open>
  The vectors \<^verbatim>\<open>pids_\<close> and \<^verbatim>\<open>self_stopped_pids_\<close> hold shared pointers
  to the same \<^verbatim>\<open>Pid\<close> objects: \<open>heap\<close> maps an address to the object there, and
  \<open>next_addr\<close> is the address of the next object to be made.  \<open>signals\<close> lists the
  calls \<^verbatim>\<open>kill(pid, sig)\<close>, \<open>log_lines\<close> the lines appended to the log file (without
  the time stamp), \<open>writes\<close> the values written to frequency files.
\<close>

record monitor =
  heap :: "nat \<Rightarrow> pid_rec"
  next_addr :: nat
  pids :: "nat list"
  self_stopped_pids :: "nat list"
  signals :: "(int \<times> int) list"
  log_lines :: "string list"
  writes :: "(string \<times> u_long) list"

definition PROC_FILES_MATCHER :: string where
  "PROC_FILES_MATCHER = ''/proc/*''"

text \<open>
  \<^verbatim>\<open>std::accumulate(cpu_times.begin(), cpu_times.end(), 0)\<close>: the initial value
  \<open>0\<close> is an \<^verbatim>\<open>int\<close>, so every partial sum is cut to 32 bits, and the result is
  sign-extended to \<^verbatim>\<open>u_long\<close>.
\<close>

definition accumulate_int :: "u_long list \<Rightarrow> u_long" where
  "accumulate_int xs =
     scast (fold (\<lambda>v (acc :: 32 word). ucast ((scast acc :: u_long) + v)) xs 0)"

definition sum_cur_cpu_time :: "config \<Rightarrow> sys \<Rightarrow> error + u_long" where
  "sum_cur_cpu_time cfg sy =
     ebind (in_SIGSTOP_mode cfg proc_stat_file) (\<lambda>path.
       ebind (file_read convert_string sy path) (\<lambda>lines.
         ebind (vec_at lines 0) (\<lambda>line.
           let proc_stat_cpu = split line CHR '' '' in
           ebind (subvect proc_stat_cpu 1 4) (\<lambda>sub.
             ebind (emap convert_u_long sub) (\<lambda>cpu_times.
               Inr (accumulate_int cpu_times))))))"

text \<open>
  The operations below take \<open>w\<close>, the system as each of their reads and writes sees it:
  the \<open>t\<close>-th one sees \<open>w t\<close>.  \<open>mem a\<close> is what the memory of a new object at
  address \<open>a\<close> holds.

  The first loop of \<^verbatim>\<open>Monitor::update_pids_\<close>.
\<close>

fun update_loop ::
  "config \<Rightarrow> (nat \<Rightarrow> sys) \<Rightarrow> nat list \<Rightarrow> nat \<Rightarrow> (nat \<Rightarrow> pid_rec) \<Rightarrow> error + (nat \<Rightarrow> pid_rec)" where
  "update_loop cfg w [] t h = Inr h"
| "update_loop cfg w (v # vs) t h =
     ebind (sum_cur_cpu_time cfg (w t)) (\<lambda>cpu_time.
       ebind (update cfg (w (Suc t)) (h v) cpu_time) (\<lambda>p.
         update_loop cfg w vs (t + 2) (h(v := p))))"

definition all_digits :: "string \<Rightarrow> bool" where
  "all_digits v = list_all (\<lambda>c. c \<in> set ''0123456789'') v"

text \<open>The last loop of \<^verbatim>\<open>Monitor::update_pids_\<close>.\<close>

fun add_loop ::
  "config \<Rightarrow> (nat \<Rightarrow> sys) \<Rightarrow> (nat \<Rightarrow> pid_rec) \<Rightarrow> int list \<Rightarrow> nat \<Rightarrow> monitor \<Rightarrow> error + monitor \<times> nat" where
  "add_loop cfg w mem [] t m = Inr (m, t)"
| "add_loop cfg w mem (test_pid # rest) t m =
     (if \<not> list_ex (\<lambda>v. pid (heap m v) = test_pid) (pids m) then
        ebind (Pid cfg (w t) (mem (next_addr m)) test_pid) (\<lambda>p.
          add_loop cfg w mem rest (Suc t)
            (m\<lparr>heap := (heap m)(next_addr m := p),
                pids := pids m @ [next_addr m],
                next_addr := Suc (next_addr m)\<rparr>))
      else add_loop cfg w mem rest t m)"

text \<open>\<^verbatim>\<open>Monitor::update_pids_\<close>; the number it returns with the monitor is the
  count of its reads.\<close>

definition update_pids ::
  "config \<Rightarrow> (nat \<Rightarrow> sys) \<Rightarrow> (nat \<Rightarrow> pid_rec) \<Rightarrow> monitor \<Rightarrow> error + monitor \<times> nat" where
  "update_pids cfg w mem m =
     ebind (update_loop cfg w (pids m) 0 (heap m)) (\<lambda>h.
       let t = 2 * length (pids m);
           m1 = m\<lparr>heap := h,
                  pids := filter (\<lambda>v. is_a_process (h v)) (pids m),
                  self_stopped_pids :=
                    filter (\<lambda>v. is_a_process (h v) \<and> is_self_stopped (h v))
                      (self_stopped_pids m)\<rparr>
       in ebind (ls (w t) PROC_FILES_MATCHER False) (\<lambda>files.
            let number_fnames = filter all_digits files in
            ebind (emap convert_int number_fnames) (\<lambda>pid_nums.
              add_loop cfg w mem pid_nums (Suc t) m1)))"

definition find_SIGSTOP_available_pids :: "monitor \<Rightarrow> nat list" where
  "find_SIGSTOP_available_pids m =
     filter (\<lambda>v. is_a_process (heap m v) \<and> is_ready (heap m v) \<and>
                 \<not> is_whitelisted (heap m v) \<and> \<not> is_self_stopped (heap m v))
       (pids m)"


text \<open>
  \<^verbatim>\<open>std::min_element\<close> and \<^verbatim>\<open>std::max_element\<close> with a comparison
  \<open>comp\<close>, on a range that is not empty: the loop after the first element.  The first
  keeps \<open>smallest\<close> unless \<open>comp(x, smallest)\<close>, the second keeps \<open>largest\<close> unless
  \<open>comp(largest, x)\<close>.
\<close>

fun min_element_loop :: "('a \<Rightarrow> 'a \<Rightarrow> error + bool) \<Rightarrow> 'a \<Rightarrow> 'a list \<Rightarrow> error + 'a" where
  "min_element_loop cmp smallest [] = Inr smallest"
| "min_element_loop cmp smallest (x # xs) =
     ebind (cmp x smallest) (\<lambda>b. min_element_loop cmp (if b then x else smallest) xs)"

fun max_element_loop :: "('a \<Rightarrow> 'a \<Rightarrow> error + bool) \<Rightarrow> 'a \<Rightarrow> 'a list \<Rightarrow> error + 'a" where
  "max_element_loop cmp largest [] = Inr largest"
| "max_element_loop cmp largest (x # xs) =
     ebind (cmp largest x) (\<lambda>b. max_element_loop cmp (if b then x else largest) xs)"

text \<open>\<^verbatim>\<open>*std::max_element(v.begin(), v.end())\<close>; on an empty vector it reads the
  end of the vector.\<close>

definition max_element_deref :: "('a \<Rightarrow> 'a \<Rightarrow> error + bool) \<Rightarrow> 'a list \<Rightarrow> error + 'a" where
  "max_element_deref cmp v =
     (case v of [] \<Rightarrow> Inl OutOfRange | x # xs \<Rightarrow> max_element_loop cmp x xs)"

text \<open>\<^verbatim>\<open>Logger::log\<close> appends a line to the log file; \<^verbatim>\<open>File::append\<close> throws
  an \<^verbatim>\<open>IOError\<close> when the file cannot be opened for writing.\<close>

definition Logger_log :: "config \<Rightarrow> sys \<Rightarrow> string \<Rightarrow> monitor \<Rightarrow> error + monitor" where
  "Logger_log cfg sy line m =
     (if writable sy (log_file_path cfg) then Inr (m\<lparr>log_lines := log_lines m @ [line]\<rparr>)
      else Inl IOError)"

text \<open>\<^verbatim>\<open>Pid::send_SIGSTOP\<close> and \<^verbatim>\<open>Pid::send_SIGCONT\<close> on the object at
  address \<open>a\<close>.\<close>

definition send_SIGSTOP :: "nat \<Rightarrow> monitor \<Rightarrow> monitor" where
  "send_SIGSTOP a m =
     m\<lparr>signals := signals m @ [(pid (heap m a), 19)],
       heap := (heap m)(a := (heap m a)\<lparr>is_self_stopped := True\<rparr>)\<rparr>"

definition send_SIGCONT :: "nat \<Rightarrow> monitor \<Rightarrow> monitor" where
  "send_SIGCONT a m =
     m\<lparr>signals := signals m @ [(pid (heap m a), 18)],
       heap := (heap m)(a := (heap m a)\<lparr>is_self_stopped := False\<rparr>)\<rparr>"

text \<open>The comparisons that \<^verbatim>\<open>send_next_SIGCONT_\<close> and
  \<^verbatim>\<open>send_next_SIGSTOP_\<close> pass on: \<^verbatim>\<open>a->pid_cpu_pct() < b->pid_cpu_pct()\<close> and
  \<^verbatim>\<open>a->pid_cpu_pct() > b->pid_cpu_pct()\<close>.\<close>

definition pct_less :: "monitor \<Rightarrow> nat \<Rightarrow> nat \<Rightarrow> error + bool" where
  "pct_less m a b =
     ebind (get_pid_cpu_pct (heap m a)) (\<lambda>x.
       ebind (get_pid_cpu_pct (heap m b)) (\<lambda>y. Inr (f32_less x y)))"

definition pct_greater :: "monitor \<Rightarrow> nat \<Rightarrow> nat \<Rightarrow> error + bool" where
  "pct_greater m a b =
     ebind (get_pid_cpu_pct (heap m a)) (\<lambda>x.
       ebind (get_pid_cpu_pct (heap m b)) (\<lambda>y. Inr (f32_less y x)))"

definition send_next_SIGCONT :: "config \<Rightarrow> sys \<Rightarrow> monitor \<Rightarrow> error + monitor" where
  "send_next_SIGCONT cfg sy m =
     (case self_stopped_pids m of
        [] \<Rightarrow> Inr m
      | x # xs \<Rightarrow>
          ebind (min_element_loop (pct_less m) x xs) (\<lambda>pid_ptr.
            ebind (Logger_log cfg sy (''Sending SIGCONT to pid '' @ pid_str (heap m pid_ptr) @ '' '' @
                               comm (heap m pid_ptr)) m) (\<lambda>m1.
              Inr (send_SIGCONT pid_ptr m1))))"

definition send_next_SIGSTOP :: "config \<Rightarrow> sys \<Rightarrow> nat list \<Rightarrow> monitor \<Rightarrow> error + monitor" where
  "send_next_SIGSTOP cfg sy available_pids m =
     (case available_pids of
        [] \<Rightarrow> Inr m
      | x # xs \<Rightarrow>
          ebind (max_element_loop (pct_greater m) x xs) (\<lambda>pid_ptr.
            ebind (Logger_log cfg sy (''Sending SIGSTOP to pid '' @ pid_str (heap m pid_ptr) @ '' '' @
                               comm (heap m pid_ptr)) m) (\<lambda>m1.
              let m2 = send_SIGSTOP pid_ptr m1 in
              Inr (m2\<lparr>self_stopped_pids := self_stopped_pids m2 @ [pid_ptr]\<rparr>))))"

definition send_all_SIGCONTs :: "monitor \<Rightarrow> monitor" where
  "send_all_SIGCONTs m = fold send_SIGCONT (self_stopped_pids m) m"

definition send_all_SIGSTOPs :: "nat list \<Rightarrow> monitor \<Rightarrow> monitor" where
  "send_all_SIGSTOPs available_pids m =
     fold (\<lambda>v m1. let m2 = send_SIGSTOP v m1
                   in m2\<lparr>self_stopped_pids := self_stopped_pids m2 @ [v]\<rparr>)
       available_pids m"

definition exec_SIGCONT ::
  "config \<Rightarrow> (nat \<Rightarrow> sys) \<Rightarrow> (nat \<Rightarrow> pid_rec) \<Rightarrow> monitor \<Rightarrow> error + monitor" where
  "exec_SIGCONT cfg w mem m =
     (if length (self_stopped_pids m) > 0 then
        ebind (update_pids cfg w mem m) (\<lambda>(m1, t).
          ebind (in_SIGSTOP_mode cfg use_stepwise_SIGSTOP) (\<lambda>stepwise.
            if stepwise then send_next_SIGCONT cfg (w t) m1
            else Inr (send_all_SIGCONTs m1)))
      else Inr m)"

definition exec_SIGSTOP ::
  "config \<Rightarrow> (nat \<Rightarrow> sys) \<Rightarrow> (nat \<Rightarrow> pid_rec) \<Rightarrow> monitor \<Rightarrow> error + monitor" where
  "exec_SIGSTOP cfg w mem m =
     ebind (update_pids cfg w mem m) (\<lambda>(m1, t).
       let available_pids = find_SIGSTOP_available_pids m1 in
       if length available_pids > 0 then
         ebind (in_SIGSTOP_mode cfg use_stepwise_SIGSTOP) (\<lambda>stepwise.
           if stepwise then send_next_SIGSTOP cfg (w t) available_pids m1
           else Inr (send_all_SIGSTOPs available_pids m1))
       else Inr m1)"

subsection \<open>Frequencies\<close>

definition u_long_less :: "u_long \<Rightarrow> u_long \<Rightarrow> error + bool" where
  "u_long_less a b = Inr (a < b)"

text \<open>The last loop of \<^verbatim>\<open>Monitor::is_below_max_speed_\<close>, on vectors of one size.\<close>

fun any_below :: "u_long list \<Rightarrow> u_long list \<Rightarrow> bool" where
  "any_below (c # cs) (x # xs) = (if c < x then True else any_below cs xs)"
| "any_below _ _ = False"

text \<open>The vector \<^verbatim>\<open>max_speeds\<close> that \<^verbatim>\<open>Monitor::is_below_max_speed_\<close> builds
  first: the largest value of every ladder, or the hardware maxima.\<close>

definition max_speeds :: "config \<Rightarrow> error + u_long list" where
  "max_speeds cfg =
     ebind (in_throttle_mode cfg use_scaling_available) (\<lambda>ladder.
       if ladder then
         ebind (in_throttle_mode cfg scaling_available_frequencies) (\<lambda>avail.
           emap (max_element_deref u_long_less) avail)
       else in_throttle_mode cfg cpuinfo_max_freqs)"

definition is_below_max_speed :: "config \<Rightarrow> u_long list \<Rightarrow> error + bool" where
  "is_below_max_speed cfg cur_speeds =
     ebind (max_speeds cfg) (\<lambda>maxs.
       if length cur_speeds \<noteq> length maxs then Inl InternalError
       else Inr (any_below cur_speeds maxs))"

text \<open>\<^verbatim>\<open>FileCollection::overwrite(file_index, line)\<close> on the files \<open>files\<close>.\<close>

definition overwrite :: "sys \<Rightarrow> string list \<Rightarrow> nat \<Rightarrow> u_long \<Rightarrow> monitor \<Rightarrow> error + monitor" where
  "overwrite sy files file_index line m =
     (if file_index < length files then
        (if writable sy (files ! file_index)
         then Inr (m\<lparr>writes := writes m @ [(files ! file_index, line)]\<rparr>)
         else Inl IOError)
      else Inl ArgumentError)"

text \<open>The inner loop of \<^verbatim>\<open>Monitor::dethrottle_next_higher_\<close>.\<close>

definition next_higher :: "u_long list \<Rightarrow> u_long \<Rightarrow> u_long" where
  "next_higher avail_speeds speed =
     fold (\<lambda>v next. if v < next \<and> v > speed then v else next) avail_speeds ULONG_MAX"

text \<open>The outer loop of \<^verbatim>\<open>Monitor::dethrottle_next_higher_\<close> from index \<open>i\<close> on;
  the \<open>t\<close>-th write sees \<open>w t\<close>.\<close>

fun dethrottle_next_higher_loop ::
  "config \<Rightarrow> (nat \<Rightarrow> sys) \<Rightarrow> u_long list list \<Rightarrow> string list \<Rightarrow> u_long list \<Rightarrow> nat \<Rightarrow> nat \<Rightarrow> monitor
     \<Rightarrow> error + monitor" where
  "dethrottle_next_higher_loop cfg w scaling_avail files [] i t m = Inr m"
| "dethrottle_next_higher_loop cfg w scaling_avail files (speed # rest) i t m =
     ebind (vec_at scaling_avail i) (\<lambda>avail_speeds.
       let next = next_higher avail_speeds speed in
       if next \<noteq> ULONG_MAX then
         ebind (in_throttle_mode cfg scaling_max_freq_files) (\<lambda>_.
           ebind (overwrite (w t) files i next m) (\<lambda>m1.
             dethrottle_next_higher_loop cfg w scaling_avail files rest (Suc i) (Suc t) m1))
       else dethrottle_next_higher_loop cfg w scaling_avail files rest (Suc i) t m)"

definition dethrottle_next_higher ::
  "config \<Rightarrow> (nat \<Rightarrow> sys) \<Rightarrow> nat \<Rightarrow> u_long list \<Rightarrow> monitor \<Rightarrow> error + monitor" where
  "dethrottle_next_higher cfg w t cur_speeds m =
     ebind (in_throttle_mode cfg scaling_available_frequencies) (\<lambda>scaling_avail.
       dethrottle_next_higher_loop cfg w scaling_avail (scaling_max_freq_files cfg)
         cur_speeds 0 t m)"

text \<open>The loop of \<^verbatim>\<open>Monitor::dethrottle_highest_\<close> from index \<open>i\<close> on, \<open>n\<close> files
  left.\<close>

fun dethrottle_highest_loop ::
  "(nat \<Rightarrow> sys) \<Rightarrow> u_long list \<Rightarrow> string list \<Rightarrow> nat \<Rightarrow> nat \<Rightarrow> nat \<Rightarrow> monitor \<Rightarrow> error + monitor" where
  "dethrottle_highest_loop w max_freqs files i 0 t m = Inr m"
| "dethrottle_highest_loop w max_freqs files i (Suc n) t m =
     ebind (vec_at max_freqs i) (\<lambda>freq.
       ebind (overwrite (w t) files i freq m) (\<lambda>m1.
         dethrottle_highest_loop w max_freqs files (Suc i) n (Suc t) m1))"

definition dethrottle_highest :: "config \<Rightarrow> (nat \<Rightarrow> sys) \<Rightarrow> nat \<Rightarrow> monitor \<Rightarrow> error + monitor" where
  "dethrottle_highest cfg w t m =
     ebind (in_throttle_mode cfg cpuinfo_max_freqs) (\<lambda>max_freqs.
       ebind (in_throttle_mode cfg scaling_max_freq_files) (\<lambda>curfreq_files.
         dethrottle_highest_loop w max_freqs curfreq_files 0 (length curfreq_files) t m))"

definition exec_dethrottle :: "config \<Rightarrow> (nat \<Rightarrow> sys) \<Rightarrow> monitor \<Rightarrow> error + monitor" where
  "exec_dethrottle cfg w m =
     ebind (in_throttle_mode cfg scaling_max_freq_files) (\<lambda>files.
       ebind (collection_read convert_u_long (w 0) files) (\<lambda>cur_speeds.
         ebind (is_below_max_speed cfg cur_speeds) (\<lambda>below.
           if below then
             ebind (Logger_log cfg (w 1) ''Dethrottling CPU.'' m) (\<lambda>m1.
               ebind (in_throttle_mode cfg use_scaling_available) (\<lambda>ladder.
                 if ladder then dethrottle_next_higher cfg w 2 cur_speeds m1
                 else dethrottle_highest cfg w 2 m1))
           else Inr m)))"

subsection \<open>The states of the census\<close>

text \<open>
  The monitor starts with both vectors empty; \<open>reachable cfg m\<close> holds of the states
  that census refreshes and the two signal operations lead to from there, whatever the
  system shows them.
\<close>

inductive reachable :: "config \<Rightarrow> monitor \<Rightarrow> bool" for cfg :: config where
  start: "pids m = [] \<Longrightarrow> self_stopped_pids m = [] \<Longrightarrow> reachable cfg m"
| refresh: "reachable cfg m \<Longrightarrow> update_pids cfg w mem m = Inr (m', t) \<Longrightarrow> reachable cfg m'"
| stop: "reachable cfg m \<Longrightarrow> exec_SIGSTOP cfg w mem m = Inr m' \<Longrightarrow> reachable cfg m'"
| continue: "reachable cfg m \<Longrightarrow> exec_SIGCONT cfg w mem m = Inr m' \<Longrightarrow> reachable cfg m'"


section \<open>The matching rule as the specification words it\<close>

text \<open>
  The fragments of the pattern occur in the test string in order, one after the end of
  the other; the first one at position 0 when \<open>at_start\<close> holds, the last one up to the
  end of the string when \<open>at_end\<close> holds.
\<close>

fun in_order :: "string list \<Rightarrow> string \<Rightarrow> nat \<Rightarrow> bool \<Rightarrow> bool \<Rightarrow> bool" where
  "in_order [] test pos at_start at_end = True"
| "in_order (f # fs) test pos at_start at_end =
     list_ex (\<lambda>i. i + length f \<le> length test \<and> take (length f) (drop i test) = f \<and>
                  (if fs = [] then (if at_end then i + length f = length test else True)
                   else in_order fs test (i + length f) False at_end))
       (if at_start then [pos] else [pos ..< Suc (length test)])"

definition spec_matches :: "string \<Rightarrow> string \<Rightarrow> bool" where
  "spec_matches pattern test =
     (if pattern = [] then test = []
      else in_order (split pattern star) test 0 (hd pattern \<noteq> star) (last pattern \<noteq> star))"

section \<open>Example systems\<close>

text \<open>
  A system with the processes \<open>procs\<close> (the name of the directory under
  \<^verbatim>\<open>/proc\<close> and the line of its \<^verbatim>\<open>stat\<close> file) and the first line
  \<open>cpu_line\<close> of \<^verbatim>\<open>/proc/stat\<close>; \<^verbatim>\<open>glob\<close> marks directories with a slash.
\<close>

definition proc_view :: "(string \<times> string) list \<Rightarrow> string \<Rightarrow> sys" where
  "proc_view procs cpu_line = \<lparr>
     glob_paths = (\<lambda>pattern. if pattern = ''/proc/*''
                     then map (\<lambda>(n, _). ''/proc/'' @ n @ ''/'') procs @ [''/proc/stat'']
                     else []),
     file_exists = (\<lambda>path. path = ''/proc/stat'' \<or>
                     path \<in> set (map (\<lambda>(n, _). ''/proc/'' @ n @ ''/stat'') procs)),
     file_lines = (\<lambda>path. if path = ''/proc/stat'' then Some [cpu_line]
                     else map_option (\<lambda>l. [l])
                            (map_of (map (\<lambda>(n, l). (''/proc/'' @ n @ ''/stat'', l)) procs) path)),
     writable = (\<lambda>_. True) \<rparr>"

text \<open>The line of the \<^verbatim>\<open>stat\<close> file of process \<open>n\<close> in state \<open>st\<close> with
  \<^verbatim>\<open>utime\<close> \<open>ut\<close>; the other three times are 0, the nice value is 0.\<close>

definition stat_line :: "string \<Rightarrow> string \<Rightarrow> string \<Rightarrow> string" where
  "stat_line n st ut =
     n @ '' (job) '' @ st @ '' 1 '' @ n @ '' '' @ n @ '' 0 -1 0 0 0 0 0 '' @ ut @ '' 0 0 0 20 0''"

definition blank :: pid_rec where
  "blank = \<lparr>pid = 0, pid_str = [], is_a_process = False, is_whitelisted = False,
     has_received_first_update = False, is_ready = False, is_self_stopped = False,
     comm = [], state = CHR ''?'', ppid = 0, pgrp = 0, session = 0, tty_nr = 0, tpgid = 0,
     flags = 0, utime = 0, stime = 0, cutime = 0, cstime = 0, nice = 0,
     pid_time_prev = 0, cpu_time_prev = 0, pid_cpu_pct = Fin 0\<rparr>"

text \<open>The monitor as its constructor leaves it.\<close>

definition monitor0 :: monitor where
  "monitor0 = \<lparr>heap = (\<lambda>_. blank), next_addr = 0, pids = [], self_stopped_pids = [],
      signals = [], log_lines = [], writes = []\<rparr>"

definition result :: "error + monitor \<Rightarrow> monitor" where
  "result r = (case r of Inl _ \<Rightarrow> monitor0 | Inr m \<Rightarrow> m)"

text \<open>
  A configuration in stop/continue mode only, with the two stepwise switches at their
  defaults (stop stepwise, continue not stepwise), the daemon's pid 1 and the state
  \<open>T\<close> (stopped) on the whitelists.
\<close>

definition cfg_signal :: config where
  "cfg_signal = default_config\<lparr>own_pid := 1, use_throttle := False, use_SIGSTOP := True,
      temp_throttle := ULONG_MAX, temp_dethrottle := 0,
      proc_stat_file := PROC_STAT, whitelist_pid := [1], whitelist_comm := [''(systemd)''],
      whitelist_state := [CHR ''T'']\<rparr>"

text \<open>
  The path that \<^verbatim>\<open>main\<close> passes to the constructor of the configuration, and a
  system with the configuration file \<open>conf_lines\<close>, the line \<open>self_stat\<close> in
  \<^verbatim>\<open>/proc/self/stat\<close>, one thermal zone and one CPU.
\<close>

definition CONFIG_PATH :: string where
  "CONFIG_PATH = ''/usr/local/etc/conf.d/templimiter.conf''"

definition boot_view :: "string list \<Rightarrow> string \<Rightarrow> sys" where
  "boot_view conf_lines self_stat = \<lparr>
     glob_paths = (\<lambda>pattern.
        if pattern = ''/sys/devices/virtual/thermal/thermal_zone*/temp''
        then [''/sys/devices/virtual/thermal/thermal_zone0/temp'']
        else if pattern = ''/sys/devices/system/cpu/cpu*/cpufreq/scaling_max_freq''
        then [''/sys/devices/system/cpu/cpu0/cpufreq/scaling_max_freq'']
        else if pattern = ''/sys/devices/system/cpu/cpu*/cpufreq/cpuinfo_max_freq''
        then [''/sys/devices/system/cpu/cpu0/cpufreq/cpuinfo_max_freq'']
        else if pattern = ''/sys/devices/system/cpu/cpu*/cpufreq/cpuinfo_min_freq''
        then [''/sys/devices/system/cpu/cpu0/cpufreq/cpuinfo_min_freq'']
        else []),
     file_exists = (\<lambda>path. path \<in> set
        [CONFIG_PATH, ''/proc/self/stat'', ''/proc/stat'',
         ''/sys/devices/virtual/thermal/thermal_zone0/temp'',
         ''/sys/devices/system/cpu/cpu0/cpufreq/scaling_max_freq'',
         ''/sys/devices/system/cpu/cpu0/cpufreq/cpuinfo_max_freq'',
         ''/sys/devices/system/cpu/cpu0/cpufreq/cpuinfo_min_freq'']),
     file_lines = map_of
        [(CONFIG_PATH, conf_lines), (''/proc/self/stat'', [self_stat]),
         (''/proc/stat'', [''cpu 100 0 0 100 0 0'']),
         (''/sys/devices/virtual/thermal/thermal_zone0/temp'', [''45000'']),
         (''/sys/devices/system/cpu/cpu0/cpufreq/scaling_max_freq'', [''3000000'']),
         (''/sys/devices/system/cpu/cpu0/cpufreq/cpuinfo_max_freq'', [''3000000'']),
         (''/sys/devices/system/cpu/cpu0/cpufreq/cpuinfo_min_freq'', [''800000''])],
     writable = (\<lambda>_. True) \<rparr>"

definition self_stat7 :: string where
  "self_stat7 = ''7 (templimiter) R 1 7 7 0 -1''"

definition accepted :: "error + config \<Rightarrow> config" where
  "accepted r = (case r of Inl _ \<Rightarrow> default_config | Inr c \<Rightarrow> c)"

text \<open>What the constructor of the configuration has loaded when it calls
  \<^verbatim>\<open>set_and_assert_config_\<close>.\<close>

definition load_config :: "sys \<Rightarrow> string \<Rightarrow> error + config" where
  "load_config sy config_path =
     ebind (load_config_lines sy config_path default_config) (\<lambda>c1.
       ebind (get_own_pid sy c1) (\<lambda>c2. load_config_values c2))"

text \<open>A step of the load that leaves the two fields of the PID whitelist alone.\<close>

definition keeps_pid_fields :: "config \<Rightarrow> config \<Rightarrow> bool" where
  "keeps_pid_fields c c' = (own_pid c' = own_pid c \<and> whitelist_pid c' = whitelist_pid c)"

text \<open>What \<^verbatim>\<open>Pid::read_stat_\<close> and \<^verbatim>\<open>Pid::check_whitelist_\<close> never assign.\<close>

definition same_bookkeeping :: "pid_rec \<Rightarrow> pid_rec \<Rightarrow> bool" where
  "same_bookkeeping p p' =
     (pid p' = pid p \<and> pid_str p' = pid_str p \<and>
      has_received_first_update p' = has_received_first_update p \<and>
      is_ready p' = is_ready p \<and> is_self_stopped p' = is_self_stopped p \<and>
      pid_time_prev p' = pid_time_prev p \<and> cpu_time_prev p' = cpu_time_prev p \<and>
      pid_cpu_pct p' = pid_cpu_pct p)"

definition rec_of :: "error + pid_rec \<Rightarrow> pid_rec" where
  "rec_of r = (case r of Inl _ \<Rightarrow> blank | Inr p \<Rightarrow> p)"

text \<open>
  The record of process 100 after its first sample, taken when its times added up to 10
  and the CPU times to 200; and systems in which its \<^verbatim>\<open>stat\<close> file shows a
  \<^verbatim>\<open>utime\<close> of 10, is gone, or holds a line that cannot be converted.
\<close>

definition pid_sampled :: pid_rec where
  "pid_sampled = blank\<lparr>pid := 100, pid_str := ''100'', is_a_process := True,
     has_received_first_update := True, comm := ''(job)'', state := CHR ''R'',
     utime := 10, pid_time_prev := 10, cpu_time_prev := 200\<rparr>"

definition view_same :: sys where
  "view_same = proc_view [(''100'', stat_line ''100'' ''R'' ''10'')] ''cpu 100 0 0 100 0 0''"

definition view_gone :: sys where
  "view_gone = proc_view [] ''cpu 150 0 0 150 0 0''"

definition view_garbled :: sys where
  "view_garbled = proc_view [(''100'', ''100 (job) R x'')] ''cpu 150 0 0 150 0 0''"

text \<open>
  The configuration that the constructor builds from an empty configuration file on the
  system \<open>boot_view\<close> (throttling only, between the hardware minimum and maximum), that
  system with the ceiling at the hardware maximum, and the same system with the ceiling
  at the hardware minimum.
\<close>

definition cfg_throttle :: config where
  "cfg_throttle = accepted (Config (boot_view [] self_stat7) CONFIG_PATH)"

definition view_at_max :: sys where
  "view_at_max = boot_view [] self_stat7"

definition view_throttled :: sys where
  "view_throttled = view_at_max\<lparr>file_lines :=
     (file_lines view_at_max)
       (''/sys/devices/system/cpu/cpu0/cpufreq/scaling_max_freq'' \<mapsto> [''800000''])\<rparr>"

text \<open>
  Four ticks over the stop threshold on a system whose only process, 100, first shows a
  \<^verbatim>\<open>utime\<close> of 10 at CPU time 200, then 14 at CPU time 208, and then is in state
  \<open>T\<close>, stopped: the census finds it, samples it once, samples it again and stops
  it, and refreshes it once more.
\<close>

definition view_later :: sys where
  "view_later = proc_view [(''100'', stat_line ''100'' ''R'' ''14'')] ''cpu 104 0 0 104 0 0''"

definition view_stopped :: sys where
  "view_stopped = proc_view [(''100'', stat_line ''100'' ''T'' ''14'')] ''cpu 108 0 0 108 0 0''"

definition monitor1 :: monitor where
  "monitor1 = result (exec_SIGSTOP cfg_signal (\<lambda>_. view_same) (\<lambda>_. blank) monitor0)"

definition monitor2 :: monitor where
  "monitor2 = result (exec_SIGSTOP cfg_signal (\<lambda>_. view_same) (\<lambda>_. blank) monitor1)"

definition monitor3 :: monitor where
  "monitor3 = result (exec_SIGSTOP cfg_signal (\<lambda>_. view_later) (\<lambda>_. blank) monitor2)"

definition monitor4 :: monitor where
  "monitor4 = result (exec_SIGSTOP cfg_signal (\<lambda>_. view_stopped) (\<lambda>_. blank) monitor3)"

text \<open>
  The census of three processes after their first sample (own times 10, CPU time 200),
  and the system at the next tick: CPU time 300 and own times 20, 65 and 40, which makes
  the CPU shares 0.10, 0.55 and 0.30.
\<close>

definition sampled :: "int \<Rightarrow> string \<Rightarrow> pid_rec" where
  "sampled n s = pid_sampled\<lparr>pid := n, pid_str := s\<rparr>"

definition three_sampled :: monitor where
  "three_sampled = monitor0\<lparr>
     heap := (\<lambda>_. blank)(0 := sampled 100 ''100'', 1 := sampled 200 ''200'',
                           2 := sampled 300 ''300''),
     next_addr := 3, pids := [0, 1, 2]\<rparr>"

definition view_three :: sys where
  "view_three = proc_view
     [(''100'', stat_line ''100'' ''R'' ''20''), (''200'', stat_line ''200'' ''R'' ''65''),
      (''300'', stat_line ''300'' ''R'' ''40'')] ''cpu 150 0 0 150 0 0''"

text \<open>
  A configuration like \<open>cfg_signal\<close> with no state on the whitelists; the census of two
  processes that the daemon has stopped; and the system at the next tick, where both
  are in state \<open>T\<close> and their times have not moved.
\<close>

definition cfg_plain :: config where
  "cfg_plain = cfg_signal\<lparr>whitelist_state := []\<rparr>"

definition stopped :: "int \<Rightarrow> string \<Rightarrow> pid_rec" where
  "stopped n s = pid_sampled\<lparr>pid := n, pid_str := s, is_ready := True,
     is_self_stopped := True, pid_cpu_pct := Fin (1 / 2)\<rparr>"

definition two_stopped :: monitor where
  "two_stopped = monitor0\<lparr>
     heap := (\<lambda>_. blank)(0 := stopped 100 ''100'', 1 := stopped 200 ''200''),
     next_addr := 2, pids := [0, 1], self_stopped_pids := [0, 1],
     signals := [(100, 19), (200, 19)]\<rparr>"

definition view_two :: sys where
  "view_two = proc_view
     [(''100'', stat_line ''100'' ''T'' ''10''), (''200'', stat_line ''200'' ''T'' ''10'')]
     ''cpu 150 0 0 150 0 0''"

text \<open>
  The system \<open>boot_view\<close> with a published ladder for its CPU: its file of available
  frequencies holds the line \<open>ladder\<close>, its ceiling file the line \<open>cur_line\<close>, and the
  configuration file asks for discrete mode.  Then three such systems and the
  configurations that the constructor builds on them: a ladder of three frequencies with
  the ceiling on the lowest and on the highest one, and a ladder whose largest value is
  the largest \<^verbatim>\<open>u_long\<close>.
\<close>

definition ladder_view :: "string \<Rightarrow> string \<Rightarrow> sys" where
  "ladder_view ladder cur_line =
     (let sy = boot_view [''use_scaling_available true''] self_stat7 in
      sy\<lparr>glob_paths := (\<lambda>pattern.
            if pattern = ''/sys/devices/system/cpu/cpu*/cpufreq/scaling_available_frequencies''
            then [''/sys/devices/system/cpu/cpu0/cpufreq/scaling_available_frequencies'']
            else glob_paths sy pattern),
         file_exists := (\<lambda>path.
            path = ''/sys/devices/system/cpu/cpu0/cpufreq/scaling_available_frequencies'' \<or>
            file_exists sy path),
         file_lines := (file_lines sy)
            (''/sys/devices/system/cpu/cpu0/cpufreq/scaling_available_frequencies'' \<mapsto> [ladder],
             ''/sys/devices/system/cpu/cpu0/cpufreq/scaling_max_freq'' \<mapsto> [cur_line])\<rparr>)"

definition view_ladder :: sys where
  "view_ladder = ladder_view ''1600000 3000000 800000'' ''800000''"

definition cfg_ladder :: config where
  "cfg_ladder = accepted (Config view_ladder CONFIG_PATH)"

definition view_ladder_max :: sys where
  "view_ladder_max = ladder_view ''1600000 3000000 800000'' ''3000000''"

definition view_sentinel :: sys where
  "view_sentinel = ladder_view ''800000 18446744073709551615'' ''800000''"

definition cfg_sentinel :: config where
  "cfg_sentinel = accepted (Config view_sentinel CONFIG_PATH)"

text \<open>What a failed read of the stat file leaves of a record: who it is, whether the
  daemon has stopped it, and the fields that the stat file fills.\<close>

definition keeps_stat_fields :: "pid_rec \<Rightarrow> pid_rec \<Rightarrow> bool" where
  "keeps_stat_fields p p' =
     (pid p' = pid p \<and> pid_str p' = pid_str p \<and> is_self_stopped p' = is_self_stopped p \<and>
      comm p' = comm p \<and> state p' = state p \<and> ppid p' = ppid p \<and> pgrp p' = pgrp p \<and>
      session p' = session p \<and> tty_nr p' = tty_nr p \<and> tpgid p' = tpgid p \<and>
      flags p' = flags p \<and> utime p' = utime p \<and> stime p' = stime p \<and>
      cutime p' = cutime p \<and> cstime p' = cstime p \<and> nice p' = nice p)"

text \<open>The monitor that a refresh of the census returns, and the count of its reads.\<close>

definition refreshed :: "error + monitor \<times> nat \<Rightarrow> monitor" where
  "refreshed r = (case r of Inl _ \<Rightarrow> monitor0 | Inr (m, _) \<Rightarrow> m)"

definition reads :: "error + monitor \<times> nat \<Rightarrow> nat" where
  "reads r = (case r of Inl _ \<Rightarrow> 0 | Inr (_, n) \<Rightarrow> n)"

section \<open>Basic facts\<close>

lemma ebind_Inr_iff: "ebind m f = Inr y \<longleftrightarrow> (\<exists>x. m = Inr x \<and> f x = Inr y)"
  by (cases m) (simp_all add: ebind_def)

lemma ebind_Inl_iff: "ebind m f = Inl e \<longleftrightarrow> m = Inl e \<or> (\<exists>x. m = Inr x \<and> f x = Inl e)"
  by (cases m) (simp_all add: ebind_def)

lemma ebind_simps [simp]: "ebind (Inr x) f = f x" "ebind (Inl e) f = Inl e"
  by (simp_all add: ebind_def)

lemma not_isl_obtain: "\<not> isl r \<Longrightarrow> \<exists>x. r = Inr x"
  by (cases r) auto

section \<open>The pattern matcher\<close>

text \<open>
  \<^verbatim>\<open>matches_pattern\<close> reads \<^verbatim>\<open>patt_spl[0]\<close> and the last element of
  \<^verbatim>\<open>patt_spl\<close> without a check.  Both reads are guarded by a test that the pattern
  does not begin (or end) with a star, and \<^verbatim>\<open>split\<close> returns no fragment only for
  a pattern of stars, so \<open>matches_pattern\<close> always returns a truth value.
\<close>

lemma split_loop_not_Nil:
  "chunks \<noteq> [] \<or> cur \<noteq> [] \<Longrightarrow> split_loop ch s chunks cur w \<noteq> []"
  by (induction ch s chunks cur w rule: split_loop.induct) auto

lemma split_loop_Nil:
  "split_loop ch s chunks cur w = [] \<Longrightarrow> ch \<noteq> backslash \<Longrightarrow> set s \<subseteq> {ch}"
proof (induction ch s chunks cur w rule: split_loop.induct)
  case (1 ch chunks cur w)
  then show ?case by simp
next
  case (2 ch c chunks cur w)
  then show ?case by (auto split: if_splits)
next
  case (3 ch c d rest chunks cur w)
  then show ?case
    using split_loop_not_Nil by (auto split: if_splits)
qed

lemma split_not_Nil:
  assumes "c \<in> set pattern" "c \<noteq> star"
  shows "split pattern star \<noteq> []"
proof
  assume "split pattern star = []"
  then have "set pattern \<subseteq> {star}"
    unfolding split_def by (rule split_loop_Nil) (simp add: star_def backslash_def)
  with assms show False by auto
qed

lemma subvect_prefix: "i \<le> length xs \<Longrightarrow> subvect xs 0 (int i) = Inr (take i xs)"
  by (auto simp: subvect_def)

lemma found_loop_total:
  "i + n = length patt_spl \<Longrightarrow> \<not> isl (found_loop patt_spl test i n)"
proof (induction n arbitrary: i)
  case 0
  then show ?case by simp
next
  case (Suc n)
  then have "i < length patt_spl" by simp
  then show ?case
    using Suc.IH [of "Suc i"] Suc.prems
    by (simp add: subvect_prefix vec_at_def Let_def)
qed

lemma matches_pattern_total: "\<not> isl (matches_pattern pattern test)"
proof (cases "star \<in> set pattern")
  case False
  then show ?thesis by (simp add: matches_pattern_def)
next
  case True
  then have ne: "pattern \<noteq> []" by auto
  let ?spl = "split pattern star"
  obtain b where fl: "found_loop ?spl test 0 (length ?spl) = Inr b"
    using found_loop_total [of 0 "length ?spl" ?spl test] not_isl_obtain by fastforce
  have first: "hd pattern \<noteq> star \<Longrightarrow> ?spl \<noteq> []"
    using split_not_Nil [of "hd pattern" pattern] ne by simp
  have lst: "last pattern \<noteq> star \<Longrightarrow> ?spl \<noteq> []"
    using split_not_Nil [of "last pattern" pattern] ne by simp
  show ?thesis
    using True fl first lst
    by (simp add: matches_pattern_def Let_def vec_at_def)
qed

lemma pattern_vect_contains_total: "\<not> isl (pattern_vect_contains ps v)"
proof (induction ps)
  case Nil
  then show ?case by simp
next
  case (Cons p ps)
  obtain b where "matches_pattern p v = Inr b"
    using matches_pattern_total [of p v] not_isl_obtain by blast
  with Cons show ?case by simp
qed

text \<open>
  C7.  The rule of the specification for the whitelist patterns: the fragments between
  the unescaped stars occur in order in the test string, the first at position 0 unless
  the pattern begins with a star, the last at the end unless the pattern ends with a
  star.  By that rule the pattern \<open>*a\<close> matches the string \<open>aa\<close>, since the fragment
  \<open>a\<close> ends the string.  \<open>matches_pattern\<close> returns false there: it compares the
  position of the first occurrence of the last fragment, not of the last one, with the
  position that ends the string.
\<close>

theorem C7_last_fragment_first_occurrence:
  "matches_pattern ''*a'' ''aa'' = Inr False \<and> spec_matches ''*a'' ''aa''"
  by code_simp

section \<open>The configuration\<close>

lemma run_steps_keeps:
  "(\<And>f c c'. f \<in> set fs \<Longrightarrow> f c = Inr c' \<Longrightarrow> keeps_pid_fields c c') \<Longrightarrow>
   run_steps fs c = Inr c' \<Longrightarrow> keeps_pid_fields c c'"
proof (induction fs arbitrary: c)
  case Nil
  then show ?case by (simp add: keeps_pid_fields_def)
next
  case (Cons f fs)
  from Cons.prems(2) obtain c1 where f: "f c = Inr c1" and r: "run_steps fs c1 = Inr c'"
    by (auto simp: ebind_Inr_iff)
  have "keeps_pid_fields c c1" using Cons.prems(1) [of f c c1] f by simp
  moreover have "keeps_pid_fields c1 c'"
  proof (rule Cons.IH [OF _ r])
    fix g d d'
    assume "g \<in> set fs" "g d = Inr d'"
    then show "keeps_pid_fields d d'" using Cons.prems(1) [of g d d'] by simp
  qed
  ultimately show ?case by (simp add: keeps_pid_fields_def)
qed

lemma load_steps_keep:
  "f \<in> set [load_whitelist_comm, load_whitelist_state, load_whitelist_ppid, load_whitelist_pgrp,
      load_whitelist_session, load_whitelist_tty_nr, load_whitelist_tpgid, load_whitelist_flags,
      load_whitelist_max_nice, load_matcher_thermal, load_matcher_scaling_max_freq,
      load_matcher_cpuinfo_max_freq, load_matcher_cpuinfo_min_freq,
      load_matcher_scaling_available_frequencies, load_use_throttle, load_use_SIGSTOP,
      load_use_scaling_available, load_use_stepwise_SIGSTOP, load_use_stepwise_SIGCONT,
      load_temp_SIGSTOP, load_temp_SIGCONT, load_temp_throttle, load_temp_dethrottle,
      load_min_sleep] \<Longrightarrow> f c = Inr c' \<Longrightarrow> keeps_pid_fields c c'"
  by (auto simp: keeps_pid_fields_def ebind_Inr_iff load_whitelist_comm_def load_whitelist_state_def load_whitelist_ppid_def load_whitelist_pgrp_def load_whitelist_session_def load_whitelist_tty_nr_def load_whitelist_tpgid_def load_whitelist_flags_def load_whitelist_max_nice_def load_matcher_thermal_def load_matcher_scaling_max_freq_def load_matcher_cpuinfo_max_freq_def load_matcher_cpuinfo_min_freq_def load_matcher_scaling_available_frequencies_def load_use_throttle_def load_use_SIGSTOP_def load_use_scaling_available_def load_use_stepwise_SIGSTOP_def load_use_stepwise_SIGCONT_def load_temp_SIGSTOP_def load_temp_SIGCONT_def load_temp_throttle_def load_temp_dethrottle_def load_min_sleep_def)

lemma load_config_values_whitelist_pid:
  assumes "load_config_values c = Inr c'"
  shows "own_pid c' = own_pid c \<and> (\<exists>xs. whitelist_pid c' = xs @ [own_pid c])"
proof -
  from assms obtain c1 c2 where
    1: "load_log_file_path c = Inr c1" and 2: "load_whitelist_pid c1 = Inr c2"
    and 3: "run_steps [load_whitelist_comm, load_whitelist_state, load_whitelist_ppid, load_whitelist_pgrp,
      load_whitelist_session, load_whitelist_tty_nr, load_whitelist_tpgid, load_whitelist_flags,
      load_whitelist_max_nice, load_matcher_thermal, load_matcher_scaling_max_freq,
      load_matcher_cpuinfo_max_freq, load_matcher_cpuinfo_min_freq,
      load_matcher_scaling_available_frequencies, load_use_throttle, load_use_SIGSTOP,
      load_use_scaling_available, load_use_stepwise_SIGSTOP, load_use_stepwise_SIGCONT,
      load_temp_SIGSTOP, load_temp_SIGCONT, load_temp_throttle, load_temp_dethrottle,
      load_min_sleep] c2 = Inr c'"
    unfolding load_config_values_def by (auto simp: ebind_Inr_iff)
  from 1 have a: "own_pid c1 = own_pid c"
    by (auto simp: load_log_file_path_def ebind_Inr_iff)
  from 2 obtain xs where b: "own_pid c2 = own_pid c1" "whitelist_pid c2 = xs @ [own_pid c1]"
    by (auto simp: load_whitelist_pid_def ebind_Inr_iff)
  have "keeps_pid_fields c2 c'"
    using run_steps_keeps [OF load_steps_keep 3] by simp
  with a b show ?thesis by (simp add: keeps_pid_fields_def)
qed


lemma try_scaling_files_fields:
  "try_scaling_files sy c = Inr (c', fs) \<Longrightarrow>
     c' = c \<or> c' = c\<lparr>use_scaling_available := False\<rparr>"
  by (auto simp: try_scaling_files_def split: if_splits sum.splits)

lemma load_scaling_available_fields:
  "load_scaling_available sy c fs n = Inr c' \<Longrightarrow>
     \<exists>a b. c' = c\<lparr>scaling_available_frequencies_files := a, scaling_available_frequencies := b\<rparr>"
  by (auto simp: load_scaling_available_def Let_def ebind_Inr_iff)

lemma load_cpuinfo_min_max_fields:
  "load_cpuinfo_min_max sy c n = Inr c' \<Longrightarrow>
     \<exists>a b x y. c' = c\<lparr>cpuinfo_max_freq_files := a, cpuinfo_min_freq_files := b,
                         cpuinfo_max_freqs := x, cpuinfo_min_freqs := y\<rparr>"
  by (auto simp: load_cpuinfo_min_max_def Let_def ebind_Inr_iff)

lemma set_throttle_fields:
  assumes "set_throttle sy c = Inr c'"
  shows "own_pid c' = own_pid c \<and> whitelist_pid c' = whitelist_pid c \<and>
         use_SIGSTOP c' = use_SIGSTOP c \<and> temp_SIGSTOP c' = temp_SIGSTOP c \<and>
         temp_SIGCONT c' = temp_SIGCONT c \<and> temp_dethrottle c' \<le> temp_throttle c'"
proof (cases "use_throttle c")
  case False
  with assms show ?thesis by (auto simp: set_throttle_def)
next
  case True
  with assms show ?thesis
    by (auto simp: set_throttle_def Let_def ebind_Inr_iff assert_throttle_gte_dethrottle_def
             split: if_splits
             dest!: try_scaling_files_fields load_scaling_available_fields
                    load_cpuinfo_min_max_fields)
qed

lemma set_SIGSTOP_fields:
  assumes "set_SIGSTOP sy c = Inr c'"
  shows "own_pid c' = own_pid c \<and> whitelist_pid c' = whitelist_pid c \<and>
         temp_throttle c' = temp_throttle c \<and> temp_dethrottle c' = temp_dethrottle c \<and>
         temp_SIGCONT c' \<le> temp_SIGSTOP c'"
  using assms
  by (auto simp: set_SIGSTOP_def Let_def ebind_Inr_iff assert_SIGSTOP_gte_SIGCONT_def
           split: if_splits)

lemma set_and_assert_config_fields:
  assumes "set_and_assert_config sy c = Inr c'"
  shows "own_pid c' = own_pid c \<and> whitelist_pid c' = whitelist_pid c \<and>
         temp_dethrottle c' \<le> temp_throttle c' \<and> temp_SIGCONT c' \<le> temp_SIGSTOP c'"
proof -
  from assms obtain files c1 where
    1: "set_throttle sy (c\<lparr>thermal_files := files\<rparr>) = Inr c1" and 2: "set_SIGSTOP sy c1 = Inr c'"
    by (auto simp: set_and_assert_config_def ebind_Inr_iff)
  from set_throttle_fields [OF 1] set_SIGSTOP_fields [OF 2] show ?thesis by simp
qed

lemma Config_steps:
  "Config sy path = Inr c \<Longrightarrow>
     \<exists>c1 c2 c3. load_config_lines sy path default_config = Inr c1 \<and> get_own_pid sy c1 = Inr c2 \<and>
       load_config_values c2 = Inr c3 \<and> set_and_assert_config sy c3 = Inr c"
  by (auto simp: Config_def ebind_Inr_iff)

lemma throttle_pair_rejected:
  assumes "use_throttle c" "temp_throttle c < temp_dethrottle c"
  shows "isl (set_and_assert_config sy c)"
    and "file_collection sy (matcher_thermal c) = Inr fs \<Longrightarrow>
           set_and_assert_config sy c = Inl ConfigError"
  using assms
  by (auto simp: set_and_assert_config_def assert_any_mode_def set_throttle_def
        assert_throttle_gte_dethrottle_def ebind_def split: sum.splits)

lemma SIGSTOP_pair_rejected:
  assumes "use_SIGSTOP c" "temp_SIGSTOP c < temp_SIGCONT c"
  shows "isl (set_and_assert_config sy c)"
    and "file_collection sy (matcher_thermal c) = Inr fs \<Longrightarrow>
         set_throttle sy (c\<lparr>thermal_files := fs\<rparr>) = Inr c1 \<Longrightarrow>
           set_and_assert_config sy c = Inl ConfigError"
proof -
  have *: "set_SIGSTOP sy c1 = Inl ConfigError"
    if "set_throttle sy (c\<lparr>thermal_files := fs\<rparr>) = Inr c1" for fs c1
    using set_throttle_fields [OF that] assms
    by (simp add: set_SIGSTOP_def assert_SIGSTOP_gte_SIGCONT_def)
  show "isl (set_and_assert_config sy c)"
    using * by (auto simp: set_and_assert_config_def ebind_def split: sum.splits)
  show "file_collection sy (matcher_thermal c) = Inr fs \<Longrightarrow>
         set_throttle sy (c\<lparr>thermal_files := fs\<rparr>) = Inr c1 \<Longrightarrow>
           set_and_assert_config sy c = Inl ConfigError"
    using * assms by (auto simp: set_and_assert_config_def assert_any_mode_def)
qed

lemma Config_load_config:
  "Config sy path = ebind (load_config sy path) (set_and_assert_config sy)"
  by (simp add: Config_def load_config_def ebind_def split: sum.splits)

lemma thermal_files_error:
  assumes "use_throttle c \<or> use_SIGSTOP c" "file_collection sy (matcher_thermal c) = Inl e"
  shows "set_and_assert_config sy c = Inl e"
  using assms by (auto simp: set_and_assert_config_def assert_any_mode_def)

lemma set_throttle_error:
  assumes "use_throttle c \<or> use_SIGSTOP c" "file_collection sy (matcher_thermal c) = Inr fs"
    and "set_throttle sy (c\<lparr>thermal_files := fs\<rparr>) = Inl e"
  shows "set_and_assert_config sy c = Inl e"
  using assms by (auto simp: set_and_assert_config_def assert_any_mode_def)

lemma accepted_Inr: "\<not> isl r \<Longrightarrow> r = Inr (accepted r)"
  by (cases r) (simp_all add: accepted_def)

text \<open>
  C9, as the specification has it: the daemon's own process ID is the first element of
  the PID whitelist.  With the line \<open>whitelist_pid 5\<close> in the configuration file and
  the own pid 7 the configuration is accepted and the whitelist is \<open>[5, 7]\<close>: its
  first element is 5.
\<close>

theorem C9_own_pid_not_first:
  "map_sum id whitelist_pid (Config (boot_view [''whitelist_pid 5''] self_stat7) CONFIG_PATH)
     = Inr [5, 7] \<and>
   map_sum id own_pid (Config (boot_view [''whitelist_pid 5''] self_stat7) CONFIG_PATH)
     = Inr 7"
  by code_simp

text \<open>
  C9, amended: for every configuration accepted at load, the daemon's own process ID
  (read from \<^verbatim>\<open>/proc/self/stat\<close>) is appended to the PID whitelist: it is the last
  element of \<open>whitelist_pid\<close>, after the PIDs of the configuration file, and so always a
  member of it.
\<close>

theorem C9_own_pid_appended:
  assumes "Config sy path = Inr c"
  shows "(\<exists>c1 c2. get_own_pid sy c1 = Inr c2 \<and> own_pid c = own_pid c2) \<and>
         (\<exists>xs. whitelist_pid c = xs @ [own_pid c]) \<and>
         last (whitelist_pid c) = own_pid c \<and> own_pid c \<in> set (whitelist_pid c)"
proof -
  from Config_steps [OF assms] obtain c1 c2 c3 where
    own: "get_own_pid sy c1 = Inr c2" and
    load: "load_config_values c2 = Inr c3" and
    set: "set_and_assert_config sy c3 = Inr c"
    by blast
  from load_config_values_whitelist_pid [OF load] obtain xs where
    "own_pid c3 = own_pid c2" "whitelist_pid c3 = xs @ [own_pid c2]"
    by blast
  with set_and_assert_config_fields [OF set] own show ?thesis
    by auto
qed

theorem C9_own_pid_appended_witness:
  "Config (boot_view [''whitelist_pid 5''] self_stat7) CONFIG_PATH =
     Inr (accepted (Config (boot_view [''whitelist_pid 5''] self_stat7) CONFIG_PATH)) \<and>
   last (whitelist_pid (accepted (Config (boot_view [''whitelist_pid 5''] self_stat7) CONFIG_PATH)))
     = own_pid (accepted (Config (boot_view [''whitelist_pid 5''] self_stat7) CONFIG_PATH))"
proof -
  have "\<not> isl (Config (boot_view [''whitelist_pid 5''] self_stat7) CONFIG_PATH)"
    by code_simp
  then have ok: "Config (boot_view [''whitelist_pid 5''] self_stat7) CONFIG_PATH =
     Inr (accepted (Config (boot_view [''whitelist_pid 5''] self_stat7) CONFIG_PATH))"
    by (rule accepted_Inr)
  from C9_own_pid_appended [OF ok] ok show ?thesis by simp
qed

text \<open>
  C5, as the specification has it: a configuration whose enabled pair of thresholds is
  out of order is rejected with a Config error.  With \<open>temp_throttle 50000\<close>,
  \<open>temp_dethrottle 60000\<close> and a pattern for the thermal sensors that matches no file,
  the constructor fails with the Argument error of the sensor files, which it looks for
  before it compares the thresholds.
\<close>

theorem C5_rejected_with_other_error:
  "Config (boot_view [''temp_throttle 50000'', ''temp_dethrottle 60000'',
                      ''matcher_thermal /none*''] self_stat7) CONFIG_PATH
     = Inl ArgumentError"
  by code_simp

text \<open>
  C5, amended: every configuration accepted at load has
  \<open>temp_throttle \<ge> temp_dethrottle\<close> and \<open>temp_SIGSTOP \<ge> temp_SIGCONT\<close>, whatever
  modes are enabled.  A configuration that enables a mode whose pair is out of order is
  never accepted; the error is the Config error when the steps that the constructor
  takes before the comparison succeed: finding the thermal sensor files for the
  throttle pair, and moreover the set-up of throttling for the stop/continue pair.  When
  one of these steps fails, the constructor fails with the error of that step.
\<close>

theorem C5_thresholds_ordered:
  "(Config sy path = Inr c \<longrightarrow>
      temp_dethrottle c \<le> temp_throttle c \<and> temp_SIGCONT c \<le> temp_SIGSTOP c) \<and>
   (load_config sy path = Inr c0 \<and> use_throttle c0 \<and> temp_throttle c0 < temp_dethrottle c0 \<longrightarrow>
      isl (Config sy path) \<and>
      (file_collection sy (matcher_thermal c0) = Inr fs \<longrightarrow> Config sy path = Inl ConfigError) \<and>
      (file_collection sy (matcher_thermal c0) = Inl e \<longrightarrow> Config sy path = Inl e)) \<and>
   (load_config sy path = Inr c0 \<and> use_SIGSTOP c0 \<and> temp_SIGSTOP c0 < temp_SIGCONT c0 \<longrightarrow>
      isl (Config sy path) \<and>
      (file_collection sy (matcher_thermal c0) = Inr fs \<and>
       set_throttle sy (c0\<lparr>thermal_files := fs\<rparr>) = Inr c1 \<longrightarrow>
         Config sy path = Inl ConfigError) \<and>
      (file_collection sy (matcher_thermal c0) = Inl e \<longrightarrow> Config sy path = Inl e) \<and>
      (file_collection sy (matcher_thermal c0) = Inr fs \<and>
       set_throttle sy (c0\<lparr>thermal_files := fs\<rparr>) = Inl e \<longrightarrow>
         Config sy path = Inl e))"
proof -
  have 1: "temp_dethrottle c \<le> temp_throttle c \<and> temp_SIGCONT c \<le> temp_SIGSTOP c"
    if "Config sy path = Inr c"
  proof -
    from that obtain c3 where "set_and_assert_config sy c3 = Inr c"
      using Config_steps by blast
    from set_and_assert_config_fields [OF this] show ?thesis by simp
  qed
  have 2: "isl (Config sy path) \<and>
      (file_collection sy (matcher_thermal c0) = Inr fs \<longrightarrow> Config sy path = Inl ConfigError) \<and>
      (file_collection sy (matcher_thermal c0) = Inl e \<longrightarrow> Config sy path = Inl e)"
    if a: "load_config sy path = Inr c0" "use_throttle c0" "temp_throttle c0 < temp_dethrottle c0"
    using a throttle_pair_rejected(1) [OF a(2,3), of sy]
      throttle_pair_rejected(2) [OF a(2,3), of sy fs] thermal_files_error [of c0 sy e]
    by (simp add: Config_load_config)
  have 3: "isl (Config sy path) \<and>
      (file_collection sy (matcher_thermal c0) = Inr fs \<and>
       set_throttle sy (c0\<lparr>thermal_files := fs\<rparr>) = Inr c1 \<longrightarrow>
         Config sy path = Inl ConfigError) \<and>
      (file_collection sy (matcher_thermal c0) = Inl e \<longrightarrow> Config sy path = Inl e) \<and>
      (file_collection sy (matcher_thermal c0) = Inr fs \<and>
       set_throttle sy (c0\<lparr>thermal_files := fs\<rparr>) = Inl e \<longrightarrow>
         Config sy path = Inl e)"
    if a: "load_config sy path = Inr c0" "use_SIGSTOP c0" "temp_SIGSTOP c0 < temp_SIGCONT c0"
    using a SIGSTOP_pair_rejected(1) [OF a(2,3), of sy]
      SIGSTOP_pair_rejected(2) [OF a(2,3), of sy fs c1] thermal_files_error [of c0 sy e]
      set_throttle_error [of c0 sy fs e]
    by (simp add: Config_load_config)
  from 1 2 3 show ?thesis by blast
qed

theorem C5_thresholds_ordered_witness:
  "Config (boot_view [''temp_throttle 60000'', ''temp_dethrottle 60000''] self_stat7) CONFIG_PATH =
     Inr (accepted (Config (boot_view [''temp_throttle 60000'', ''temp_dethrottle 60000''] self_stat7) CONFIG_PATH)) \<and>
   temp_dethrottle (accepted (Config (boot_view [''temp_throttle 60000'', ''temp_dethrottle 60000''] self_stat7) CONFIG_PATH))
     \<le> temp_throttle (accepted (Config (boot_view [''temp_throttle 60000'', ''temp_dethrottle 60000''] self_stat7) CONFIG_PATH)) \<and>
   Config (boot_view [''temp_throttle 50000'', ''temp_dethrottle 60000''] self_stat7) CONFIG_PATH
     = Inl ConfigError \<and>
   Config (boot_view [''use_SIGSTOP true'', ''temp_SIGSTOP 60000'', ''temp_SIGCONT 66000''] self_stat7) CONFIG_PATH
     = Inl ConfigError \<and>
   Config (boot_view [''temp_throttle 50000'', ''temp_dethrottle 60000'',
                      ''matcher_thermal /none*''] self_stat7) CONFIG_PATH
     = Inl ArgumentError"
proof -
  let ?none = "boot_view [''temp_throttle 50000'', ''temp_dethrottle 60000'',
                          ''matcher_thermal /none*''] self_stat7"
  let ?n0 = "accepted (load_config ?none CONFIG_PATH)"
  let ?ok = "boot_view [''temp_throttle 60000'', ''temp_dethrottle 60000''] self_stat7"
  let ?bad = "boot_view [''temp_throttle 50000'', ''temp_dethrottle 60000''] self_stat7"
  let ?sig = "boot_view [''use_SIGSTOP true'', ''temp_SIGSTOP 60000'', ''temp_SIGCONT 66000''] self_stat7"
  let ?c0 = "accepted (load_config ?bad CONFIG_PATH)"
  let ?d0 = "accepted (load_config ?sig CONFIG_PATH)"
  let ?fs = "[''/sys/devices/virtual/thermal/thermal_zone0/temp'']"
  let ?d1 = "accepted (set_throttle ?sig (?d0\<lparr>thermal_files := ?fs\<rparr>))"
  have ok: "Config ?ok CONFIG_PATH = Inr (accepted (Config ?ok CONFIG_PATH))"
    by (rule accepted_Inr) code_simp
  have bad: "load_config ?bad CONFIG_PATH = Inr ?c0"
    by (rule accepted_Inr) code_simp
  have bad_pair: "use_throttle ?c0 \<and> temp_throttle ?c0 < temp_dethrottle ?c0"
    by code_simp
  have bad_thermal: "file_collection ?bad (matcher_thermal ?c0) = Inr ?fs"
    by code_simp
  have sig: "load_config ?sig CONFIG_PATH = Inr ?d0"
    by (rule accepted_Inr) code_simp
  have sig_pair: "use_SIGSTOP ?d0 \<and> temp_SIGSTOP ?d0 < temp_SIGCONT ?d0"
    by code_simp
  have sig_thermal: "file_collection ?sig (matcher_thermal ?d0) = Inr ?fs"
    by code_simp
  have sig_throttle: "set_throttle ?sig (?d0\<lparr>thermal_files := ?fs\<rparr>) = Inr ?d1"
    by (rule accepted_Inr) code_simp
  from C5_thresholds_ordered [of ?ok CONFIG_PATH "accepted (Config ?ok CONFIG_PATH)" ?c0 ?fs _ ?d1] ok
  have 1: "temp_dethrottle (accepted (Config ?ok CONFIG_PATH))
             \<le> temp_throttle (accepted (Config ?ok CONFIG_PATH))"
    by blast
  from C5_thresholds_ordered [of ?bad CONFIG_PATH "accepted (Config ?ok CONFIG_PATH)" ?c0 ?fs _ ?d1]
    bad bad_pair bad_thermal
  have 2: "Config ?bad CONFIG_PATH = Inl ConfigError"
    by blast
  from C5_thresholds_ordered [of ?sig CONFIG_PATH "accepted (Config ?ok CONFIG_PATH)" ?d0 ?fs _ ?d1]
    sig sig_pair sig_thermal sig_throttle
  have 3: "Config ?sig CONFIG_PATH = Inl ConfigError"
    by blast
  have none: "load_config ?none CONFIG_PATH = Inr ?n0"
    by (rule accepted_Inr) code_simp
  have none_pair: "use_throttle ?n0 \<and> temp_throttle ?n0 < temp_dethrottle ?n0"
    by code_simp
  have none_thermal: "file_collection ?none (matcher_thermal ?n0) = Inl ArgumentError"
    by code_simp
  from C5_thresholds_ordered [of ?none CONFIG_PATH "accepted (Config ?ok CONFIG_PATH)" ?n0 ?fs
      ArgumentError ?d1] none none_pair none_thermal
  have 4: "Config ?none CONFIG_PATH = Inl ArgumentError"
    by blast
  from ok 1 2 3 4 show ?thesis by blast
qed

section \<open>Floating point\<close>

lemma bitlen_bounds: "0 < a \<Longrightarrow> 2 ^ (bitlen a - 1) \<le> a"
proof (induction a rule: bitlen.induct)
  case (1 n)
  show ?case
  proof (cases "n = 1")
    case True
    then show ?thesis by (subst bitlen.simps, subst bitlen.simps) simp
  next
    case False
    with 1 have pos: "0 < n div 2" by simp
    then have ih: "2 ^ (bitlen (n div 2) - 1) \<le> n div 2" using 1 by simp
    have bl: "bitlen n = Suc (bitlen (n div 2))" using 1(2) by (subst bitlen.simps) simp
    have "0 < bitlen (n div 2)" using pos by (subst bitlen.simps) simp
    then have "(2::int) ^ (bitlen n - 1) = 2 * 2 ^ (bitlen (n div 2) - 1)"
      using bl by (cases "bitlen (n div 2)") simp_all
    also have "\<dots> \<le> 2 * (n div 2)" using ih by simp
    also have "\<dots> \<le> n" by simp
    finally show ?thesis .
  qed
qed

lemma bitlen_1: "bitlen 1 = 1"
  by (subst bitlen.simps, subst bitlen.simps) simp

lemma bitlen_pos: "0 < a \<Longrightarrow> 0 < bitlen a"
  by (subst bitlen.simps) simp

lemma round_ties_even_ge: "0 < den \<Longrightarrow> num div den \<le> round_ties_even num den"
  by (simp add: round_ties_even_def Let_def)

lemma f32_round_pos_1_pos:
  assumes "0 < a"
  shows "0 < f32_round_pos a 1"
proof -
  let ?e = "int (bitlen a) - 1"
  have e0: "0 \<le> ?e" using bitlen_pos [OF assms] by simp
  have ne: "nat ?e = bitlen a - 1" by simp
  have le: "2 ^ nat ?e \<le> a" using bitlen_bounds [OF assms] by (simp add: ne)
  show ?thesis
  proof (cases "0 \<le> 23 - ?e")
    case True
    have "0 < round_ties_even (a * 2 ^ nat (23 - ?e)) 1"
      using assms by (simp add: round_ties_even_def)
    then show ?thesis
      using True e0 le by (simp add: f32_round_pos_def Let_def bitlen_1 zero_less_Fract_iff)
  next
    case False
    then have s: "nat (?e - 23) \<le> nat ?e" by simp
    have "(2::int) ^ nat (?e - 23) \<le> 2 ^ nat ?e"
      using s by (rule power_increasing) simp
    from this le have "2 ^ nat (?e - 23) \<le> a" by (rule order_trans)
    then have "(2::int) ^ nat (?e - 23) div 2 ^ nat (?e - 23) \<le> a div 2 ^ nat (?e - 23)"
      by (rule zdiv_mono1) simp
    then have "1 \<le> a div 2 ^ nat (?e - 23)"
      by simp
    moreover have "a div 2 ^ nat (?e - 23) \<le> round_ties_even a (2 ^ nat (?e - 23))"
      by (rule round_ties_even_ge) simp
    ultimately have "0 < round_ties_even a (2 ^ nat (?e - 23))" by simp
    then show ?thesis
      using False e0 le by (simp add: f32_round_pos_def Let_def bitlen_1)
  qed
qed

lemma uint_pos: "n \<noteq> 0 \<Longrightarrow> 0 < uint (n :: u_long)"
  by (simp add: word_neq_0_conv word_less_def)

lemma f32_of_u_long_pos: "n \<noteq> 0 \<Longrightarrow> 0 < f32_of_u_long n"
  using f32_round_pos_1_pos [OF uint_pos] by (simp add: f32_of_u_long_def)

lemma f32_of_u_long_eq_0: "f32_of_u_long n = 0 \<longleftrightarrow> n = 0"
  using f32_of_u_long_pos [of n] by (cases "n = 0") (simp_all add: f32_of_u_long_def)

lemma f32_div_by_zero:
  "f32_div (f32_of_u_long d) (f32_of_u_long 0) = (if d = 0 then NaN else PInf)"
  using f32_of_u_long_pos [of d]
  by (cases "d = 0") (simp_all add: f32_div_def f32_of_u_long_eq_0)

section \<open>Process records\<close>

lemma read_stat_try_fields:
  "read_stat_try sy p = Inr p' \<Longrightarrow> is_a_process p' \<and> same_bookkeeping p p'"
  by (auto simp: read_stat_try_def ebind_Inr_iff Let_def same_bookkeeping_def split: if_splits)

lemma read_stat_fields:
  "read_stat sy p = Inr p' \<Longrightarrow> same_bookkeeping p p'"
  by (auto simp: read_stat_def same_bookkeeping_def split: sum.splits if_splits
           dest!: read_stat_try_fields)

lemma read_stat_IOError:
  "read_stat_try sy p = Inl IOError \<Longrightarrow> read_stat sy p = Inr (p\<lparr>is_a_process := False\<rparr>)"
  by (simp add: read_stat_def)

lemma read_stat_other_error:
  "read_stat_try sy p = Inl e \<Longrightarrow> e \<noteq> IOError \<Longrightarrow> read_stat sy p = Inl e"
  by (simp add: read_stat_def)

lemma whitelisted_total: "use_SIGSTOP cfg \<Longrightarrow> \<not> isl (whitelisted cfg p)"
  using pattern_vect_contains_total [of "whitelist_comm cfg" "comm p"]
  by (simp add: whitelisted_def in_SIGSTOP_mode_def assert_SIGSTOP_mode_def)

lemma check_whitelist_fields:
  "check_whitelist cfg p = Inr p' \<Longrightarrow> \<exists>b. p' = p\<lparr>is_whitelisted := b\<rparr>"
  by (auto simp: check_whitelist_def ebind_Inr_iff)

lemma check_whitelist_total:
  "use_SIGSTOP cfg \<Longrightarrow> \<exists>b. check_whitelist cfg p = Inr (p\<lparr>is_whitelisted := b\<rparr>)"
  using whitelisted_total [of cfg p] not_isl_obtain [of "whitelisted cfg p"]
  by (auto simp: check_whitelist_def)

lemma update_ready:
  assumes "update cfg sy p t = Inr p'" "is_ready p"
  shows "is_ready p'"
proof -
  from assms(1) obtain p1 p2 where
    1: "read_stat sy p = Inr p1" and 2: "check_whitelist cfg p1 = Inr p2"
    by (auto simp: update_def ebind_Inr_iff)
  from read_stat_fields [OF 1] check_whitelist_fields [OF 2] assms(2)
  have "is_ready p2" by (auto simp: same_bookkeeping_def)
  with assms(1) 1 2 show ?thesis
    by (auto simp: update_def Let_def split: if_splits)
qed

lemma update_whitelisted:
  assumes "update cfg sy p t = Inr p'" "is_whitelisted p'"
  shows "pid_cpu_pct p' = Fin 0 \<and> \<not> has_received_first_update p'"
proof -
  from assms(1) obtain p1 p2 where
    1: "read_stat sy p = Inr p1" and 2: "check_whitelist cfg p1 = Inr p2"
    by (auto simp: update_def ebind_Inr_iff)
  show ?thesis
  proof (cases "is_whitelisted p2")
    case True
    with assms(1) 1 2 show ?thesis by (auto simp: update_def)
  next
    case False
    with assms(1) 1 2 have "\<not> is_whitelisted p'"
      by (cases "has_received_first_update p2") (auto simp: update_def Let_def)
    with assms(2) show ?thesis by simp
  qed
qed

lemma update_zero_delta:
  assumes rs: "read_stat sy p = Inr p1" and cw: "check_whitelist cfg p1 = Inr p2"
    and nw: "\<not> is_whitelisted p2" and later: "has_received_first_update p"
    and zero: "cpu_time = cpu_time_prev p"
  shows "\<exists>p'. update cfg sy p cpu_time = Inr p' \<and> is_ready p' \<and>
           pid_cpu_pct p' =
             (if utime p2 + stime p2 + cutime p2 + cstime p2 = pid_time_prev p then NaN else PInf)"
proof -
  from read_stat_fields [OF rs] check_whitelist_fields [OF cw] later zero
  have f: "has_received_first_update p2" "cpu_time_prev p2 = cpu_time"
    "pid_time_prev p2 = pid_time_prev p"
    by (auto simp: same_bookkeeping_def)
  show ?thesis
    using rs cw nw f f32_div_by_zero [of "utime p2 + stime p2 + cutime p2 + cstime p2 - pid_time_prev p"]
    by (simp add: update_def Let_def)
qed

lemma update_IOError:
  assumes "use_SIGSTOP cfg" "read_stat_try sy p = Inl IOError"
  shows "\<exists>p'. update cfg sy p t = Inr p' \<and> \<not> is_a_process p'"
proof -
  from check_whitelist_total [OF assms(1), of "p\<lparr>is_a_process := False\<rparr>"]
  obtain b where "check_whitelist cfg (p\<lparr>is_a_process := False\<rparr>) =
      Inr (p\<lparr>is_a_process := False, is_whitelisted := b\<rparr>)"
    by auto
  with read_stat_IOError [OF assms(2)] show ?thesis
    by (simp add: update_def Let_def)
qed

lemma update_other_error:
  "read_stat_try sy p = Inl e \<Longrightarrow> e \<noteq> IOError \<Longrightarrow> update cfg sy p t = Inl e"
  by (simp add: update_def read_stat_other_error)

lemma rec_of_Inr: "\<not> isl r \<Longrightarrow> r = Inr (rec_of r)"
  by (cases r) (simp_all add: rec_of_def)

text \<open>
  C6, as the specification has it: when the aggregate CPU time has not moved since the
  last sample, \<open>cpu_share\<close> is set to 0.  For the record of process 100, sampled before
  at CPU time 200 with its own times at 10, an update at CPU time 200 with its own times
  still at 10 divides 0 by 0 in \<^verbatim>\<open>float\<close>: \<open>pid_cpu_pct\<close> becomes NaN.
\<close>

theorem C6_zero_delta_gives_nan:
  "map_sum id pid_cpu_pct (update cfg_signal view_same pid_sampled 200) = Inr NaN"
  by code_simp

text \<open>
  C6, amended: for a record that is not whitelisted, on its second or later sample, an
  aggregate CPU time equal to the one of the last sample makes the update neither fail
  nor set \<open>cpu_share\<close> to 0: the update returns, the record is ready, and
  \<open>cpu_share\<close> is the quotient of the division by zero in \<^verbatim>\<open>float\<close>, NaN when the
  times of the process have not moved either and plus infinity otherwise.
\<close>

theorem C6_zero_delta_not_finite:
  assumes "read_stat sy p = Inr p1" and "check_whitelist cfg p1 = Inr p2"
    and "\<not> is_whitelisted p2" and "has_received_first_update p"
    and "cpu_time = cpu_time_prev p"
  shows "\<exists>p'. update cfg sy p cpu_time = Inr p' \<and> is_ready p' \<and>
           pid_cpu_pct p' =
             (if utime p2 + stime p2 + cutime p2 + cstime p2 = pid_time_prev p then NaN else PInf) \<and>
           pid_cpu_pct p' \<noteq> Fin 0"
proof -
  from update_zero_delta [OF assms] obtain p' where
    "update cfg sy p cpu_time = Inr p'" "is_ready p'"
    "pid_cpu_pct p' =
       (if utime p2 + stime p2 + cutime p2 + cstime p2 = pid_time_prev p then NaN else PInf)"
    by blast
  then show ?thesis by auto
qed

theorem C6_zero_delta_not_finite_witness:
  "\<exists>p'. update cfg_signal view_same pid_sampled 200 = Inr p' \<and> is_ready p' \<and>
         pid_cpu_pct p' = NaN \<and> pid_cpu_pct p' \<noteq> Fin 0"
proof -
  let ?p1 = "rec_of (read_stat view_same pid_sampled)"
  let ?p2 = "rec_of (check_whitelist cfg_signal ?p1)"
  have 1: "read_stat view_same pid_sampled = Inr ?p1"
    by (rule rec_of_Inr) code_simp
  have 2: "check_whitelist cfg_signal ?p1 = Inr ?p2"
    by (rule rec_of_Inr) code_simp
  have 3: "\<not> is_whitelisted ?p2"
    by code_simp
  have 4: "has_received_first_update pid_sampled"
    by code_simp
  have 5: "(200 :: u_long) = cpu_time_prev pid_sampled"
    by code_simp
  have 6: "utime ?p2 + stime ?p2 + cutime ?p2 + cstime ?p2 = pid_time_prev pid_sampled"
    by code_simp
  from C6_zero_delta_not_finite [OF 1 2 3 4 5] 6 show ?thesis
    by simp
qed

section \<open>Dethrottling\<close>

lemma any_below_iff:
  "length cs = length xs \<Longrightarrow> any_below cs xs \<longleftrightarrow> (\<exists>i < length cs. cs ! i < xs ! i)"
proof (induction cs xs rule: any_below.induct)
  case (1 c cs x xs)
  then show ?case
    by (auto simp: less_Suc_eq_0_disj)
qed simp_all

lemma any_below_same: "\<not> any_below xs xs"
  by (induction xs) simp_all

lemma dethrottle_highest_loop_writes:
  "dethrottle_highest_loop w max_freqs files i n t m = Inr m' \<Longrightarrow> i + n = length files \<Longrightarrow>
     writes m' = writes m @ map (\<lambda>j. (files ! j, max_freqs ! j)) [i ..< length files] \<and>
     log_lines m' = log_lines m"
proof (induction n arbitrary: i t m)
  case 0
  then show ?case by simp
next
  case (Suc n)
  from Suc.prems(1) obtain m1 where
    f: "i < length max_freqs" and
    o: "overwrite (w t) files i (max_freqs ! i) m = Inr m1" and
    r: "dethrottle_highest_loop w max_freqs files (Suc i) n (Suc t) m1 = Inr m'"
    by (auto simp: ebind_Inr_iff vec_at_def split: if_splits)
  from o have m1: "writes m1 = writes m @ [(files ! i, max_freqs ! i)]" "log_lines m1 = log_lines m"
    by (auto simp: overwrite_def split: if_splits)
  from Suc.prems(2) have "[i ..< length files] = i # [Suc i ..< length files]"
    by (simp add: upt_conv_Cons)
  with Suc.IH [OF r] Suc.prems(2) m1 show ?case
    by simp
qed

lemma log_fields:
  "Logger_log cfg sy line m = Inr m' \<Longrightarrow> m' = m\<lparr>log_lines := log_lines m @ [line]\<rparr>"
  by (auto simp: Logger_log_def split: if_splits)


lemma overwrite_fields:
  "overwrite sy files i v m = Inr m' \<Longrightarrow>
     m' = m\<lparr>writes := writes m @ [(files ! i, v)]\<rparr>"
  by (auto simp: overwrite_def split: if_splits)

lemma dethrottle_next_higher_loop_log:
  "dethrottle_next_higher_loop cfg w avail files cur i t m = Inr m' \<Longrightarrow>
     log_lines m' = log_lines m"
proof (induction cur arbitrary: i t m)
  case Nil
  then show ?case by simp
next
  case (Cons speed rest)
  show ?case
  proof (cases "next_higher (avail ! i) speed \<noteq> ULONG_MAX")
    case True
    with Cons.prems obtain m1 where
      o: "overwrite (w t) files i (next_higher (avail ! i) speed) m = Inr m1" and
      r: "dethrottle_next_higher_loop cfg w avail files rest (Suc i) (Suc t) m1 = Inr m'"
      by (auto simp: ebind_Inr_iff vec_at_def Let_def split: if_splits)
    from Cons.IH [OF r] overwrite_fields [OF o] show ?thesis by simp
  next
    case False
    with Cons.prems have
      "dethrottle_next_higher_loop cfg w avail files rest (Suc i) t m = Inr m'"
      by (auto simp: ebind_Inr_iff vec_at_def Let_def split: if_splits)
    from Cons.IH [OF this] show ?thesis .
  qed
qed

lemma dethrottle_next_higher_log:
  "dethrottle_next_higher cfg w t cur m = Inr m' \<Longrightarrow> log_lines m' = log_lines m"
  by (auto simp: dethrottle_next_higher_def ebind_Inr_iff dest: dethrottle_next_higher_loop_log)

lemma dethrottle_highest_writes:
  assumes "dethrottle_highest cfg w t m = Inr m'"
  shows "writes m' = writes m @ map (\<lambda>j. (scaling_max_freq_files cfg ! j, cpuinfo_max_freqs cfg ! j))
                                   [0 ..< length (scaling_max_freq_files cfg)] \<and>
         log_lines m' = log_lines m"
proof -
  from assms have "dethrottle_highest_loop w (cpuinfo_max_freqs cfg) (scaling_max_freq_files cfg) 0
      (length (scaling_max_freq_files cfg)) t m = Inr m'"
    by (auto simp: dethrottle_highest_def ebind_Inr_iff in_throttle_mode_def)
  from dethrottle_highest_loop_writes [OF this] show ?thesis by simp
qed

lemma max_element_loop_u_long:
  "max_element_loop u_long_less largest xs = Inr (fold max xs largest)"
  by (induction xs arbitrary: largest) (auto simp: u_long_less_def max_def)

lemma max_element_deref_u_long:
  assumes "v \<noteq> []"
  shows "max_element_deref u_long_less v = Inr (Max (set v))"
proof -
  from assms obtain x xs where v: "v = x # xs" by (cases v) auto
  have "Max (set (x # xs)) = fold max xs x" by (rule Max.set_eq_fold)
  with v show ?thesis
    by (simp add: max_element_deref_def max_element_loop_u_long)
qed

lemma emap_Inr_length: "emap f xs = Inr ys \<Longrightarrow> length ys = length xs"
  by (induction xs arbitrary: ys) (auto simp: ebind_Inr_iff)

lemma emap_Inr_nth: "emap f xs = Inr ys \<Longrightarrow> i < length xs \<Longrightarrow> f (xs ! i) = Inr (ys ! i)"
proof (induction xs arbitrary: ys i)
  case Nil
  then show ?case by simp
next
  case (Cons x xs)
  then show ?case by (cases i) (auto simp: ebind_Inr_iff)
qed

lemma max_speeds_ladder:
  assumes "max_speeds cfg = Inr maxs" "use_scaling_available cfg"
  shows "[] \<notin> set (scaling_available_frequencies cfg) \<and>
         maxs = map (\<lambda>v. Max (set v)) (scaling_available_frequencies cfg)"
proof -
  let ?avail = "scaling_available_frequencies cfg"
  from assms have e: "emap (max_element_deref u_long_less) ?avail = Inr maxs"
    by (auto simp: max_speeds_def ebind_Inr_iff in_throttle_mode_def)
  have ne: "?avail ! i \<noteq> []" if "i < length ?avail" for i
    using emap_Inr_nth [OF e that] by (auto simp: max_element_deref_def)
  then have 1: "[] \<notin> set ?avail" by (metis in_set_conv_nth)
  have "maxs ! i = Max (set (?avail ! i))" if "i < length ?avail" for i
    using emap_Inr_nth [OF e that] max_element_deref_u_long [OF ne [OF that]] by simp
  then have "maxs = map (\<lambda>v. Max (set v)) ?avail"
    using emap_Inr_length [OF e] by (simp add: list_eq_iff_nth_eq)
  with 1 show ?thesis by simp
qed

lemma max_speeds_hw:
  "max_speeds cfg = Inr maxs \<Longrightarrow> \<not> use_scaling_available cfg \<Longrightarrow> maxs = cpuinfo_max_freqs cfg"
  by (auto simp: max_speeds_def ebind_Inr_iff in_throttle_mode_def)

lemma exec_dethrottle_unfold:
  assumes "use_throttle cfg"
    and "collection_read convert_u_long (w 0) (scaling_max_freq_files cfg) = Inr cur"
    and "max_speeds cfg = Inr maxs" and "length cur = length maxs"
  shows "exec_dethrottle cfg w m =
     (if \<exists>i < length cur. cur ! i < maxs ! i then
        ebind (Logger_log cfg (w 1) ''Dethrottling CPU.'' m) (\<lambda>m1.
          if use_scaling_available cfg then dethrottle_next_higher cfg w 2 cur m1
          else dethrottle_highest cfg w 2 m1)
      else Inr m)"
proof -
  have "any_below cur maxs \<longleftrightarrow> (\<exists>i < length cur. cur ! i < maxs ! i)"
    using assms(4) by (rule any_below_iff)
  then show ?thesis
    using assms(1-3)
    by (auto simp: exec_dethrottle_def is_below_max_speed_def in_throttle_mode_def
          assert_throttle_mode_def assms(4))
qed

lemma next_higher_fold:
  "fold (\<lambda>v next. if v < next \<and> v > speed then v else next) xs (a :: u_long) =
     (if filter (\<lambda>v. speed < v \<and> v < a) xs = [] then a
      else Min (set (filter (\<lambda>v. speed < v \<and> v < a) xs)))"
proof (induction xs arbitrary: a)
  case Nil
  then show ?case by simp
next
  case (Cons x xs)
  show ?case
  proof (cases "x < a \<and> speed < x")
    case False
    then show ?thesis using Cons.IH [of a] by auto
  next
    case True
    let ?S = "set (filter (\<lambda>v. speed < v \<and> v < a) xs)"
    let ?c = "filter (\<lambda>v. speed < v \<and> v < x) xs"
    have sub: "set ?c \<subseteq> ?S" using True by auto
    have main: "(if ?c = [] then x else Min (set ?c)) = Min (insert x ?S)"
    proof (cases "?c = []")
      case True
      then have "\<forall>y \<in> ?S. x \<le> y" by (auto simp: filter_empty_conv not_less)
      then have "Min (insert x ?S) = x"
        by (intro Min_eqI) auto
      with True show ?thesis by simp
    next
      case False
      then have ne: "set ?c \<noteq> {}" by (simp only: set_empty not_False_eq_True)
      have fin: "finite (set ?c)" by simp
      from Min_in [OF fin ne] have in_T: "Min (set ?c) \<in> set ?c" .
      then have lt: "Min (set ?c) < x" by auto
      have eq: "Min (insert x ?S) = Min (set ?c)"
      proof (rule Min_eqI)
        show "finite (insert x ?S)" by simp
        show "Min (set ?c) \<in> insert x ?S" using in_T sub by blast
        fix y assume "y \<in> insert x ?S"
        then consider "y = x" | "y \<in> set ?c" | "y \<in> ?S" "x \<le> y"
          by (cases "y < x") (auto simp: not_less)
        then show "Min (set ?c) \<le> y"
        proof cases
          case 1 then show ?thesis using lt by simp
        next
          case 2 then show ?thesis by (simp only: Min_le fin)
        next
          case 3 then show ?thesis using lt by simp
        qed
      qed
      show ?thesis using False eq by (simp only: if_False)
    qed
    have "fold (\<lambda>v next. if v < next \<and> v > speed then v else next) (x # xs) a =
          fold (\<lambda>v next. if v < next \<and> v > speed then v else next) xs x"
      using True by simp
    also have "\<dots> = (if ?c = [] then x else Min (set ?c))"
      by (rule Cons.IH)
    also have "\<dots> = Min (insert x ?S)"
      by (rule main)
    also have "\<dots> = (if filter (\<lambda>v. speed < v \<and> v < a) (x # xs) = [] then a
      else Min (set (filter (\<lambda>v. speed < v \<and> v < a) (x # xs))))"
      using True by simp
    finally show ?thesis .
  qed
qed

lemma next_higher_Min:
  "next_higher avail speed =
     (if filter (\<lambda>v. speed < v \<and> v < ULONG_MAX) avail = [] then ULONG_MAX
      else Min (set (filter (\<lambda>v. speed < v \<and> v < ULONG_MAX) avail)))"
  unfolding next_higher_def by (rule next_higher_fold)

lemma next_higher_found:
  "next_higher avail speed \<noteq> ULONG_MAX \<longleftrightarrow> (\<exists>v \<in> set avail. speed < v \<and> v < ULONG_MAX)"
proof -
  let ?c = "filter (\<lambda>v. speed < v \<and> v < ULONG_MAX) avail"
  have "Min (set ?c) \<in> set ?c" if "?c \<noteq> []"
    using that by (intro Min_in) (auto simp: filter_empty_conv)
  then have "Min (set ?c) \<noteq> ULONG_MAX" if "?c \<noteq> []"
    using that by fastforce
  then show ?thesis
    by (auto simp: next_higher_Min filter_empty_conv)
qed

lemma dethrottle_next_higher_loop_writes:
  "dethrottle_next_higher_loop cfg w avail files rest i t m = Inr m' \<Longrightarrow>
     writes m' = writes m @
       map (\<lambda>k. (files ! (i + k), next_higher (avail ! (i + k)) (rest ! k)))
         (filter (\<lambda>k. next_higher (avail ! (i + k)) (rest ! k) \<noteq> ULONG_MAX) [0 ..< length rest])"
proof (induction rest arbitrary: i t m)
  case Nil
  then show ?case by simp
next
  case (Cons speed rest)
  have upt: "[0 ..< length (speed # rest)] = 0 # map Suc [0 ..< length rest]"
    by (simp add: upt_conv_Cons map_Suc_upt del: upt_Suc)
  show ?case
  proof (cases "next_higher (avail ! i) speed \<noteq> ULONG_MAX")
    case True
    with Cons.prems obtain m1 where
      o: "overwrite (w t) files i (next_higher (avail ! i) speed) m = Inr m1" and
      r: "dethrottle_next_higher_loop cfg w avail files rest (Suc i) (Suc t) m1 = Inr m'"
      by (auto simp: ebind_Inr_iff vec_at_def Let_def split: if_splits)
    from Cons.IH [OF r] overwrite_fields [OF o] True show ?thesis
      unfolding upt by (simp add: filter_map comp_def)
  next
    case False
    with Cons.prems have
      r: "dethrottle_next_higher_loop cfg w avail files rest (Suc i) t m = Inr m'"
      by (auto simp: ebind_Inr_iff vec_at_def Let_def split: if_splits)
    from Cons.IH [OF r] False show ?thesis
      unfolding upt by (simp add: filter_map comp_def)
  qed
qed

lemma dethrottle_next_higher_writes:
  assumes "dethrottle_next_higher cfg w t cur m = Inr m'"
  shows "writes m' = writes m @
       map (\<lambda>i. (scaling_max_freq_files cfg ! i,
                 Min (set (filter (\<lambda>v. cur ! i < v \<and> v < ULONG_MAX)
                            (scaling_available_frequencies cfg ! i)))))
         (filter (\<lambda>i. \<exists>v \<in> set (scaling_available_frequencies cfg ! i). cur ! i < v \<and> v < ULONG_MAX)
            [0 ..< length cur])"
proof -
  let ?avail = "scaling_available_frequencies cfg"
  from assms have "dethrottle_next_higher_loop cfg w ?avail (scaling_max_freq_files cfg) cur 0 t m
      = Inr m'"
    by (auto simp: dethrottle_next_higher_def ebind_Inr_iff in_throttle_mode_def)
  from dethrottle_next_higher_loop_writes [OF this]
  have "writes m' = writes m @
       map (\<lambda>k. (scaling_max_freq_files cfg ! k, next_higher (?avail ! k) (cur ! k)))
         (filter (\<lambda>k. next_higher (?avail ! k) (cur ! k) \<noteq> ULONG_MAX) [0 ..< length cur])"
    by simp
  also have "filter (\<lambda>k. next_higher (?avail ! k) (cur ! k) \<noteq> ULONG_MAX) [0 ..< length cur] =
      filter (\<lambda>i. \<exists>v \<in> set (?avail ! i). cur ! i < v \<and> v < ULONG_MAX) [0 ..< length cur]"
    by (simp add: next_higher_found)
  also have "map (\<lambda>k. (scaling_max_freq_files cfg ! k, next_higher (?avail ! k) (cur ! k)))
         (filter (\<lambda>i. \<exists>v \<in> set (?avail ! i). cur ! i < v \<and> v < ULONG_MAX) [0 ..< length cur]) =
       map (\<lambda>i. (scaling_max_freq_files cfg ! i,
                 Min (set (filter (\<lambda>v. cur ! i < v \<and> v < ULONG_MAX) (?avail ! i)))))
         (filter (\<lambda>i. \<exists>v \<in> set (?avail ! i). cur ! i < v \<and> v < ULONG_MAX) [0 ..< length cur])"
    by (rule map_cong) (auto simp: next_higher_Min filter_empty_conv)
  finally show ?thesis .
qed

lemma log_total:
  "writable sy (log_file_path cfg) \<Longrightarrow>
     Logger_log cfg sy line m = Inr (m\<lparr>log_lines := log_lines m @ [line]\<rparr>)"
  by (simp add: Logger_log_def)

lemma dethrottle_next_higher_loop_total:
  assumes "use_throttle cfg" "\<forall>t. \<forall>f \<in> set files. writable (w t) f"
  shows "i + length rest \<le> length avail \<Longrightarrow> i + length rest \<le> length files \<Longrightarrow>
     \<not> isl (dethrottle_next_higher_loop cfg w avail files rest i t m)"
proof (induction rest arbitrary: i t m)
  case Nil
  then show ?case by simp
next
  case (Cons speed rest)
  from Cons.prems have i: "i < length avail" "i < length files" by simp_all
  then have wr: "writable (w t) (files ! i)" using assms(2) by simp
  have 1: "\<not> isl (dethrottle_next_higher_loop cfg w avail files rest (Suc i) t' m1)" for t' m1
    using Cons.prems by (intro Cons.IH) simp_all
  show ?case
    using i wr assms(1) 1
    by (simp add: vec_at_def Let_def in_throttle_mode_def assert_throttle_mode_def overwrite_def)
qed

lemma dethrottle_highest_loop_total:
  assumes "\<forall>t. \<forall>f \<in> set files. writable (w t) f"
  shows "i + n \<le> length files \<Longrightarrow> i + n \<le> length max_freqs \<Longrightarrow>
     \<not> isl (dethrottle_highest_loop w max_freqs files i n t m)"
proof (induction n arbitrary: i t m)
  case 0
  then show ?case by simp
next
  case (Suc n)
  from Suc.prems have i: "i < length max_freqs" "i < length files" by simp_all
  then have wr: "writable (w t) (files ! i)" using assms by simp
  have 1: "\<not> isl (dethrottle_highest_loop w max_freqs files (Suc i) n t' m1)" for t' m1
    using Suc.prems by (intro Suc.IH) simp_all
  show ?case
    using i wr 1 by (simp add: vec_at_def overwrite_def)
qed

lemma collection_read_Nil:
  "collection_read conv sy [] = Inr []"
  by (simp add: collection_read_def)


lemma collection_read_nonempty:
  "collection_read conv sy files = Inr cur \<Longrightarrow> cur \<noteq> [] \<Longrightarrow> files \<noteq> []"
  by (cases files) (auto simp: collection_read_def)

lemma u_long_below_max: "(v :: u_long) \<noteq> ULONG_MAX \<Longrightarrow> v < ULONG_MAX"
  unfolding ULONG_MAX_def by (simp add: less_le)

lemma dethrottle_next_higher_total:
  assumes "use_throttle cfg" "\<forall>t. \<forall>f \<in> set (scaling_max_freq_files cfg). writable (w t) f"
    and "length cur \<le> length (scaling_available_frequencies cfg)"
    and "length cur \<le> length (scaling_max_freq_files cfg)"
  shows "\<not> isl (dethrottle_next_higher cfg w t cur m)"
  using dethrottle_next_higher_loop_total [OF assms(1,2), of 0 cur "scaling_available_frequencies cfg" t m]
    assms
  by (simp add: dethrottle_next_higher_def in_throttle_mode_def assert_throttle_mode_def)

lemma dethrottle_highest_total:
  assumes "use_throttle cfg" "\<forall>t. \<forall>f \<in> set (scaling_max_freq_files cfg). writable (w t) f"
    and "length (scaling_max_freq_files cfg) \<le> length (cpuinfo_max_freqs cfg)"
  shows "\<not> isl (dethrottle_highest cfg w t m)"
  using dethrottle_highest_loop_total [OF assms(2), of 0 "length (scaling_max_freq_files cfg)"
      "cpuinfo_max_freqs cfg" t m] assms
  by (simp add: dethrottle_highest_def in_throttle_mode_def assert_throttle_mode_def)

lemma result_Inr: "\<not> isl r \<Longrightarrow> r = Inr (result r)"
  by (cases r) (simp_all add: result_def)

text \<open>
  C4, as the specification has it: \<open>exec_dethrottle\<close> logs and acts exactly when some
  ceiling is strictly below its maximum.  On a system whose only CPU publishes the
  ladder \<open>800000 18446744073709551615\<close> the configuration is accepted in discrete
  mode; with the ceiling at 800000, below the largest value of the ladder,
  \<open>exec_dethrottle\<close> logs its line and writes no file: the only value above the
  ceiling is the one that the search for the next value starts from and takes for
  \<open>none found\<close>.
\<close>

theorem C4_logs_without_writing:
  "\<not> isl (Config view_sentinel CONFIG_PATH) \<and>
   use_scaling_available cfg_sentinel \<and>
   scaling_available_frequencies cfg_sentinel = [[800000, ULONG_MAX]] \<and>
   max_speeds cfg_sentinel = Inr [ULONG_MAX] \<and>
   collection_read convert_u_long view_sentinel (scaling_max_freq_files cfg_sentinel)
     = Inr [800000] \<and>
   (800000 :: u_long) < ULONG_MAX \<and>
   \<not> isl (exec_dethrottle cfg_sentinel (\<lambda>_. view_sentinel) monitor0) \<and>
   log_lines (result (exec_dethrottle cfg_sentinel (\<lambda>_. view_sentinel) monitor0))
     = [''Dethrottling CPU.''] \<and>
   writes (result (exec_dethrottle cfg_sentinel (\<lambda>_. view_sentinel) monitor0)) = []"
  by code_simp

text \<open>
  C4, amended.  Let the read of the current ceilings give \<open>cur\<close>, and let \<open>maxs\<close> be the
  maxima they are compared with, one for each CPU: the hardware maxima or, in discrete
  mode, the largest value of each ladder.  When every ceiling equals its maximum,
  \<open>exec_dethrottle\<close> returns the monitor as it was: no line logged, no file written.
  In general it logs the line \<open>Dethrottling CPU.\<close> exactly when some ceiling is
  strictly below its maximum, and writes files only then.  Outside discrete mode it then
  writes its hardware maximum to every ceiling file.  In discrete mode it then writes,
  for every CPU whose ladder has a value above its ceiling other than \<open>2\<^sup>6\<^sup>4 - 1\<close>,
  the least such value to the ceiling file of that CPU, and nothing for the other CPUs.
  So it acts whenever a ceiling is below a maximum that is not \<open>2\<^sup>6\<^sup>4 - 1\<close>; and when
  the log file and the ceiling files, one for each ceiling, can be written, it
  returns.
\<close>

theorem C4_dethrottle_acts_unless_sentinel:
  assumes "use_throttle cfg"
    and "collection_read convert_u_long (w 0) (scaling_max_freq_files cfg) = Inr cur"
    and "max_speeds cfg = Inr maxs" and "length cur = length maxs"
  shows "(if use_scaling_available cfg
          then maxs = map (\<lambda>v. Max (set v)) (scaling_available_frequencies cfg)
          else maxs = cpuinfo_max_freqs cfg) \<and>
         (cur = maxs \<longrightarrow> exec_dethrottle cfg w m = Inr m) \<and>
         (\<not> (\<exists>i < length cur. cur ! i < maxs ! i) \<longrightarrow> exec_dethrottle cfg w m = Inr m) \<and>
         ((\<exists>i < length cur. cur ! i < maxs ! i) \<longrightarrow>
            exec_dethrottle cfg w m =
              ebind (Logger_log cfg (w 1) ''Dethrottling CPU.'' m) (\<lambda>m1.
                if use_scaling_available cfg then dethrottle_next_higher cfg w 2 cur m1
                else dethrottle_highest cfg w 2 m1)) \<and>
         (exec_dethrottle cfg w m = Inr m' \<longrightarrow>
            (log_lines m' = log_lines m @ [''Dethrottling CPU.'']
               \<longleftrightarrow> (\<exists>i < length cur. cur ! i < maxs ! i)) \<and>
            (writes m' \<noteq> writes m \<longrightarrow> (\<exists>i < length cur. cur ! i < maxs ! i)) \<and>
            ((\<exists>i < length cur. cur ! i < maxs ! i) \<and> \<not> use_scaling_available cfg \<longrightarrow>
               writes m' = writes m @ map (\<lambda>j. (scaling_max_freq_files cfg ! j, maxs ! j))
                                          [0 ..< length (scaling_max_freq_files cfg)]) \<and>
            ((\<exists>i < length cur. cur ! i < maxs ! i) \<and> use_scaling_available cfg \<longrightarrow>
               writes m' = writes m @
                 map (\<lambda>i. (scaling_max_freq_files cfg ! i,
                           Min (set (filter (\<lambda>v. cur ! i < v \<and> v < ULONG_MAX)
                                      (scaling_available_frequencies cfg ! i)))))
                   (filter (\<lambda>i. \<exists>v \<in> set (scaling_available_frequencies cfg ! i).
                                  cur ! i < v \<and> v < ULONG_MAX)
                      [0 ..< length cur])) \<and>
            ((\<exists>i < length cur. cur ! i < maxs ! i \<and> maxs ! i \<noteq> ULONG_MAX) \<longrightarrow>
               writes m' \<noteq> writes m)) \<and>
         ((\<exists>i < length cur. cur ! i < maxs ! i) \<and>
          length (scaling_max_freq_files cfg) = length cur \<and>
          (\<forall>t. writable (w t) (log_file_path cfg) \<and>
               (\<forall>f \<in> set (scaling_max_freq_files cfg). writable (w t) f)) \<longrightarrow>
            (\<exists>m1. exec_dethrottle cfg w m = Inr m1))"
proof -
  let ?files = "scaling_max_freq_files cfg"
  let ?avail = "scaling_available_frequencies cfg"
  let ?ladder_writes = "map (\<lambda>i. (?files ! i,
                           Min (set (filter (\<lambda>v. cur ! i < v \<and> v < ULONG_MAX) (?avail ! i)))))
                   (filter (\<lambda>i. \<exists>v \<in> set (?avail ! i). cur ! i < v \<and> v < ULONG_MAX)
                      [0 ..< length cur])"
  let ?hw_writes = "map (\<lambda>j. (?files ! j, maxs ! j)) [0 ..< length ?files]"
  note unf = exec_dethrottle_unfold [of cfg w cur maxs m, OF assms]
  have 1: "if use_scaling_available cfg
          then maxs = map (\<lambda>v. Max (set v)) ?avail
          else maxs = cpuinfo_max_freqs cfg"
    using max_speeds_ladder [OF assms(3)] max_speeds_hw [OF assms(3)] by simp
  have 2: "cur = maxs \<longrightarrow> exec_dethrottle cfg w m = Inr m"
    using unf by auto
  have 3: "\<not> (\<exists>i < length cur. cur ! i < maxs ! i) \<longrightarrow> exec_dethrottle cfg w m = Inr m"
    using unf by auto
  have 4: "(\<exists>i < length cur. cur ! i < maxs ! i) \<longrightarrow>
            exec_dethrottle cfg w m =
              ebind (Logger_log cfg (w 1) ''Dethrottling CPU.'' m) (\<lambda>m1.
                if use_scaling_available cfg then dethrottle_next_higher cfg w 2 cur m1
                else dethrottle_highest cfg w 2 m1)"
    using unf by auto
  have 5: "(log_lines m' = log_lines m @ [''Dethrottling CPU.'']
               \<longleftrightarrow> (\<exists>i < length cur. cur ! i < maxs ! i)) \<and>
            (writes m' \<noteq> writes m \<longrightarrow> (\<exists>i < length cur. cur ! i < maxs ! i)) \<and>
            ((\<exists>i < length cur. cur ! i < maxs ! i) \<and> \<not> use_scaling_available cfg \<longrightarrow>
               writes m' = writes m @ ?hw_writes) \<and>
            ((\<exists>i < length cur. cur ! i < maxs ! i) \<and> use_scaling_available cfg \<longrightarrow>
               writes m' = writes m @ ?ladder_writes) \<and>
            ((\<exists>i < length cur. cur ! i < maxs ! i \<and> maxs ! i \<noteq> ULONG_MAX) \<longrightarrow>
               writes m' \<noteq> writes m)"
    if r: "exec_dethrottle cfg w m = Inr m'"
  proof (cases "\<exists>i < length cur. cur ! i < maxs ! i")
    case False
    with unf r have "m' = m" by auto
    with False show ?thesis by auto
  next
    case True
    with 4 r have "ebind (Logger_log cfg (w 1) ''Dethrottling CPU.'' m) (\<lambda>m1.
                if use_scaling_available cfg then dethrottle_next_higher cfg w 2 cur m1
                else dethrottle_highest cfg w 2 m1) = Inr m'"
      by simp
    then obtain m1 where
      l: "Logger_log cfg (w 1) ''Dethrottling CPU.'' m = Inr m1" and
      d: "(if use_scaling_available cfg then dethrottle_next_higher cfg w 2 cur m1
           else dethrottle_highest cfg w 2 m1) = Inr m'"
      unfolding ebind_Inr_iff by blast
    from d have "log_lines m' = log_lines m1"
      by (auto split: if_splits dest: dethrottle_next_higher_log dethrottle_highest_writes)
    with log_fields [OF l] have a: "log_lines m' = log_lines m @ [''Dethrottling CPU.'']"
      by simp
    have b: "writes m' = writes m @ ?hw_writes" if "\<not> use_scaling_available cfg"
      using that d dethrottle_highest_writes [of cfg w 2 m1 m'] log_fields [OF l]
        max_speeds_hw [OF assms(3)] by simp
    have c: "writes m' = writes m @ ?ladder_writes" if "use_scaling_available cfg"
      using that d dethrottle_next_higher_writes [of cfg w 2 cur m1 m'] log_fields [OF l]
      by simp
    have e: "writes m' \<noteq> writes m"
      if s: "\<exists>i < length cur. cur ! i < maxs ! i \<and> maxs ! i \<noteq> ULONG_MAX"
    proof (cases "use_scaling_available cfg")
      case False
      from True have "cur \<noteq> []" by auto
      with assms(2) have "?files \<noteq> []" by (rule collection_read_nonempty)
      then have "?hw_writes \<noteq> []" by simp
      with b [OF False] show ?thesis by simp
    next
      case ladder: True
      from s obtain i where i: "i < length cur" "cur ! i < maxs ! i" "maxs ! i \<noteq> ULONG_MAX"
        by blast
      from max_speeds_ladder [OF assms(3) ladder] have
        ne: "[] \<notin> set ?avail" and mx: "maxs = map (\<lambda>v. Max (set v)) ?avail"
        by simp_all
      from mx i(1) assms(4) have il: "i < length ?avail" by simp
      with ne have nei: "?avail ! i \<noteq> []" by (metis nth_mem)
      from mx il have mi: "maxs ! i = Max (set (?avail ! i))" by simp
      from nei have "Max (set (?avail ! i)) \<in> set (?avail ! i)"
        by (intro Max_in) simp_all
      with mi i(2,3) have "\<exists>v \<in> set (?avail ! i). cur ! i < v \<and> v < ULONG_MAX"
        using u_long_below_max by (intro bexI [of _ "maxs ! i"]) simp_all
      with i(1) have "i \<in> set (filter (\<lambda>i. \<exists>v \<in> set (?avail ! i). cur ! i < v \<and> v < ULONG_MAX)
                      [0 ..< length cur])"
        by simp
      then have "?ladder_writes \<noteq> []"
        by (metis (no_types, lifting) empty_iff list.set(1) map_is_Nil_conv)
      with c [OF ladder] show ?thesis by simp
    qed
    from True a b c e show ?thesis by blast
  qed
  have 6: "\<exists>m1. exec_dethrottle cfg w m = Inr m1"
    if below: "\<exists>i < length cur. cur ! i < maxs ! i"
      and len: "length ?files = length cur"
      and wr: "\<forall>t. writable (w t) (log_file_path cfg) \<and> (\<forall>f \<in> set ?files. writable (w t) f)"
  proof -
    let ?m1 = "m\<lparr>log_lines := log_lines m @ [''Dethrottling CPU.'']\<rparr>"
    from wr have l: "Logger_log cfg (w 1) ''Dethrottling CPU.'' m = Inr ?m1"
      by (intro log_total) simp
    from wr have wf: "\<forall>t. \<forall>f \<in> set ?files. writable (w t) f" by simp
    have "\<not> isl (if use_scaling_available cfg then dethrottle_next_higher cfg w 2 cur ?m1
                 else dethrottle_highest cfg w 2 ?m1)"
    proof (cases "use_scaling_available cfg")
      case True
      with 1 assms(4) have "length cur \<le> length ?avail" by simp
      with True show ?thesis
        using dethrottle_next_higher_total [OF assms(1) wf, of cur 2 ?m1] len by simp
    next
      case False
      with 1 assms(4) len have "length ?files \<le> length (cpuinfo_max_freqs cfg)" by simp
      with False show ?thesis
        using dethrottle_highest_total [OF assms(1) wf, of 2 ?m1] by simp
    qed
    with below 4 l show ?thesis
      using not_isl_obtain by fastforce
  qed
  from 1 2 3 4 5 6 show ?thesis by blast
qed


theorem C4_dethrottle_acts_unless_sentinel_witness:
  "exec_dethrottle cfg_ladder (\<lambda>_. view_ladder_max) monitor0 = Inr monitor0 \<and>
   log_lines (result (exec_dethrottle cfg_ladder (\<lambda>_. view_ladder) monitor0))
     = [''Dethrottling CPU.''] \<and>
   writes (result (exec_dethrottle cfg_ladder (\<lambda>_. view_ladder) monitor0))
     = [(''/sys/devices/system/cpu/cpu0/cpufreq/scaling_max_freq'', 1600000)] \<and>
   exec_dethrottle cfg_throttle (\<lambda>_. view_at_max) monitor0 = Inr monitor0 \<and>
   log_lines (result (exec_dethrottle cfg_throttle (\<lambda>_. view_throttled) monitor0))
     = [''Dethrottling CPU.''] \<and>
   writes (result (exec_dethrottle cfg_throttle (\<lambda>_. view_throttled) monitor0))
     = [(''/sys/devices/system/cpu/cpu0/cpufreq/scaling_max_freq'', 3000000)] \<and>
   (\<exists>m1. exec_dethrottle cfg_ladder (\<lambda>_. view_ladder) monitor0 = Inr m1)"
proof -
  let ?path = "''/sys/devices/system/cpu/cpu0/cpufreq/scaling_max_freq''"
  let ?l' = "result (exec_dethrottle cfg_ladder (\<lambda>_. view_ladder) monitor0)"
  let ?m' = "result (exec_dethrottle cfg_throttle (\<lambda>_. view_throttled) monitor0)"
  have thr: "use_throttle cfg_throttle" "use_throttle cfg_ladder"
    by code_simp+
  have mode: "\<not> use_scaling_available cfg_throttle" "use_scaling_available cfg_ladder"
    by code_simp+
  have files: "scaling_max_freq_files cfg_throttle = [?path]"
    "scaling_max_freq_files cfg_ladder = [?path]"
    by code_simp+
  have avail: "scaling_available_frequencies cfg_ladder = [[1600000, 3000000, 800000]]"
    by code_simp
  have mx: "max_speeds cfg_throttle = Inr [3000000]" "max_speeds cfg_ladder = Inr [3000000]"
    by code_simp+
  have rd1: "collection_read convert_u_long ((\<lambda>_. view_at_max) 0)
               (scaling_max_freq_files cfg_throttle) = Inr [3000000]"
    by code_simp
  have rd2: "collection_read convert_u_long ((\<lambda>_. view_throttled) 0)
               (scaling_max_freq_files cfg_throttle) = Inr [800000]"
    by code_simp
  have rd3: "collection_read convert_u_long ((\<lambda>_. view_ladder_max) 0)
               (scaling_max_freq_files cfg_ladder) = Inr [3000000]"
    by code_simp
  have rd4: "collection_read convert_u_long ((\<lambda>_. view_ladder) 0)
               (scaling_max_freq_files cfg_ladder) = Inr [800000]"
    by code_simp
  have len: "length [3000000 :: u_long] = length [3000000 :: u_long]"
       "length [800000 :: u_long] = length [3000000 :: u_long]"
    by simp_all
  have ok: "exec_dethrottle cfg_throttle (\<lambda>_. view_throttled) monitor0 = Inr ?m'"
    by (rule result_Inr) code_simp
  have below: "\<exists>i < length [800000 :: u_long]. [800000 :: u_long] ! i < [3000000] ! i"
    by simp
  have wr0: "writable view_ladder (log_file_path cfg_ladder) \<and>
      (\<forall>f \<in> set (scaling_max_freq_files cfg_ladder). writable view_ladder f)"
    by code_simp
  then have wr: "\<forall>t :: nat. writable ((\<lambda>_. view_ladder) t) (log_file_path cfg_ladder) \<and>
      (\<forall>f \<in> set (scaling_max_freq_files cfg_ladder). writable ((\<lambda>_. view_ladder) t) f)"
    by simp
  have ev: "map (\<lambda>i. ([?path] ! i,
                     Min (set (filter (\<lambda>v. [800000] ! i < v \<and> v < ULONG_MAX)
                                ([[1600000, 3000000, 800000]] ! i)))))
              (filter (\<lambda>i. \<exists>v \<in> set ([[1600000, 3000000, 800000]] ! i).
                             [800000] ! i < v \<and> v < ULONG_MAX)
                 [0 ..< length [800000 :: u_long]]) = [(?path, 1600000)]"
    by code_simp
  from C4_dethrottle_acts_unless_sentinel [OF thr(1) rd1 mx(1) len(1), of monitor0 monitor0]
  have 1: "exec_dethrottle cfg_throttle (\<lambda>_. view_at_max) monitor0 = Inr monitor0"
    by simp
  from C4_dethrottle_acts_unless_sentinel [OF thr(1) rd2 mx(1) len(2), of monitor0 ?m'] ok below mode(1)
  have 2: "log_lines ?m' = log_lines monitor0 @ [''Dethrottling CPU.'']"
    and 3: "writes ?m' = writes monitor0 @
        map (\<lambda>j. (scaling_max_freq_files cfg_throttle ! j, [3000000] ! j))
          [0 ..< length (scaling_max_freq_files cfg_throttle)]"
    by blast+
  from C4_dethrottle_acts_unless_sentinel [OF thr(2) rd3 mx(2) len(1), of monitor0 monitor0]
  have 4: "exec_dethrottle cfg_ladder (\<lambda>_. view_ladder_max) monitor0 = Inr monitor0"
    by simp
  have lenf: "length (scaling_max_freq_files cfg_ladder) = length [800000 :: u_long]"
    unfolding files by simp
  from C4_dethrottle_acts_unless_sentinel [OF thr(2) rd4 mx(2) len(2), of monitor0 monitor0]
    below lenf wr
  have 5: "\<exists>m1. exec_dethrottle cfg_ladder (\<lambda>_. view_ladder) monitor0 = Inr m1"
    by blast
  then have okl: "exec_dethrottle cfg_ladder (\<lambda>_. view_ladder) monitor0 = Inr ?l'"
    by (auto simp: result_def)
  from C4_dethrottle_acts_unless_sentinel [OF thr(2) rd4 mx(2) len(2), of monitor0 ?l'] okl below mode(2)
  have 6: "log_lines ?l' = log_lines monitor0 @ [''Dethrottling CPU.'']"
    and 7: "writes ?l' = writes monitor0 @
        map (\<lambda>i. (scaling_max_freq_files cfg_ladder ! i,
                   Min (set (filter (\<lambda>v. [800000] ! i < v \<and> v < ULONG_MAX)
                              (scaling_available_frequencies cfg_ladder ! i)))))
          (filter (\<lambda>i. \<exists>v \<in> set (scaling_available_frequencies cfg_ladder ! i).
                         [800000] ! i < v \<and> v < ULONG_MAX)
             [0 ..< length [800000 :: u_long]])"
    by blast+
  from 7 have 8: "writes ?l' = writes monitor0 @ [(?path, 1600000)]"
    unfolding files avail ev .
  from 1 2 3 4 5 6 8 files show ?thesis
    by (simp add: monitor0_def)
qed

section \<open>The census\<close>

text \<open>
  What the operations of the monitor do to its two vectors and to the records they point
  to: a refresh filters both vectors and appends new records at fresh addresses, the
  signal operations change the stopped flag of a record and append to the self-stopped
  records.
\<close>

lemma ebind_InrE:
  assumes "ebind m f = Inr y"
  obtains x where "m = Inr x" "f x = Inr y"
  using assms by (auto simp: ebind_Inr_iff)

lemma add_loop_fields:
  "add_loop cfg w mem ps t m = Inr (m', t') \<Longrightarrow>
     self_stopped_pids m' = self_stopped_pids m \<and> set (pids m) \<subseteq> set (pids m') \<and>
     next_addr m \<le> next_addr m' \<and> (\<forall>a < next_addr m. heap m' a = heap m a) \<and>
     signals m' = signals m \<and> log_lines m' = log_lines m \<and> writes m' = writes m"
proof (induction ps arbitrary: t m)
  case Nil
  then show ?case by simp
next
  case (Cons test_pid rest)
  show ?case
  proof (cases "list_ex (\<lambda>v. pid (heap m v) = test_pid) (pids m)")
    case True
    with Cons.prems have "add_loop cfg w mem rest t m = Inr (m', t')" by simp
    from Cons.IH [OF this] show ?thesis .
  next
    case False
    with Cons.prems obtain p where
      r: "add_loop cfg w mem rest (Suc t)
            (m\<lparr>heap := (heap m)(next_addr m := p), pids := pids m @ [next_addr m],
               next_addr := Suc (next_addr m)\<rparr>) = Inr (m', t')"
      by (auto simp: ebind_Inr_iff)
    from Cons.IH [OF r] show ?thesis by auto
  qed
qed

lemma update_loop_ready:
  "update_loop cfg w vs t h = Inr h' \<Longrightarrow> is_ready (h a) \<Longrightarrow> is_ready (h' a)"
proof (induction vs arbitrary: t h)
  case Nil
  then show ?case by simp
next
  case (Cons v vs)
  from Cons.prems(1) obtain ct p where
    u: "update cfg (w (Suc t)) (h v) ct = Inr p" and
    r: "update_loop cfg w vs (t + 2) (h(v := p)) = Inr h'"
    by (auto simp: ebind_Inr_iff)
  have "is_ready ((h(v := p)) a)"
    using Cons.prems(2) update_ready [OF u] by auto
  from Cons.IH [OF r this] show ?case .
qed

lemma update_pids_fields:
  assumes "update_pids cfg w mem m = Inr (m', t)"
  shows "set (self_stopped_pids m') \<subseteq> set (self_stopped_pids m)"
    and "set (self_stopped_pids m) \<subseteq> set (pids m) \<Longrightarrow>
           set (self_stopped_pids m') \<subseteq> set (pids m')"
    and "a < next_addr m \<Longrightarrow> is_ready (heap m a) \<Longrightarrow> is_ready (heap m' a)"
    and "next_addr m \<le> next_addr m'"
    and "signals m' = signals m" and "log_lines m' = log_lines m" and "writes m' = writes m"
proof -
  from assms obtain h pid_nums where
    u: "update_loop cfg w (pids m) 0 (heap m) = Inr h" and
    a: "add_loop cfg w mem pid_nums (Suc (2 * length (pids m)))
          (m\<lparr>heap := h, pids := filter (\<lambda>v. is_a_process (h v)) (pids m),
             self_stopped_pids :=
               filter (\<lambda>v. is_a_process (h v) \<and> is_self_stopped (h v)) (self_stopped_pids m)\<rparr>)
          = Inr (m', t)"
    by (auto simp: update_pids_def Let_def ebind_Inr_iff)
  note f = add_loop_fields [OF a]
  from f show "set (self_stopped_pids m') \<subseteq> set (self_stopped_pids m)" by auto
  from f show "set (self_stopped_pids m) \<subseteq> set (pids m) \<Longrightarrow>
           set (self_stopped_pids m') \<subseteq> set (pids m')" by auto
  from f update_loop_ready [OF u]
  show "a < next_addr m \<Longrightarrow> is_ready (heap m a) \<Longrightarrow> is_ready (heap m' a)" by auto
  from f show "next_addr m \<le> next_addr m'" by simp
  from f show "signals m' = signals m" "log_lines m' = log_lines m" "writes m' = writes m"
    by simp_all
qed

lemma max_element_loop_in:
  "max_element_loop cmp x xs = Inr y \<Longrightarrow> y \<in> set (x # xs)"
  by (induction xs arbitrary: x) (auto simp: ebind_Inr_iff split: if_splits)

lemma min_element_loop_in:
  "min_element_loop cmp x xs = Inr y \<Longrightarrow> y \<in> set (x # xs)"
  by (induction xs arbitrary: x) (auto simp: ebind_Inr_iff split: if_splits)

lemma send_SIGSTOP_fields:
  "pids (send_SIGSTOP a m) = pids m"
  "self_stopped_pids (send_SIGSTOP a m) = self_stopped_pids m"
  "next_addr (send_SIGSTOP a m) = next_addr m"
  "is_whitelisted (heap (send_SIGSTOP a m) b) = is_whitelisted (heap m b)"
  "is_ready (heap (send_SIGSTOP a m) b) = is_ready (heap m b)"
  by (simp_all add: send_SIGSTOP_def)

lemma send_SIGCONT_fields:
  "pids (send_SIGCONT a m) = pids m"
  "self_stopped_pids (send_SIGCONT a m) = self_stopped_pids m"
  "next_addr (send_SIGCONT a m) = next_addr m"
  "is_whitelisted (heap (send_SIGCONT a m) b) = is_whitelisted (heap m b)"
  "is_ready (heap (send_SIGCONT a m) b) = is_ready (heap m b)"
  by (simp_all add: send_SIGCONT_def)

lemma send_all_SIGCONTs_fields:
  "pids (fold send_SIGCONT vs m) = pids m \<and>
   self_stopped_pids (fold send_SIGCONT vs m) = self_stopped_pids m \<and>
   next_addr (fold send_SIGCONT vs m) = next_addr m \<and>
   is_ready (heap (fold send_SIGCONT vs m) b) = is_ready (heap m b)"
  by (induction vs arbitrary: m) (simp_all add: send_SIGCONT_fields)

lemma send_all_SIGSTOPs_fields:
  "pids (send_all_SIGSTOPs vs m) = pids m \<and>
   self_stopped_pids (send_all_SIGSTOPs vs m) = self_stopped_pids m @ vs \<and>
   next_addr (send_all_SIGSTOPs vs m) = next_addr m \<and>
   is_whitelisted (heap (send_all_SIGSTOPs vs m) b) = is_whitelisted (heap m b) \<and>
   is_ready (heap (send_all_SIGSTOPs vs m) b) = is_ready (heap m b)"
  unfolding send_all_SIGSTOPs_def
  by (induction vs arbitrary: m) (simp_all add: send_SIGSTOP_fields Let_def)

lemma send_next_SIGSTOP_fields:
  assumes "send_next_SIGSTOP cfg sy avail m = Inr m'"
  shows "pids m' = pids m \<and> next_addr m' = next_addr m \<and>
         (\<exists>added. set added \<subseteq> set avail \<and> self_stopped_pids m' = self_stopped_pids m @ added) \<and>
         (\<forall>b. is_whitelisted (heap m' b) = is_whitelisted (heap m b) \<and>
              is_ready (heap m' b) = is_ready (heap m b))"
proof (cases avail)
  case Nil
  with assms show ?thesis by (auto simp: send_next_SIGSTOP_def)
next
  case (Cons x xs)
  with assms obtain ptr m1 where
    p: "max_element_loop (pct_greater m) x xs = Inr ptr" and
    l: "Logger_log cfg sy (''Sending SIGSTOP to pid '' @ pid_str (heap m ptr) @ '' '' @
                               comm (heap m ptr)) m = Inr m1" and
    m': "m' = (send_SIGSTOP ptr m1)\<lparr>self_stopped_pids :=
                 self_stopped_pids (send_SIGSTOP ptr m1) @ [ptr]\<rparr>"
    by (auto simp: send_next_SIGSTOP_def ebind_Inr_iff Let_def)
  from max_element_loop_in [OF p] Cons have "set [ptr] \<subseteq> set avail" by simp
  with m' log_fields [OF l] show ?thesis
    by (auto simp: send_SIGSTOP_fields)
qed

lemma send_next_SIGCONT_fields:
  assumes "send_next_SIGCONT cfg sy m = Inr m'"
  shows "pids m' = pids m \<and> next_addr m' = next_addr m \<and>
         self_stopped_pids m' = self_stopped_pids m \<and>
         is_ready (heap m' b) = is_ready (heap m b)"
proof (cases "self_stopped_pids m")
  case Nil
  with assms show ?thesis by (auto simp: send_next_SIGCONT_def)
next
  case (Cons x xs)
  with assms obtain ptr m1 where
    l: "Logger_log cfg sy (''Sending SIGCONT to pid '' @ pid_str (heap m ptr) @ '' '' @
                               comm (heap m ptr)) m = Inr m1" and
    m': "m' = send_SIGCONT ptr m1"
    by (auto simp: send_next_SIGCONT_def ebind_Inr_iff)
  with log_fields [OF l] show ?thesis
    by (auto simp: send_SIGCONT_fields)
qed


lemma find_SIGSTOP_available_pids_fields:
  "set (find_SIGSTOP_available_pids m) \<subseteq> set (pids m)"
  "a \<in> set (find_SIGSTOP_available_pids m) \<Longrightarrow> \<not> is_whitelisted (heap m a)"
  by (auto simp: find_SIGSTOP_available_pids_def)

lemma exec_SIGSTOP_unfold:
  assumes "exec_SIGSTOP cfg w mem m = Inr m'"
  shows "\<exists>m1 t. update_pids cfg w mem m = Inr (m1, t) \<and>
           (m' = m1 \<or>
            send_next_SIGSTOP cfg (w t) (find_SIGSTOP_available_pids m1) m1 = Inr m' \<or>
            m' = send_all_SIGSTOPs (find_SIGSTOP_available_pids m1) m1)"
proof -
  from assms have "\<exists>m1 t. update_pids cfg w mem m = Inr (m1, t) \<and>
      (let available_pids = find_SIGSTOP_available_pids m1 in
         if length available_pids > 0 then
           ebind (in_SIGSTOP_mode cfg use_stepwise_SIGSTOP) (\<lambda>stepwise.
             if stepwise then send_next_SIGSTOP cfg (w t) available_pids m1
             else Inr (send_all_SIGSTOPs available_pids m1))
         else Inr m1) = Inr m'"
    unfolding exec_SIGSTOP_def ebind_Inr_iff by auto
  then obtain m1 t where
    u: "update_pids cfg w mem m = Inr (m1, t)" and
    r: "(if length (find_SIGSTOP_available_pids m1) > 0 then
           ebind (in_SIGSTOP_mode cfg use_stepwise_SIGSTOP) (\<lambda>stepwise.
             if stepwise then send_next_SIGSTOP cfg (w t) (find_SIGSTOP_available_pids m1) m1
             else Inr (send_all_SIGSTOPs (find_SIGSTOP_available_pids m1) m1))
         else Inr m1) = Inr m'"
    unfolding Let_def by blast
  have "m' = m1 \<or>
        send_next_SIGSTOP cfg (w t) (find_SIGSTOP_available_pids m1) m1 = Inr m' \<or>
        m' = send_all_SIGSTOPs (find_SIGSTOP_available_pids m1) m1"
  proof (cases "length (find_SIGSTOP_available_pids m1) > 0")
    case False
    with r show ?thesis by simp
  next
    case True
    with r have "ebind (in_SIGSTOP_mode cfg use_stepwise_SIGSTOP) (\<lambda>stepwise.
             if stepwise then send_next_SIGSTOP cfg (w t) (find_SIGSTOP_available_pids m1) m1
             else Inr (send_all_SIGSTOPs (find_SIGSTOP_available_pids m1) m1)) = Inr m'"
      by simp
    then obtain stepwise where
      "(if stepwise then send_next_SIGSTOP cfg (w t) (find_SIGSTOP_available_pids m1) m1
        else Inr (send_all_SIGSTOPs (find_SIGSTOP_available_pids m1) m1)) = Inr m'"
      by (rule ebind_InrE)
    then show ?thesis by (cases stepwise) auto
  qed
  with u show ?thesis by blast
qed

lemma exec_SIGSTOP_fields:
  assumes "exec_SIGSTOP cfg w mem m = Inr m'"
  shows "\<exists>m1 t added.
           update_pids cfg w mem m = Inr (m1, t) \<and> pids m' = pids m1 \<and>
           next_addr m' = next_addr m1 \<and>
           self_stopped_pids m' = self_stopped_pids m1 @ added \<and>
           set added \<subseteq> set (pids m1) \<and>
           (\<forall>a \<in> set added. \<not> is_whitelisted (heap m' a)) \<and>
           (\<forall>b. is_ready (heap m' b) = is_ready (heap m1 b))"
proof -
  from exec_SIGSTOP_unfold [OF assms] obtain m1 t where
    u: "update_pids cfg w mem m = Inr (m1, t)" and
    r: "m' = m1 \<or>
        send_next_SIGSTOP cfg (w t) (find_SIGSTOP_available_pids m1) m1 = Inr m' \<or>
        m' = send_all_SIGSTOPs (find_SIGSTOP_available_pids m1) m1"
    by blast
  let ?av = "find_SIGSTOP_available_pids m1"
  note av = find_SIGSTOP_available_pids_fields [where m = m1]
  from r consider (none) "m' = m1"
    | (one) "send_next_SIGSTOP cfg (w t) ?av m1 = Inr m'"
    | (all) "m' = send_all_SIGSTOPs ?av m1"
    by blast
  then have "\<exists>added. pids m' = pids m1 \<and> next_addr m' = next_addr m1 \<and>
           self_stopped_pids m' = self_stopped_pids m1 @ added \<and>
           set added \<subseteq> set (pids m1) \<and>
           (\<forall>a \<in> set added. \<not> is_whitelisted (heap m' a)) \<and>
           (\<forall>b. is_ready (heap m' b) = is_ready (heap m1 b))"
  proof cases
    case none
    then show ?thesis by (intro exI [of _ "[]"]) simp
  next
    case one
    from send_next_SIGSTOP_fields [OF one] obtain added where
      f: "pids m' = pids m1" "next_addr m' = next_addr m1"
         "\<forall>b. is_whitelisted (heap m' b) = is_whitelisted (heap m1 b) \<and>
              is_ready (heap m' b) = is_ready (heap m1 b)" and
      a: "set added \<subseteq> set ?av" "self_stopped_pids m' = self_stopped_pids m1 @ added"
      by blast
    have "\<forall>a \<in> set added. \<not> is_whitelisted (heap m' a)"
      using a(1) f(3) av(2) by auto
    moreover have "set added \<subseteq> set (pids m1)"
      using a(1) av(1) by auto
    ultimately show ?thesis
      using a(2) f by (intro exI [of _ added]) simp
  next
    case all
    have "\<forall>b. is_whitelisted (heap m' b) = is_whitelisted (heap m1 b) \<and>
              is_ready (heap m' b) = is_ready (heap m1 b)"
      using all send_all_SIGSTOPs_fields [of ?av m1] by simp
    then have "\<forall>a \<in> set ?av. \<not> is_whitelisted (heap m' a)"
      using av(2) by auto
    then show ?thesis
      using all av(1) send_all_SIGSTOPs_fields [of ?av m1]
      by (intro exI [of _ ?av]) simp
  qed
  with u show ?thesis by blast
qed

lemma exec_SIGCONT_fields:
  assumes "exec_SIGCONT cfg w mem m = Inr m'"
  shows "m' = m \<or> (\<exists>m1 t. update_pids cfg w mem m = Inr (m1, t) \<and> pids m' = pids m1 \<and>
           next_addr m' = next_addr m1 \<and> self_stopped_pids m' = self_stopped_pids m1 \<and>
           (\<forall>b. is_ready (heap m' b) = is_ready (heap m1 b)))"
proof (cases "length (self_stopped_pids m) > 0")
  case False
  with assms show ?thesis by (simp add: exec_SIGCONT_def)
next
  case True
  with assms obtain m1 t where
    u: "update_pids cfg w mem m = Inr (m1, t)" and
    r: "send_next_SIGCONT cfg (w t) m1 = Inr m' \<or> m' = send_all_SIGCONTs m1"
    by (auto simp: exec_SIGCONT_def ebind_Inr_iff split: if_splits)
  from r have "pids m' = pids m1 \<and> next_addr m' = next_addr m1 \<and>
      self_stopped_pids m' = self_stopped_pids m1 \<and>
      (\<forall>b. is_ready (heap m' b) = is_ready (heap m1 b))"
    using send_next_SIGCONT_fields [of cfg "w t" m1 m']
      send_all_SIGCONTs_fields [of "self_stopped_pids m1" m1]
    by (auto simp: send_all_SIGCONTs_def)
  with u show ?thesis by blast
qed

lemma reachable_subset:
  "reachable cfg m \<Longrightarrow> set (self_stopped_pids m) \<subseteq> set (pids m)"
proof (induction rule: reachable.induct)
  case (start m)
  then show ?case by simp
next
  case (refresh m w mem m' t)
  then show ?case using update_pids_fields(2) by blast
next
  case (stop m w mem m')
  from exec_SIGSTOP_fields [OF stop.hyps(2)] obtain m1 t added where
    u: "update_pids cfg w mem m = Inr (m1, t)" and
    f: "pids m' = pids m1" "self_stopped_pids m' = self_stopped_pids m1 @ added"
       "set added \<subseteq> set (pids m1)"
    by blast
  from update_pids_fields(2) [OF u stop.IH] f show ?case by auto
next
  case (continue m w mem m')
  from exec_SIGCONT_fields [OF continue.hyps(2)] show ?case
  proof
    assume "m' = m"
    with continue.IH show ?thesis by simp
  next
    assume "\<exists>m1 t. update_pids cfg w mem m = Inr (m1, t) \<and> pids m' = pids m1 \<and>
           next_addr m' = next_addr m1 \<and> self_stopped_pids m' = self_stopped_pids m1 \<and>
           (\<forall>b. is_ready (heap m' b) = is_ready (heap m1 b))"
    then obtain m1 t where
      u: "update_pids cfg w mem m = Inr (m1, t)" and
      f: "pids m' = pids m1" "self_stopped_pids m' = self_stopped_pids m1"
      by blast
    from update_pids_fields(2) [OF u continue.IH] f show ?thesis by simp
  qed
qed


lemma add_loop_allocated:
  "add_loop cfg w mem ps t m = Inr (m', t') \<Longrightarrow> \<forall>a \<in> set (pids m). a < next_addr m \<Longrightarrow>
     \<forall>a \<in> set (pids m'). a < next_addr m'"
proof (induction ps arbitrary: t m)
  case Nil
  then show ?case by simp
next
  case (Cons test_pid rest)
  show ?case
  proof (cases "list_ex (\<lambda>v. pid (heap m v) = test_pid) (pids m)")
    case True
    with Cons.prems have "add_loop cfg w mem rest t m = Inr (m', t')" by simp
    from Cons.IH [OF this Cons.prems(2)] show ?thesis .
  next
    case False
    with Cons.prems obtain p where
      r: "add_loop cfg w mem rest (Suc t)
            (m\<lparr>heap := (heap m)(next_addr m := p), pids := pids m @ [next_addr m],
               next_addr := Suc (next_addr m)\<rparr>) = Inr (m', t')"
      by (auto simp: ebind_Inr_iff)
    show ?thesis
      by (rule Cons.IH [OF r]) (use Cons.prems(2) in \<open>auto simp: less_Suc_eq\<close>)
  qed
qed

lemma update_pids_unfold:
  assumes "update_pids cfg w mem m = Inr (m', t)"
  shows "\<exists>h pid_nums. update_loop cfg w (pids m) 0 (heap m) = Inr h \<and>
     add_loop cfg w mem pid_nums (Suc (2 * length (pids m)))
          (m\<lparr>heap := h, pids := filter (\<lambda>v. is_a_process (h v)) (pids m),
             self_stopped_pids :=
               filter (\<lambda>v. is_a_process (h v) \<and> is_self_stopped (h v)) (self_stopped_pids m)\<rparr>)
          = Inr (m', t)"
  using assms by (auto simp: update_pids_def Let_def ebind_Inr_iff)

lemma update_pids_allocated:
  assumes "update_pids cfg w mem m = Inr (m', t)" "\<forall>a \<in> set (pids m). a < next_addr m"
  shows "\<forall>a \<in> set (pids m'). a < next_addr m'"
proof -
  from update_pids_unfold [OF assms(1)] obtain h pid_nums where
    a: "add_loop cfg w mem pid_nums (Suc (2 * length (pids m)))
          (m\<lparr>heap := h, pids := filter (\<lambda>v. is_a_process (h v)) (pids m),
             self_stopped_pids :=
               filter (\<lambda>v. is_a_process (h v) \<and> is_self_stopped (h v)) (self_stopped_pids m)\<rparr>)
          = Inr (m', t)"
    by blast
  show ?thesis
    by (rule add_loop_allocated [OF a]) (use assms(2) in auto)
qed

lemma update_pids_self_stopped:
  assumes "update_pids cfg w mem m = Inr (m', t)"
    and "\<forall>a \<in> set (pids m). a < next_addr m" "set (self_stopped_pids m) \<subseteq> set (pids m)"
  shows "self_stopped_pids m' =
           filter (\<lambda>v. is_a_process (heap m' v) \<and> is_self_stopped (heap m' v)) (self_stopped_pids m)"
proof -
  from update_pids_unfold [OF assms(1)] obtain h pid_nums where
    a: "add_loop cfg w mem pid_nums (Suc (2 * length (pids m)))
          (m\<lparr>heap := h, pids := filter (\<lambda>v. is_a_process (h v)) (pids m),
             self_stopped_pids :=
               filter (\<lambda>v. is_a_process (h v) \<and> is_self_stopped (h v)) (self_stopped_pids m)\<rparr>)
          = Inr (m', t)"
    by blast
  from add_loop_fields [OF a] have
    ss: "self_stopped_pids m' =
           filter (\<lambda>v. is_a_process (h v) \<and> is_self_stopped (h v)) (self_stopped_pids m)" and
    hp: "\<forall>a < next_addr m. heap m' a = h a"
    by simp_all
  have "filter (\<lambda>v. is_a_process (h v) \<and> is_self_stopped (h v)) (self_stopped_pids m) =
        filter (\<lambda>v. is_a_process (heap m' v) \<and> is_self_stopped (heap m' v)) (self_stopped_pids m)"
    by (rule filter_cong) (use hp assms(2,3) in auto)
  with ss show ?thesis by simp
qed

lemma reachable_allocated:
  "reachable cfg m \<Longrightarrow> \<forall>a \<in> set (pids m). a < next_addr m"
proof (induction rule: reachable.induct)
  case (start m)
  then show ?case by simp
next
  case (refresh m w mem m' t)
  then show ?case using update_pids_allocated by blast
next
  case (stop m w mem m')
  from exec_SIGSTOP_fields [OF stop.hyps(2)] obtain m1 t where
    u: "update_pids cfg w mem m = Inr (m1, t)" and
    f: "pids m' = pids m1" "next_addr m' = next_addr m1"
    by blast
  from update_pids_allocated [OF u stop.IH] f show ?case by simp
next
  case (continue m w mem m')
  from exec_SIGCONT_fields [OF continue.hyps(2)] show ?case
  proof
    assume "m' = m"
    with continue.IH show ?thesis by simp
  next
    assume "\<exists>m1 t. update_pids cfg w mem m = Inr (m1, t) \<and> pids m' = pids m1 \<and>
           next_addr m' = next_addr m1 \<and> self_stopped_pids m' = self_stopped_pids m1 \<and>
           (\<forall>b. is_ready (heap m' b) = is_ready (heap m1 b))"
    then obtain m1 t where
      u: "update_pids cfg w mem m = Inr (m1, t)" and
      f: "pids m' = pids m1" "next_addr m' = next_addr m1"
      by blast
    from update_pids_allocated [OF u continue.IH] f show ?thesis by simp
  qed
qed

lemma reachable_monitor2: "reachable cfg_signal monitor2"
proof -
  have 0: "reachable cfg_signal monitor0"
    by (rule reachable.start) (simp_all add: monitor0_def)
  have "exec_SIGSTOP cfg_signal (\<lambda>_. view_same) (\<lambda>_. blank) monitor0 = Inr monitor1"
    unfolding monitor1_def by (rule result_Inr) code_simp
  with 0 have 1: "reachable cfg_signal monitor1"
    by (rule reachable.stop)
  have "exec_SIGSTOP cfg_signal (\<lambda>_. view_same) (\<lambda>_. blank) monitor1 = Inr monitor2"
    unfolding monitor2_def by (rule result_Inr) code_simp
  with 1 show ?thesis
    by (rule reachable.stop)
qed

lemma step_monitor3:
  "exec_SIGSTOP cfg_signal (\<lambda>_. view_later) (\<lambda>_. blank) monitor2 = Inr monitor3"
  unfolding monitor3_def by (rule result_Inr) code_simp

lemma reachable_monitor3: "reachable cfg_signal monitor3"
  using reachable_monitor2 step_monitor3 by (rule reachable.stop)

lemma step_monitor4:
  "exec_SIGSTOP cfg_signal (\<lambda>_. view_stopped) (\<lambda>_. blank) monitor3 = Inr monitor4"
  unfolding monitor4_def by (rule result_Inr) code_simp

lemma get_pid_cpu_pct_ready: "is_ready p \<Longrightarrow> get_pid_cpu_pct p = Inr (pid_cpu_pct p)"
  by (simp add: get_pid_cpu_pct_def assert_is_ready_def)

lemma refreshed_Inr: "\<not> isl r \<Longrightarrow> r = Inr (refreshed r, reads r)"
  by (cases r) (auto simp: refreshed_def reads_def)

text \<open>
  After a read of the stat file that failed with the IO error the update goes on: it
  recomputes the whitelist flag and the bookkeeping of the CPU share from the fields read
  before.  The record is not live then, and the refresh drops it from both vectors before
  anything reads those fields.
\<close>

lemma update_IOError_fields:
  assumes "update cfg sy p t = Inr p'" "read_stat_try sy p = Inl IOError"
  shows "\<not> is_a_process p' \<and> keeps_stat_fields p p'"
proof -
  from assms obtain p2 where
    2: "check_whitelist cfg (p\<lparr>is_a_process := False\<rparr>) = Inr p2"
    by (auto simp: update_def ebind_Inr_iff read_stat_IOError)
  from check_whitelist_fields [OF 2] obtain b where
    p2: "p2 = p\<lparr>is_a_process := False, is_whitelisted := b\<rparr>"
    by auto
  from assms 2 show ?thesis
    unfolding p2
    by (auto simp: update_def read_stat_IOError Let_def keeps_stat_fields_def split: if_splits)
qed

lemma update_loop_other:
  "update_loop cfg w vs t h = Inr h' \<Longrightarrow> a \<notin> set vs \<Longrightarrow> h' a = h a"
proof (induction vs arbitrary: t h)
  case Nil
  then show ?case by simp
next
  case (Cons v vs)
  from Cons.prems(1) obtain ct p where
    r: "update_loop cfg w vs (t + 2) (h(v := p)) = Inr h'"
    by (auto simp: ebind_Inr_iff)
  from Cons.IH [OF r] Cons.prems(2) show ?case by simp
qed

lemma update_loop_IOError:
  assumes "update_loop cfg w vs t h = Inr h'" "distinct vs" "k < length vs"
    and "read_stat_try (w (t + 2 * k + 1)) (h (vs ! k)) = Inl IOError"
  shows "\<not> is_a_process (h' (vs ! k))"
  using assms
proof (induction vs arbitrary: t h k)
  case Nil
  then show ?case by simp
next
  case (Cons v vs)
  from Cons.prems(1) obtain ct p where
    u: "update cfg (w (Suc t)) (h v) ct = Inr p" and
    r: "update_loop cfg w vs (t + 2) (h(v := p)) = Inr h'"
    by (auto simp: ebind_Inr_iff)
  show ?case
  proof (cases k)
    case 0
    with Cons.prems(4) have "read_stat_try (w (Suc t)) (h v) = Inl IOError" by simp
    from update_IOError_fields [OF u this] have "\<not> is_a_process p" by simp
    moreover from Cons.prems(2) have "v \<notin> set vs" by simp
    from update_loop_other [OF r this] have "h' v = p" by simp
    ultimately show ?thesis using 0 by simp
  next
    case (Suc j)
    with Cons.prems(2,3) have j: "j < length vs" "vs ! j \<noteq> v" "distinct vs"
      by auto
    with Cons.prems(4) Suc
    have "read_stat_try (w (t + 2 + 2 * j + 1)) ((h(v := p)) (vs ! j)) = Inl IOError"
      by simp
    from Cons.IH [OF r j(3) j(1) this] Suc show ?thesis by simp
  qed
qed

lemma add_loop_pids:
  "add_loop cfg w mem ps t m = Inr (m', t') \<Longrightarrow>
     \<exists>added. pids m' = pids m @ added \<and> distinct added \<and>
             (\<forall>a \<in> set added. next_addr m \<le> a \<and> a < next_addr m')"
proof (induction ps arbitrary: t m)
  case Nil
  then show ?case by simp
next
  case (Cons test_pid rest)
  show ?case
  proof (cases "list_ex (\<lambda>v. pid (heap m v) = test_pid) (pids m)")
    case True
    with Cons.prems have "add_loop cfg w mem rest t m = Inr (m', t')" by simp
    from Cons.IH [OF this] show ?thesis .
  next
    case False
    from False Cons.prems obtain p where
      r: "add_loop cfg w mem rest (Suc t)
            (m\<lparr>heap := (heap m)(next_addr m := p), pids := pids m @ [next_addr m],
               next_addr := Suc (next_addr m)\<rparr>) = Inr (m', t')"
      by (auto simp: ebind_Inr_iff)
    from Cons.IH [OF r] obtain added where
      a: "pids m' = pids m @ [next_addr m] @ added" "distinct added"
         "\<forall>a \<in> set added. Suc (next_addr m) \<le> a \<and> a < next_addr m'"
      by auto
    from add_loop_fields [OF r] have "Suc (next_addr m) \<le> next_addr m'" by simp
    with a show ?thesis
      by (intro exI [of _ "next_addr m # added"]) auto
  qed
qed

lemma update_pids_pids:
  assumes "update_pids cfg w mem m = Inr (m', t)"
  shows "\<exists>h added. update_loop cfg w (pids m) 0 (heap m) = Inr h \<and>
           (\<forall>a < next_addr m. heap m' a = h a) \<and>
           pids m' = filter (\<lambda>v. is_a_process (h v)) (pids m) @ added \<and>
           self_stopped_pids m' =
             filter (\<lambda>v. is_a_process (h v) \<and> is_self_stopped (h v)) (self_stopped_pids m) \<and>
           distinct added \<and> (\<forall>a \<in> set added. next_addr m \<le> a \<and> a < next_addr m')"
proof -
  from update_pids_unfold [OF assms] obtain h pid_nums where
    u: "update_loop cfg w (pids m) 0 (heap m) = Inr h" and
    a: "add_loop cfg w mem pid_nums (Suc (2 * length (pids m)))
          (m\<lparr>heap := h, pids := filter (\<lambda>v. is_a_process (h v)) (pids m),
             self_stopped_pids :=
               filter (\<lambda>v. is_a_process (h v) \<and> is_self_stopped (h v)) (self_stopped_pids m)\<rparr>)
          = Inr (m', t)"
    by blast
  from add_loop_pids [OF a] add_loop_fields [OF a] u show ?thesis
    by auto
qed

lemma update_pids_distinct:
  assumes "update_pids cfg w mem m = Inr (m', t)"
    and "distinct (pids m)" "\<forall>a \<in> set (pids m). a < next_addr m"
  shows "distinct (pids m')"
proof -
  from update_pids_pids [OF assms(1)] obtain h added where
    "update_loop cfg w (pids m) 0 (heap m) = Inr h" and
    "\<forall>a < next_addr m. heap m' a = h a" and
    p: "pids m' = filter (\<lambda>v. is_a_process (h v)) (pids m) @ added" and
    "self_stopped_pids m' =
       filter (\<lambda>v. is_a_process (h v) \<and> is_self_stopped (h v)) (self_stopped_pids m)" and
    d: "distinct added" and
    a: "\<forall>a \<in> set added. next_addr m \<le> a \<and> a < next_addr m'"
    by blast
  from p d a assms(2,3) show ?thesis by fastforce
qed

lemma reachable_distinct:
  "reachable cfg m \<Longrightarrow> distinct (pids m)"
proof (induction rule: reachable.induct)
  case (start m)
  then show ?case by simp
next
  case (refresh m w mem m' t)
  from update_pids_distinct [OF refresh.hyps(2) refresh.IH reachable_allocated [OF refresh.hyps(1)]]
  show ?case .
next
  case (stop m w mem m')
  from exec_SIGSTOP_fields [OF stop.hyps(2)] obtain m1 t where
    u: "update_pids cfg w mem m = Inr (m1, t)" and f: "pids m' = pids m1"
    by blast
  from update_pids_distinct [OF u stop.IH reachable_allocated [OF stop.hyps(1)]] f
  show ?case by simp
next
  case (continue m w mem m')
  from exec_SIGCONT_fields [OF continue.hyps(2)] show ?case
  proof
    assume "m' = m"
    with continue.IH show ?thesis by simp
  next
    assume "\<exists>m1 t. update_pids cfg w mem m = Inr (m1, t) \<and> pids m' = pids m1 \<and>
           next_addr m' = next_addr m1 \<and> self_stopped_pids m' = self_stopped_pids m1 \<and>
           (\<forall>b. is_ready (heap m' b) = is_ready (heap m1 b))"
    then obtain m1 t where
      u: "update_pids cfg w mem m = Inr (m1, t)" and f: "pids m' = pids m1"
      by blast
    from update_pids_distinct [OF u continue.IH reachable_allocated [OF continue.hyps(1)]] f
    show ?thesis by simp
  qed
qed

lemma update_pids_drops:
  assumes "update_pids cfg w mem m = Inr (m', n)"
    and "distinct (pids m)" "\<forall>a \<in> set (pids m). a < next_addr m"
    and "k < length (pids m)"
    and "read_stat_try (w (2 * k + 1)) (heap m (pids m ! k)) = Inl IOError"
  shows "pids m ! k \<notin> set (pids m') \<and> pids m ! k \<notin> set (self_stopped_pids m') \<and>
         \<not> is_a_process (heap m' (pids m ! k))"
proof -
  let ?v = "pids m ! k"
  from update_pids_pids [OF assms(1)] obtain h added where
    u: "update_loop cfg w (pids m) 0 (heap m) = Inr h" and
    hp: "\<forall>a < next_addr m. heap m' a = h a" and
    p: "pids m' = filter (\<lambda>v. is_a_process (h v)) (pids m) @ added" and
    s: "self_stopped_pids m' =
          filter (\<lambda>v. is_a_process (h v) \<and> is_self_stopped (h v)) (self_stopped_pids m)" and
    a: "\<forall>a \<in> set added. next_addr m \<le> a \<and> a < next_addr m'"
    by blast
  from assms(5) have "read_stat_try (w (0 + 2 * k + 1)) (heap m ?v) = Inl IOError" by simp
  from update_loop_IOError [OF u assms(2,4) this] have dead: "\<not> is_a_process (h ?v)" .
  from assms(3,4) have alloc: "?v < next_addr m" by simp
  with a have "?v \<notin> set added" by auto
  with dead p s hp alloc show ?thesis by auto
qed

text \<open>
  C8.  In stop/continue mode, the only mode in which processes are tracked, an update
  whose re-read of the stat file fails with the IO error returns without raising: the
  record is marked not-live, and its identity, its stopped flag and the fields that the
  stat file fills are as they were.  The loop of the census goes on to the next record;
  and when the refresh of a census that tracks the record returns, the record is marked
  not-live and is no longer in the census nor among the self-stopped records.  An error of
  any other kind raised by the re-read propagates out of the update and out of the loop.
\<close>

theorem C8_io_error_masked:
  "(use_SIGSTOP cfg \<and> read_stat_try sy p = Inl IOError \<longrightarrow>
      (\<exists>p'. update cfg sy p t = Inr p' \<and> \<not> is_a_process p' \<and> keeps_stat_fields p p')) \<and>
   (use_SIGSTOP cfg \<and> sum_cur_cpu_time cfg (w n) = Inr t \<and>
    read_stat_try (w (Suc n)) (h v) = Inl IOError \<longrightarrow>
      (\<exists>p'. \<not> is_a_process p' \<and> keeps_stat_fields (h v) p' \<and>
         update_loop cfg w (v # vs) n h = update_loop cfg w vs (n + 2) (h(v := p')))) \<and>
   (reachable cfg m \<and> k < length (pids m) \<and>
    read_stat_try (ws (2 * k + 1)) (heap m (pids m ! k)) = Inl IOError \<and>
    update_pids cfg ws mem m = Inr (m', j) \<longrightarrow>
      \<not> is_a_process (heap m' (pids m ! k)) \<and>
      pids m ! k \<notin> set (pids m') \<and> pids m ! k \<notin> set (self_stopped_pids m')) \<and>
   (read_stat_try sy p = Inl e \<and> e \<noteq> IOError \<longrightarrow> update cfg sy p t = Inl e) \<and>
   (sum_cur_cpu_time cfg (w n) = Inr t \<and> read_stat_try (w (Suc n)) (h v) = Inl e \<and>
    e \<noteq> IOError \<longrightarrow> update_loop cfg w (v # vs) n h = Inl e)"
proof (intro conjI impI)
  assume a: "use_SIGSTOP cfg \<and> read_stat_try sy p = Inl IOError"
  then obtain p' where u: "update cfg sy p t = Inr p'"
    using update_IOError by blast
  with a update_IOError_fields [OF u]
  show "\<exists>p'. update cfg sy p t = Inr p' \<and> \<not> is_a_process p' \<and> keeps_stat_fields p p'"
    by blast
next
  assume a: "use_SIGSTOP cfg \<and> sum_cur_cpu_time cfg (w n) = Inr t \<and>
    read_stat_try (w (Suc n)) (h v) = Inl IOError"
  then obtain p' where u: "update cfg (w (Suc n)) (h v) t = Inr p'"
    using update_IOError by blast
  from a update_IOError_fields [OF u] have "\<not> is_a_process p' \<and> keeps_stat_fields (h v) p'"
    by blast
  moreover from a u
  have "update_loop cfg w (v # vs) n h = update_loop cfg w vs (n + 2) (h(v := p'))"
    by simp
  ultimately show "\<exists>p'. \<not> is_a_process p' \<and> keeps_stat_fields (h v) p' \<and>
         update_loop cfg w (v # vs) n h = update_loop cfg w vs (n + 2) (h(v := p'))"
    by blast
next
  assume a: "reachable cfg m \<and> k < length (pids m) \<and>
    read_stat_try (ws (2 * k + 1)) (heap m (pids m ! k)) = Inl IOError \<and>
    update_pids cfg ws mem m = Inr (m', j)"
  then have r: "reachable cfg m" and k: "k < length (pids m)"
    and e: "read_stat_try (ws (2 * k + 1)) (heap m (pids m ! k)) = Inl IOError"
    and u: "update_pids cfg ws mem m = Inr (m', j)"
    by simp_all
  from update_pids_drops [OF u reachable_distinct [OF r] reachable_allocated [OF r] k e]
  show "\<not> is_a_process (heap m' (pids m ! k))" and "pids m ! k \<notin> set (pids m')"
    and "pids m ! k \<notin> set (self_stopped_pids m')"
    by blast+
next
  assume "read_stat_try sy p = Inl e \<and> e \<noteq> IOError"
  then show "update cfg sy p t = Inl e"
    using update_other_error by blast
next
  assume a: "sum_cur_cpu_time cfg (w n) = Inr t \<and> read_stat_try (w (Suc n)) (h v) = Inl e \<and>
    e \<noteq> IOError"
  then have "update cfg (w (Suc n)) (h v) t = Inl e"
    using update_other_error by blast
  with a show "update_loop cfg w (v # vs) n h = Inl e"
    by simp
qed

theorem C8_io_error_masked_witness:
  "(\<exists>p'. update cfg_signal view_gone pid_sampled 300 = Inr p' \<and> \<not> is_a_process p' \<and>
      keeps_stat_fields pid_sampled p') \<and>
   (\<exists>p'. \<not> is_a_process p' \<and> keeps_stat_fields pid_sampled p' \<and>
      update_loop cfg_signal (\<lambda>_. view_gone) [0, 1] 0 (\<lambda>_. pid_sampled) =
      update_loop cfg_signal (\<lambda>_. view_gone) [1] 2 ((\<lambda>_. pid_sampled)(0 := p'))) \<and>
   pids monitor2 = [0] \<and>
   pids (refreshed (update_pids cfg_signal (\<lambda>_. view_gone) (\<lambda>_. blank) monitor2)) = [] \<and>
   0 \<notin> set (pids (refreshed (update_pids cfg_signal (\<lambda>_. view_gone) (\<lambda>_. blank) monitor2))) \<and>
   update cfg_signal view_garbled pid_sampled 300 = Inl TypeError \<and>
   update_loop cfg_signal (\<lambda>_. view_garbled) [0, 1] 0 (\<lambda>_. pid_sampled) = Inl TypeError"
proof -
  let ?r = "update_pids cfg_signal (\<lambda>_. view_gone) (\<lambda>_. blank) monitor2"
  have 1: "use_SIGSTOP cfg_signal"
    by code_simp
  have 2: "read_stat_try view_gone pid_sampled = Inl IOError"
    by code_simp
  have 3: "sum_cur_cpu_time cfg_signal view_gone = Inr 300"
    by code_simp
  have 4: "read_stat_try view_garbled pid_sampled = Inl TypeError"
    by code_simp
  have 5: "TypeError \<noteq> IOError"
    by simp
  have 6: "sum_cur_cpu_time cfg_signal view_garbled = Inr 300"
    by code_simp
  have 7: "pids monitor2 = [0]"
    by code_simp
  have rd: "read_stat_try view_gone (heap monitor2 (pids monitor2 ! 0)) = Inl IOError"
    by code_simp
  have 8: "?r = Inr (refreshed ?r, reads ?r)"
    by (rule refreshed_Inr) code_simp
  have 9: "pids (refreshed ?r) = []"
    by code_simp
  note inst = C8_io_error_masked [of cfg_signal view_gone pid_sampled 300 "\<lambda>_. view_gone" 0
      "\<lambda>_. pid_sampled" 0 "[1]" monitor2 0 "\<lambda>_. view_gone" "\<lambda>_. blank" "refreshed ?r" "reads ?r"
      IOError]
  from inst 1 2 3
  have a: "\<exists>p'. update cfg_signal view_gone pid_sampled 300 = Inr p' \<and> \<not> is_a_process p' \<and>
      keeps_stat_fields pid_sampled p'"
    and b: "\<exists>p'. \<not> is_a_process p' \<and> keeps_stat_fields pid_sampled p' \<and>
      update_loop cfg_signal (\<lambda>_. view_gone) [0, 1] 0 (\<lambda>_. pid_sampled) =
      update_loop cfg_signal (\<lambda>_. view_gone) [1] 2 ((\<lambda>_. pid_sampled)(0 := p'))"
    by simp_all
  from 7 have k: "0 < length (pids monitor2)"
    by simp
  from inst reachable_monitor2 k rd 8
  have "pids monitor2 ! 0 \<notin> set (pids (refreshed ?r))"
    by blast
  with 7 have c: "0 \<notin> set (pids (refreshed ?r))"
    by simp
  note inst' = C8_io_error_masked [of cfg_signal view_garbled pid_sampled 300 "\<lambda>_. view_garbled" 0
      "\<lambda>_. pid_sampled" 0 "[1]" monitor2 0 "\<lambda>_. view_gone" "\<lambda>_. blank" "refreshed ?r" "reads ?r"
      TypeError]
  from inst' 4 5 6
  have d: "update cfg_signal view_garbled pid_sampled 300 = Inl TypeError"
    and e: "update_loop cfg_signal (\<lambda>_. view_garbled) [0, 1] 0 (\<lambda>_. pid_sampled) = Inl TypeError"
    by simp_all
  from a b c d e 7 9 show ?thesis by blast
qed

text \<open>
  C3, as the specification has it: no whitelisted record is ever among the self-stopped
  records.  With the state \<open>T\<close> on the whitelist, process 100 is found, sampled twice
  and stopped by the daemon; at the next tick its stat file shows the state \<open>T\<close>, the
  refresh marks its record whitelisted, and the record stays among the self-stopped
  ones.
\<close>

theorem C3_whitelisted_record_stays_stopped:
  "reachable cfg_signal monitor4 \<and> pids monitor4 = [0] \<and> self_stopped_pids monitor4 = [0] \<and>
   is_whitelisted (heap monitor4 0) \<and> is_self_stopped (heap monitor4 0) \<and>
   is_a_process (heap monitor4 0)"
proof -
  from reachable_monitor3 step_monitor4 have "reachable cfg_signal monitor4"
    by (rule reachable.stop)
  moreover have "pids monitor4 = [0] \<and> self_stopped_pids monitor4 = [0] \<and>
      is_whitelisted (heap monitor4 0) \<and> is_self_stopped (heap monitor4 0) \<and>
      is_a_process (heap monitor4 0)"
    by code_simp
  ultimately show ?thesis by blast
qed

text \<open>
  C3, amended: in every state that census refreshes, \<open>exec_SIGSTOP\<close> and
  \<open>exec_SIGCONT\<close> lead to, every self-stopped record is also in the census.  A record is
  not whitelisted when \<open>exec_SIGSTOP\<close> adds it to the self-stopped records; a refresh
  keeps among them exactly the records that are live and still flagged as stopped by the
  daemon, whatever their whitelist flag, and \<open>exec_SIGCONT\<close> leaves there what its
  refresh has kept.
\<close>

theorem C3_self_stopped_in_census:
  assumes "reachable cfg m"
  shows "set (self_stopped_pids m) \<subseteq> set (pids m) \<and>
         (update_pids cfg w mem m = Inr (m1, t) \<longrightarrow>
            self_stopped_pids m1 =
              filter (\<lambda>v. is_a_process (heap m1 v) \<and> is_self_stopped (heap m1 v))
                (self_stopped_pids m)) \<and>
         (exec_SIGSTOP cfg w mem m = Inr m2 \<longrightarrow>
            (\<exists>r n added. update_pids cfg w mem m = Inr (r, n) \<and>
               self_stopped_pids m2 = self_stopped_pids r @ added \<and>
               set added \<subseteq> set (pids m2) \<and>
               (\<forall>a \<in> set added. \<not> is_whitelisted (heap m2 a)))) \<and>
         (exec_SIGCONT cfg w mem m = Inr m3 \<longrightarrow>
            m3 = m \<or> (\<exists>r n. update_pids cfg w mem m = Inr (r, n) \<and>
               self_stopped_pids m3 = self_stopped_pids r))"
proof (intro conjI impI)
  show "set (self_stopped_pids m) \<subseteq> set (pids m)"
    using assms by (rule reachable_subset)
next
  assume "update_pids cfg w mem m = Inr (m1, t)"
  then show "self_stopped_pids m1 =
      filter (\<lambda>v. is_a_process (heap m1 v) \<and> is_self_stopped (heap m1 v)) (self_stopped_pids m)"
    using reachable_allocated [OF assms] reachable_subset [OF assms]
    by (rule update_pids_self_stopped)
next
  assume "exec_SIGSTOP cfg w mem m = Inr m2"
  from exec_SIGSTOP_fields [OF this] obtain r n added where
    "update_pids cfg w mem m = Inr (r, n)" "pids m2 = pids r"
    "self_stopped_pids m2 = self_stopped_pids r @ added" "set added \<subseteq> set (pids r)"
    "\<forall>a \<in> set added. \<not> is_whitelisted (heap m2 a)"
    by blast
  then show "\<exists>r n added. update_pids cfg w mem m = Inr (r, n) \<and>
               self_stopped_pids m2 = self_stopped_pids r @ added \<and>
               set added \<subseteq> set (pids m2) \<and>
               (\<forall>a \<in> set added. \<not> is_whitelisted (heap m2 a))"
    by auto
next
  assume "exec_SIGCONT cfg w mem m = Inr m3"
  from exec_SIGCONT_fields [OF this]
  show "m3 = m \<or> (\<exists>r n. update_pids cfg w mem m = Inr (r, n) \<and>
               self_stopped_pids m3 = self_stopped_pids r)"
    by blast
qed

theorem C3_self_stopped_in_census_witness:
  "reachable cfg_signal monitor3 \<and> self_stopped_pids monitor3 = [0] \<and> pids monitor3 = [0] \<and>
   set (self_stopped_pids monitor3) \<subseteq> set (pids monitor3) \<and>
   self_stopped_pids (refreshed (update_pids cfg_signal (\<lambda>_. view_stopped) (\<lambda>_. blank) monitor3))
     = filter (\<lambda>v. is_a_process (heap (refreshed (update_pids cfg_signal (\<lambda>_. view_stopped)
                                                     (\<lambda>_. blank) monitor3)) v) \<and>
                   is_self_stopped (heap (refreshed (update_pids cfg_signal (\<lambda>_. view_stopped)
                                                     (\<lambda>_. blank) monitor3)) v))
         (self_stopped_pids monitor3) \<and>
   (\<exists>r n added. update_pids cfg_signal (\<lambda>_. view_later) (\<lambda>_. blank) monitor2 = Inr (r, n) \<and>
      self_stopped_pids monitor3 = self_stopped_pids r @ added \<and>
      set added \<subseteq> set (pids monitor3) \<and>
      (\<forall>a \<in> set added. \<not> is_whitelisted (heap monitor3 a)))"
proof -
  let ?r = "update_pids cfg_signal (\<lambda>_. view_stopped) (\<lambda>_. blank) monitor3"
  have v: "self_stopped_pids monitor3 = [0] \<and> pids monitor3 = [0]"
    by code_simp
  have u: "?r = Inr (refreshed ?r, reads ?r)"
    by (rule refreshed_Inr) code_simp
  from C3_self_stopped_in_census [OF reachable_monitor3,
      of "\<lambda>_. view_stopped" "\<lambda>_. blank" "refreshed ?r" "reads ?r" monitor4 monitor4] u
  have 1: "set (self_stopped_pids monitor3) \<subseteq> set (pids monitor3)"
    and 2: "self_stopped_pids (refreshed ?r) =
      filter (\<lambda>v. is_a_process (heap (refreshed ?r) v) \<and> is_self_stopped (heap (refreshed ?r) v))
        (self_stopped_pids monitor3)"
    by blast+
  from C3_self_stopped_in_census [OF reachable_monitor2,
      of "\<lambda>_. view_later" "\<lambda>_. blank" "refreshed ?r" "reads ?r" monitor3 monitor4] step_monitor3
  have 3: "\<exists>r n added. update_pids cfg_signal (\<lambda>_. view_later) (\<lambda>_. blank) monitor2 = Inr (r, n) \<and>
      self_stopped_pids monitor3 = self_stopped_pids r @ added \<and>
      set added \<subseteq> set (pids monitor3) \<and>
      (\<forall>a \<in> set added. \<not> is_whitelisted (heap monitor3 a))"
    by blast
  from reachable_monitor3 v 1 2 3 show ?thesis by blast
qed

text \<open>
  C10.  An update of a record that is ready returns a record that is ready, whose CPU
  share the accessor hands out without the Internal error; when the update finds the
  record whitelisted it sets the share to 0 and clears \<open>has_received_first_update\<close>,
  and the record is ready all the same.  So a record of the census that is ready stays
  ready through every refresh, \<open>exec_SIGSTOP\<close> and \<open>exec_SIGCONT\<close>.
\<close>

theorem C10_ready_never_cleared:
  "(is_ready p \<and> update cfg sy p t = Inr p' \<longrightarrow>
      is_ready p' \<and> get_pid_cpu_pct p' = Inr (pid_cpu_pct p') \<and>
      (is_whitelisted p' \<longrightarrow> pid_cpu_pct p' = Fin 0 \<and> \<not> has_received_first_update p')) \<and>
   (a < next_addr m \<and> is_ready (heap m a) \<longrightarrow>
      (update_pids cfg w mem m = Inr (m1, n) \<longrightarrow>
         is_ready (heap m1 a) \<and> get_pid_cpu_pct (heap m1 a) = Inr (pid_cpu_pct (heap m1 a))) \<and>
      (exec_SIGSTOP cfg w mem m = Inr m2 \<longrightarrow>
         is_ready (heap m2 a) \<and> get_pid_cpu_pct (heap m2 a) = Inr (pid_cpu_pct (heap m2 a))) \<and>
      (exec_SIGCONT cfg w mem m = Inr m3 \<longrightarrow>
         is_ready (heap m3 a) \<and> get_pid_cpu_pct (heap m3 a) = Inr (pid_cpu_pct (heap m3 a))))"
proof -
  have 1: "is_ready p' \<and> get_pid_cpu_pct p' = Inr (pid_cpu_pct p') \<and>
      (is_whitelisted p' \<longrightarrow> pid_cpu_pct p' = Fin 0 \<and> \<not> has_received_first_update p')"
    if "is_ready p" and u: "update cfg sy p t = Inr p'"
  proof -
    from update_ready [OF u that(1)] have r: "is_ready p'" .
    with get_pid_cpu_pct_ready [OF r] update_whitelisted [OF u] show ?thesis by blast
  qed
  have 2: "is_ready (heap m1 a)"
    if "a < next_addr m" "is_ready (heap m a)" "update_pids cfg w mem m = Inr (m1, n)"
    for m1 n
    using update_pids_fields(3) [OF that(3) that(1,2)] .
  have 3: "is_ready (heap m2 a)"
    if a: "a < next_addr m" "is_ready (heap m a)" and e: "exec_SIGSTOP cfg w mem m = Inr m2"
  proof -
    from exec_SIGSTOP_fields [OF e] obtain r k where
      "update_pids cfg w mem m = Inr (r, k)" "\<forall>b. is_ready (heap m2 b) = is_ready (heap r b)"
      by blast
    with 2 [OF a] show ?thesis by blast
  qed
  have 4: "is_ready (heap m3 a)"
    if a: "a < next_addr m" "is_ready (heap m a)" and e: "exec_SIGCONT cfg w mem m = Inr m3"
  proof -
    from exec_SIGCONT_fields [OF e] show ?thesis
    proof
      assume "m3 = m"
      with a show ?thesis by simp
    next
      assume "\<exists>m1 t. update_pids cfg w mem m = Inr (m1, t) \<and> pids m3 = pids m1 \<and>
           next_addr m3 = next_addr m1 \<and> self_stopped_pids m3 = self_stopped_pids m1 \<and>
           (\<forall>b. is_ready (heap m3 b) = is_ready (heap m1 b))"
      then obtain r k where
        "update_pids cfg w mem m = Inr (r, k)" "\<forall>b. is_ready (heap m3 b) = is_ready (heap r b)"
        by blast
      with 2 [OF a] show ?thesis by blast
    qed
  qed
  from 1 2 3 4 get_pid_cpu_pct_ready show ?thesis
    by blast
qed

theorem C10_ready_never_cleared_witness:
  "is_ready (heap monitor3 0) \<and> is_ready (heap monitor4 0) \<and> is_whitelisted (heap monitor4 0) \<and>
   get_pid_cpu_pct (heap monitor4 0) = Inr (Fin 0) \<and>
   is_ready (rec_of (update cfg_signal view_stopped (heap monitor3 0) 216)) \<and>
   pid_cpu_pct (rec_of (update cfg_signal view_stopped (heap monitor3 0) 216)) = Fin 0 \<and>
   \<not> has_received_first_update (rec_of (update cfg_signal view_stopped (heap monitor3 0) 216))"
proof -
  let ?p = "heap monitor3 0"
  let ?p' = "rec_of (update cfg_signal view_stopped ?p 216)"
  have r3: "is_ready ?p" "0 < next_addr monitor3"
    by code_simp+
  have u: "update cfg_signal view_stopped ?p 216 = Inr ?p'"
    by (rule rec_of_Inr) code_simp
  have wl: "is_whitelisted ?p'" "is_whitelisted (heap monitor4 0)"
    "pid_cpu_pct (heap monitor4 0) = Fin 0"
    by code_simp+
  note inst = C10_ready_never_cleared [of ?p cfg_signal view_stopped 216 ?p' 0 monitor3
      "\<lambda>_. view_stopped" "\<lambda>_. blank" monitor4 0 monitor4 monitor4]
  from inst r3(1) u wl(1)
  have 1: "is_ready ?p'" "pid_cpu_pct ?p' = Fin 0" "\<not> has_received_first_update ?p'"
    by blast+
  from inst r3 step_monitor4
  have 2: "is_ready (heap monitor4 0)"
    and 3: "get_pid_cpu_pct (heap monitor4 0) = Inr (pid_cpu_pct (heap monitor4 0))"
    by blast+
  from r3 1 2 3 wl show ?thesis by simp
qed

text \<open>
  C1.  Three processes of the census, none whitelisted, each sampled once; at the next
  tick their CPU shares are 0.10, 0.55 and 0.30, the temperature is over the stop
  threshold and stop mode is stepwise.  All three are candidates, and the second has the
  highest share.  \<open>exec_SIGSTOP\<close> sends the stop signal to the first, process 100,
  whose share is the lowest, and adds its record to the self-stopped ones:
  \<^verbatim>\<open>std::max_element\<close> is called with the comparison \<open>a > b\<close>, with which it
  returns the smallest element.
\<close>

theorem C1_stepwise_stop_lowest_share:
  "use_stepwise_SIGSTOP cfg_signal \<and>
   find_SIGSTOP_available_pids
      (refreshed (update_pids cfg_signal (\<lambda>_. view_three) (\<lambda>_. blank) three_sampled)) = [0, 1, 2] \<and>
   pid_cpu_pct (heap (result (exec_SIGSTOP cfg_signal (\<lambda>_. view_three) (\<lambda>_. blank) three_sampled)) 0)
     = f32_div 10 100 \<and>
   pid_cpu_pct (heap (result (exec_SIGSTOP cfg_signal (\<lambda>_. view_three) (\<lambda>_. blank) three_sampled)) 1)
     = f32_div 55 100 \<and>
   pid_cpu_pct (heap (result (exec_SIGSTOP cfg_signal (\<lambda>_. view_three) (\<lambda>_. blank) three_sampled)) 2)
     = f32_div 30 100 \<and>
   f32_less (f32_div 10 100) (f32_div 55 100) \<and> f32_less (f32_div 30 100) (f32_div 55 100) \<and>
   f32_less (f32_div 10 100) (f32_div 30 100) \<and>
   pid (heap (result (exec_SIGSTOP cfg_signal (\<lambda>_. view_three) (\<lambda>_. blank) three_sampled)) 0)
     = 100 \<and>
   \<not> isl (exec_SIGSTOP cfg_signal (\<lambda>_. view_three) (\<lambda>_. blank) three_sampled) \<and>
   self_stopped_pids (result (exec_SIGSTOP cfg_signal (\<lambda>_. view_three) (\<lambda>_. blank) three_sampled))
     = [0] \<and>
   signals (result (exec_SIGSTOP cfg_signal (\<lambda>_. view_three) (\<lambda>_. blank) three_sampled))
     = [(100, 19)]"
  by code_simp

text \<open>
  C2.  The configuration has its two stepwise switches at their defaults: stop is
  stepwise, continue is not.  Two records are self-stopped and the temperature is under
  the continue threshold.  By the switch for continue, both processes are to be
  continued; \<open>exec_SIGCONT\<close> sends the continue signal to process 100 alone and leaves
  process 200 stopped, because it reads the switch for stop.
\<close>

theorem C2_continue_ignores_its_switch:
  "use_stepwise_SIGCONT cfg_plain = False \<and> use_stepwise_SIGSTOP cfg_plain = True \<and>
   self_stopped_pids two_stopped = [0, 1] \<and>
   \<not> isl (exec_SIGCONT cfg_plain (\<lambda>_. view_two) (\<lambda>_. blank) two_stopped) \<and>
   signals two_stopped = [(100, 19), (200, 19)] \<and>
   signals (result (exec_SIGCONT cfg_plain (\<lambda>_. view_two) (\<lambda>_. blank) two_stopped))
     = [(100, 19), (200, 19), (100, 18)] \<and>
   is_self_stopped (heap (result (exec_SIGCONT cfg_plain (\<lambda>_. view_two) (\<lambda>_. blank) two_stopped)) 1) \<and>
   signals (result (exec_SIGCONT (cfg_plain\<lparr>use_stepwise_SIGSTOP := False, use_stepwise_SIGCONT := True\<rparr>)
                      (\<lambda>_. view_two) (\<lambda>_. blank) two_stopped))
     = [(100, 19), (200, 19), (100, 18), (200, 18)]"
  by code_simp

end
